(* ===== verification/Prelude.thy ===== *)
theory Prelude
  imports Main "HOL-Library.Word" "HOL-Library.Sublist"
begin

text \<open>
  Shared by every theory of the development: the collections that carry the component proofs,
  the names of the model's basic types, lemmas on lists, maps and sums that no component owns,
  and the locale of a deterministic machine whose invariant is proved once and reused.
\<close>

section \<open>Collections\<close>

named_theorems go_str \<open>rewriting rules for the strings package\<close>
named_theorems host_simps \<open>what a host operation leaves alone\<close>
named_theorems model_defs \<open>definitions unfolded to evaluate a closed instance\<close>

section \<open>Names of the basic types\<close>

type_synonym uint64 = "64 word"
type_synonym path = string
type_synonym key = "string list"
type_synonym ('e, 'a) result = "'e + 'a"

section \<open>Lists and maps\<close>

lemma dropWhile_idem [simp]: "dropWhile p (dropWhile p xs) = dropWhile p xs"
  by (induction xs) auto

lemma dropWhile_hd: "dropWhile p xs = y # ys \<Longrightarrow> \<not> p y"
  by (metis hd_dropWhile list.distinct(1) list.sel(1))

lemma take_length_eq_prefix: "(take (length p) s = p) = prefix p s"
  by (auto simp: prefix_def) (metis append_take_drop_id)

lemma prefix_append_cancel [simp]: "prefix (a @ xs) (a @ ys) = prefix xs ys"
  by simp

lemma foldl_invariant:
  assumes "I s" and "\<And>s e. e \<in> set es \<Longrightarrow> I s \<Longrightarrow> I (f s e)"
  shows "I (foldl f s es)"
  using assms by (induction es arbitrary: s) auto

lemma restrict_map_restrict_iff: "(m |` A) k = Some v \<longleftrightarrow> m k = Some v \<and> k \<in> A"
  by (auto simp: restrict_map_def)

lemma filter_sorted_wrt_len: "length (filter p xs) = length xs \<longleftrightarrow> (\<forall>x\<in>set xs. p x)"
  by (induction xs) (auto simp: le_imp_less_Suc less_imp_neq)

section \<open>Sums as results\<close>

definition bind_result :: "('e, 'a) result \<Rightarrow> ('a \<Rightarrow> ('e, 'b) result) \<Rightarrow> ('e, 'b) result" where
  "bind_result r f = (case r of Inl e \<Rightarrow> Inl e | Inr x \<Rightarrow> f x)"

lemma bind_result_simps [simp]:
  "bind_result (Inl e) f = Inl e"
  "bind_result (Inr x) f = f x"
  by (simp_all add: bind_result_def)

lemma bind_result_Inr_iff: "bind_result r f = Inr y \<longleftrightarrow> (\<exists>x. r = Inr x \<and> f x = Inr y)"
  by (cases r) auto

section \<open>Machines and their invariants\<close>

text \<open>
  A component that reacts to events is a step function; \<open>ok\<close> says which event the environment may
  deliver in which state. What every allowed step keeps, every allowed run keeps.
\<close>

fun run_ok :: "('s \<Rightarrow> 'e \<Rightarrow> 's) \<Rightarrow> ('s \<Rightarrow> 'e \<Rightarrow> bool) \<Rightarrow> 's \<Rightarrow> 'e list \<Rightarrow> bool" where
  "run_ok step ok s [] = True"
| "run_ok step ok s (e # es) = (ok s e \<and> run_ok step ok (step s e) es)"

lemma run_ok_append: "run_ok step ok s (es @ fs) \<longleftrightarrow> run_ok step ok s es \<and> run_ok step ok (foldl step s es) fs"
  by (induction es arbitrary: s) auto

locale machine =
  fixes step :: "'s \<Rightarrow> 'e \<Rightarrow> 's"
    and ok :: "'s \<Rightarrow> 'e \<Rightarrow> bool"
    and inv :: "'s \<Rightarrow> bool"
  assumes step_keeps: "inv s \<Longrightarrow> ok s e \<Longrightarrow> inv (step s e)"
begin

lemma run_keeps: "inv s \<Longrightarrow> run_ok step ok s es \<Longrightarrow> inv (foldl step s es)"
  by (induction es arbitrary: s) (auto intro: step_keeps)

text \<open>A fact that one allowed step from a good state keeps is kept by a run.\<close>

lemma run_keeps_fact:
  assumes "\<And>s e. inv s \<Longrightarrow> ok s e \<Longrightarrow> safe e \<Longrightarrow> holds s \<Longrightarrow> holds (step s e)"
    and "inv s" and "run_ok step ok s es" and "\<And>e. e \<in> set es \<Longrightarrow> safe e" and "holds s"
  shows "holds (foldl step s es)"
  using assms(2-) by (induction es arbitrary: s) (auto intro: step_keeps assms(1))

end

end
