(* ===== verification/Go_Strings.thy ===== *)
theory Go_Strings
  imports Prelude
begin

text \<open>
  The part of Go's \<open>strings\<close>, \<open>strconv\<close> and \<open>fmt\<close> packages the agent uses, on byte strings.
  Case folding and white space are those of ASCII: a string with other characters is outside the
  model wherever the code folds case or trims. Separators are single characters, as they are
  everywhere in the agent.
\<close>

section \<open>Characters\<close>

definition is_space :: "char \<Rightarrow> bool" where
  "is_space c \<longleftrightarrow> c = CHR '' '' \<or> c = CHR 0x09 \<or> c = CHR 0x0A \<or> c = CHR 0x0B \<or> c = CHR 0x0C \<or> c = CHR 0x0D"

definition code :: "char \<Rightarrow> nat" where
  "code c = of_char c"

definition is_digit :: "char \<Rightarrow> bool" where
  "is_digit c \<longleftrightarrow> 48 \<le> code c \<and> code c \<le> 57"

definition is_lower_letter :: "char \<Rightarrow> bool" where
  "is_lower_letter c \<longleftrightarrow> 97 \<le> code c \<and> code c \<le> 122"

definition is_upper_letter :: "char \<Rightarrow> bool" where
  "is_upper_letter c \<longleftrightarrow> 65 \<le> code c \<and> code c \<le> 90"

definition lower_char :: "char \<Rightarrow> char" where
  "lower_char c = (if is_upper_letter c then char_of (code c + 32) else c)"

abbreviation newline :: char where "newline \<equiv> CHR 0x0A"

abbreviation tab :: char where "tab \<equiv> CHR 0x09"

abbreviation slash :: char where "slash \<equiv> CHR ''/''"

abbreviation quote :: string where "quote \<equiv> [CHR 0x22]"

lemma lower_char_idem [simp]: "lower_char (lower_char c) = lower_char c"
  by (auto simp: lower_char_def is_upper_letter_def code_def)

lemma lower_char_not_upper: "\<not> is_upper_letter (lower_char c)"
  by (auto simp: lower_char_def is_upper_letter_def code_def)

section \<open>Strings\<close>

definition trim_left :: "string \<Rightarrow> string" where
  "trim_left s = dropWhile is_space s"

definition trim_right_by :: "(char \<Rightarrow> bool) \<Rightarrow> string \<Rightarrow> string" where
  "trim_right_by p s = rev (dropWhile p (rev s))"

definition trim_by :: "(char \<Rightarrow> bool) \<Rightarrow> string \<Rightarrow> string" where
  "trim_by p s = trim_right_by p (dropWhile p s)"

definition trim_space :: "string \<Rightarrow> string" where
  "trim_space s = trim_by is_space s"

definition to_lower :: "string \<Rightarrow> string" where
  "to_lower s = map lower_char s"

definition upper_char :: "char \<Rightarrow> char" where
  "upper_char c = (if is_lower_letter c then char_of (code c - 32) else c)"

definition to_upper :: "string \<Rightarrow> string" where
  "to_upper s = map upper_char s"

definition equal_fold :: "string \<Rightarrow> string \<Rightarrow> bool" where
  "equal_fold a b \<longleftrightarrow> to_lower a = to_lower b"

definition has_prefix :: "string \<Rightarrow> string \<Rightarrow> bool" where
  "has_prefix s p \<longleftrightarrow> take (length p) s = p"

definition has_suffix :: "string \<Rightarrow> string \<Rightarrow> bool" where
  "has_suffix s p \<longleftrightarrow> has_prefix (rev s) (rev p)"

definition trim_prefix :: "string \<Rightarrow> string \<Rightarrow> string" where
  "trim_prefix s p = (if has_prefix s p then drop (length p) s else s)"

definition trim_suffix :: "string \<Rightarrow> string \<Rightarrow> string" where
  "trim_suffix s p = (if has_suffix s p then take (length s - length p) s else s)"

fun str_index :: "string \<Rightarrow> string \<Rightarrow> nat option" where
  "str_index [] p = (if p = [] then Some 0 else None)"
| "str_index (c # s) p = (if has_prefix (c # s) p then Some 0 else map_option Suc (str_index s p))"

definition contains :: "string \<Rightarrow> string \<Rightarrow> bool" where
  "contains s p \<longleftrightarrow> str_index s p \<noteq> None"

definition cut :: "string \<Rightarrow> string \<Rightarrow> (string \<times> string) option" where
  "cut s p = (case str_index s p of None \<Rightarrow> None | Some i \<Rightarrow> Some (take i s, drop (i + length p) s))"

fun split_on :: "char \<Rightarrow> string \<Rightarrow> string list" where
  "split_on d [] = [[]]"
| "split_on d (c # s) =
     (if c = d then [] # split_on d s
      else (case split_on d s of [] \<Rightarrow> [[c]] | w # ws \<Rightarrow> (c # w) # ws))"

fun join :: "string \<Rightarrow> string list \<Rightarrow> string" where
  "join d [] = []"
| "join d [s] = s"
| "join d (s # ss) = s @ d @ join d ss"

fun fields_acc :: "string \<Rightarrow> string \<Rightarrow> string list" where
  "fields_acc w [] = (if w = [] then [] else [w])"
| "fields_acc w (c # s) =
     (if is_space c then (if w = [] then fields_acc [] s else w # fields_acc [] s)
      else fields_acc (w @ [c]) s)"

definition fields :: "string \<Rightarrow> string list" where
  "fields s = fields_acc [] s"

section \<open>Numbers\<close>

fun nat_dec :: "nat \<Rightarrow> string" where
  "nat_dec n = (if n < 10 then [char_of (48 + n)] else nat_dec (n div 10) @ [char_of (48 + n mod 10)])"

declare nat_dec.simps [simp del]

definition itoa :: "int \<Rightarrow> string" where
  "itoa i = (if i < 0 then CHR ''-'' # nat_dec (nat (- i)) else nat_dec (nat i))"

definition digits_value :: "string \<Rightarrow> nat" where
  "digits_value s = foldl (\<lambda>n c. 10 * n + (code c - 48)) 0 s"

definition max_int :: int where "max_int = 2 ^ 63 - 1"

definition min_int :: int where "min_int = - (2 ^ 63)"

text \<open>\<open>strconv.Atoi\<close>: an optional sign, decimal digits only, within 64 bits.\<close>

definition atoi :: "string \<Rightarrow> int option" where
  "atoi s =
     (let (neg, ds) = (case s of [] \<Rightarrow> (False, [])
                        | c # r \<Rightarrow> if c = CHR ''-'' then (True, r) else if c = CHR ''+'' then (False, r) else (False, s));
          v = (if neg then - int (digits_value ds) else int (digits_value ds))
      in if ds = [] \<or> \<not> list_all is_digit ds \<or> v < min_int \<or> max_int < v then None else Some v)"

text \<open>\<open>fmt.Sscanf(s, "%d", &n)\<close> reads the number a string starts with, leading spaces skipped.\<close>

definition scan_int :: "string \<Rightarrow> int option" where
  "scan_int s =
     (let t = trim_left s;
          (sgn, r) = (case t of [] \<Rightarrow> ([], [])
                       | c # u \<Rightarrow> if c = CHR ''-'' \<or> c = CHR ''+'' then ([c], u) else ([], t))
      in atoi (sgn @ takeWhile is_digit r))"

section \<open>Laws\<close>

lemma has_prefix_iff: "has_prefix s p \<longleftrightarrow> prefix p s"
  by (simp add: has_prefix_def take_length_eq_prefix)

lemma has_prefix_append [go_str]: "has_prefix (p @ s) p"
  by (simp add: has_prefix_def)

lemma to_lower_idem [simp, go_str]: "to_lower (to_lower s) = to_lower s"
  by (simp add: to_lower_def)

lemma to_lower_append [go_str]: "to_lower (a @ b) = to_lower a @ to_lower b"
  by (simp add: to_lower_def)

lemma length_to_lower [simp, go_str]: "length (to_lower s) = length s"
  by (simp add: to_lower_def)

lemma equal_fold_refl [simp, go_str]: "equal_fold a a"
  by (simp add: equal_fold_def)

lemma equal_fold_sym: "equal_fold a b \<Longrightarrow> equal_fold b a"
  by (simp add: equal_fold_def)

lemma equal_fold_trans: "equal_fold a b \<Longrightarrow> equal_fold b c \<Longrightarrow> equal_fold a c"
  by (simp add: equal_fold_def)

lemma trim_right_by_idem [simp]: "trim_right_by p (trim_right_by p s) = trim_right_by p s"
  by (simp add: trim_right_by_def)

lemma dropWhile_trim_right_by:
  "(s = [] \<or> \<not> p (hd s)) \<Longrightarrow> dropWhile p (trim_right_by p s) = trim_right_by p s"
proof (cases s)
  case (Cons c r)
  assume "s = [] \<or> \<not> p (hd s)"
  with Cons have c: "\<not> p c" by simp
  have "\<exists>w. dropWhile p (rev s) = w @ [c]"
    using Cons c by (metis dropWhile_append3 rev.simps(2))
  then show ?thesis using c by (auto simp: trim_right_by_def)
qed (simp add: trim_right_by_def)

lemma trim_by_idem [simp]: "trim_by p (trim_by p s) = trim_by p s"
proof -
  have "dropWhile p s = [] \<or> \<not> p (hd (dropWhile p s))"
    by (cases "dropWhile p s") (auto dest: dropWhile_hd)
  then show ?thesis
    by (simp add: trim_by_def dropWhile_trim_right_by)
qed

lemma trim_space_idem [simp, go_str]: "trim_space (trim_space s) = trim_space s"
  by (simp add: trim_space_def)

lemma trim_space_Nil [simp, go_str]: "trim_space [] = []"
  by (simp add: trim_space_def trim_by_def trim_right_by_def)

lemma set_trim_by: "set (trim_by p s) \<subseteq> set s"
  by (auto simp: trim_by_def trim_right_by_def dest!: set_dropWhileD)

lemma trim_by_empty_iff: "trim_by p s = [] \<longleftrightarrow> (\<forall>c\<in>set s. p c)"
proof
  assume "trim_by p s = []"
  then have "\<forall>c\<in>set (dropWhile p s). p c"
    by (simp add: trim_by_def trim_right_by_def dropWhile_eq_Nil_conv)
  then have "dropWhile p s = []"
    by (cases "dropWhile p s") (auto dest: dropWhile_hd)
  then show "\<forall>c\<in>set s. p c" by simp
next
  assume "\<forall>c\<in>set s. p c"
  then show "trim_by p s = []"
    by (auto simp: trim_by_def trim_right_by_def dest: set_dropWhileD)
qed

lemma trim_by_hd: "trim_by p s = c # r \<Longrightarrow> \<not> p c"
  by (metis dropWhile.simps(2) dropWhile_hd not_Cons_self2 trim_by_def trim_by_idem trim_right_by_idem dropWhile_trim_right_by list.sel(1) hd_dropWhile)

lemma trim_by_last: "trim_by p s = r @ [c] \<Longrightarrow> \<not> p c"
  by (metis dropWhile_hd rev_eq_append_conv rev_rev_ident trim_by_def trim_right_by_def rev.simps append_Nil rev_append append_Cons)

lemma split_on_not_Nil [simp]: "split_on d s \<noteq> []"
  by (induction s) (auto split: list.splits)

lemma join_split_on [go_str]: "join [d] (split_on d s) = s"
proof (induction s)
  case (Cons c s)
  obtain w ws where w: "split_on d s = w # ws"
    by (cases "split_on d s") auto
  with Cons show ?case by (cases ws) auto
qed simp

lemma split_on_no_sep: "w \<in> set (split_on d s) \<Longrightarrow> d \<notin> set w"
  by (induction s arbitrary: w) (auto split: list.splits if_splits)

lemma split_on_single: "d \<notin> set s \<Longrightarrow> split_on d s = [s]"
  by (induction s) auto

lemma split_on_append_sep: "d \<notin> set s \<Longrightarrow> split_on d (s @ d # t) = s # split_on d t"
  by (induction s) auto

lemma split_on_append_general:
  "split_on d (s @ d # t) = split_on d s @ split_on d t"
proof (induction s)
  case (Cons c s)
  then show ?case by (cases "split_on d s") auto
qed simp

lemma split_on_join:
  "ss \<noteq> [] \<Longrightarrow> (\<And>s. s \<in> set ss \<Longrightarrow> d \<notin> set s) \<Longrightarrow> split_on d (join [d] ss) = ss"
proof (induction ss rule: induct_list012)
  case (2 s)
  then show ?case by (simp add: split_on_single)
next
  case (3 s v va)
  then show ?case by (simp add: split_on_append_sep)
qed simp

lemma join_eq_Nil_iff: "join [d] ss = [] \<longleftrightarrow> ss = [] \<or> ss = [[]]"
  by (induction ss rule: induct_list012) auto

lemma join_Cons: "ss \<noteq> [] \<Longrightarrow> join d (s # ss) = s @ d @ join d ss"
  by (cases ss) auto

lemma join_append: "ss \<noteq> [] \<Longrightarrow> ts \<noteq> [] \<Longrightarrow> join d (ss @ ts) = join d ss @ d @ join d ts"
proof (induction ss)
  case (Cons s ss)
  then show ?case by (cases "ss = []") (simp_all add: join_Cons)
qed simp

lemma join_mid: "\<exists>a b. join d (xs @ l # ys) = a @ l @ b"
proof (induction xs)
  case Nil
  show ?case by (cases ys) (auto intro: exI[of _ "[]"])
next
  case (Cons x xs)
  then obtain a b where "join d (xs @ l # ys) = a @ l @ b" by blast
  then show ?case by (intro exI[of _ "x @ d @ a"] exI[of _ b]) (simp add: join_Cons)
qed

lemma split_line_inside: "l \<in> set (split_on d s) \<Longrightarrow> \<exists>a b. s = a @ l @ b"
  by (metis join_mid join_split_on split_list)

lemma contains_Nil [simp]: "contains [] p \<longleftrightarrow> p = []"
  by (simp add: contains_def)

lemma contains_Cons [simp]: "contains (c # s) p \<longleftrightarrow> has_prefix (c # s) p \<or> contains s p"
  by (auto simp: contains_def)

lemma contains_iff: "contains s p \<longleftrightarrow> (\<exists>a b. s = a @ p @ b)"
proof (induction s)
  case (Cons c s)
  have "(\<exists>a b. c # s = a @ p @ b) \<longleftrightarrow> prefix p (c # s) \<or> (\<exists>a b. s = a @ p @ b)"
  proof
    assume "\<exists>a b. c # s = a @ p @ b"
    then obtain a b where ab: "c # s = a @ p @ b" by blast
    then show "prefix p (c # s) \<or> (\<exists>a b. s = a @ p @ b)"
      by (cases a) (auto simp: prefix_def)
  next
    assume "prefix p (c # s) \<or> (\<exists>a b. s = a @ p @ b)"
    then show "\<exists>a b. c # s = a @ p @ b"
      by (metis append_Cons append_Nil prefix_def)
  qed
  with Cons show ?case by (simp add: has_prefix_iff)
qed auto

text \<open>A decimal number reads back as itself.\<close>

lemma digit_char: "n < 10 \<Longrightarrow> is_digit (char_of (48 + n)) \<and> code (char_of (48 + n)) = 48 + n"
  by (simp add: is_digit_def code_def)

lemma nat_dec_digits: "list_all is_digit (nat_dec n) \<and> nat_dec n \<noteq> [] \<and> digits_value (nat_dec n) = n"
proof (induction n rule: nat_dec.induct)
  case (1 n)
  have d: "n mod 10 < 10" by simp
  show ?case
  proof (cases "n < 10")
    case True
    then show ?thesis using digit_char[OF True] by (simp add: nat_dec.simps[of n] digits_value_def)
  next
    case False
    then show ?thesis using 1 digit_char[OF d] by (simp add: nat_dec.simps[of n] digits_value_def)
  qed
qed

lemma digits_no_space: "list_all is_digit s \<Longrightarrow> list_all (\<lambda>c. \<not> is_space c) s"
  by (auto simp: list_all_iff is_digit_def is_space_def code_def)

lemma fields_acc_word: "list_all (\<lambda>c. \<not> is_space c) s \<Longrightarrow> fields_acc w (s @ t) = fields_acc (w @ s) t"
  by (induction s arbitrary: w) auto

lemma scan_nat_dec: "int n \<le> max_int \<Longrightarrow> scan_int (nat_dec n) = Some (int n)"
proof -
  assume n: "int n \<le> max_int"
  obtain c r where c: "nat_dec n = c # r" using nat_dec_digits[of n] by (cases "nat_dec n") auto
  have d: "is_digit c" "list_all is_digit (nat_dec n)" using nat_dec_digits[of n] c by auto
  have ns: "\<not> is_space c" "c \<noteq> CHR ''-''" "c \<noteq> CHR ''+''" using d(1) by (auto simp: is_digit_def is_space_def code_def)
  have tw: "takeWhile is_digit (nat_dec n) = nat_dec n" using d(2) by (simp add: takeWhile_eq_all_conv list_all_iff)
  have "trim_left (nat_dec n) = nat_dec n" using ns c by (simp add: trim_left_def)
  then have "scan_int (nat_dec n) = atoi (nat_dec n)" using ns c tw by (simp add: scan_int_def)
  also have "\<dots> = Some (int n)" using ns c n nat_dec_digits[of n] by (simp add: atoi_def min_int_def)
  finally show ?thesis .
qed

end
