(* ===== verification/Go_Path.thy ===== *)
theory Go_Path
  imports Go_Strings
begin

text \<open>
  Go's \<open>path/filepath\<close> on Unix: \<open>Clean\<close>, \<open>Join\<close>, \<open>Rel\<close>, \<open>Dir\<close>, \<open>Ext\<close> and \<open>IsAbs\<close>. A path is a
  string; its components are what lies between the slashes. The lexical rules are those of the
  package's documentation, and the lemmas are the ones path confinement rests on.
\<close>

section \<open>Components\<close>

definition rooted :: "path \<Rightarrow> bool" where
  "rooted p \<longleftrightarrow> has_prefix p ''/''"

text \<open>One pass over the components, with those already kept in reverse.\<close>

fun norm_comps :: "bool \<Rightarrow> string list \<Rightarrow> string list \<Rightarrow> string list" where
  "norm_comps r acc [] = rev acc"
| "norm_comps r acc (c # cs) =
     (if c = [] \<or> c = ''.'' then norm_comps r acc cs
      else if c = ''..'' then
        (case acc of
           [] \<Rightarrow> if r then norm_comps r [] cs else norm_comps r [''..''] cs
         | a # as \<Rightarrow> if a = ''..'' then norm_comps r (''..'' # acc) cs else norm_comps r as cs)
      else norm_comps r (c # acc) cs)"

definition clean_comps :: "path \<Rightarrow> string list" where
  "clean_comps p = norm_comps (rooted p) [] (split_on slash p)"

definition clean :: "path \<Rightarrow> path" where
  "clean p =
     (let cs = clean_comps p
      in if rooted p then ''/'' @ join ''/'' cs
         else if cs = [] then ''.'' else join ''/'' cs)"

definition path_join :: "path list \<Rightarrow> path" where
  "path_join ps =
     (let qs = dropWhile (\<lambda>p. p = []) ps
      in if qs = [] then [] else clean (join ''/'' qs))"

fun strip_common :: "string list \<Rightarrow> string list \<Rightarrow> string list \<times> string list" where
  "strip_common (b # bs) (t # ts) = (if b = t then strip_common bs ts else (b # bs, t # ts))"
| "strip_common bs ts = (bs, ts)"

text \<open>\<open>Rel\<close>: \<open>None\<close> is the error \<open>can't make ... relative to ...\<close>.\<close>

definition path_rel :: "path \<Rightarrow> path \<Rightarrow> path option" where
  "path_rel base targ =
     (if clean base = clean targ then Some ''.''
      else if rooted base \<noteq> rooted targ then None
      else (let (bs, ts) = strip_common (clean_comps base) (clean_comps targ)
            in if bs \<noteq> [] \<and> hd bs = ''..'' then None
               else Some (join ''/'' (map (\<lambda>_. ''..'') bs @ ts))))"

definition path_dir :: "path \<Rightarrow> path" where
  "path_dir p = clean (rev (dropWhile (\<lambda>c. c \<noteq> slash) (rev p)))"

text \<open>\<open>Ext\<close> is the suffix from the last dot of the last component.\<close>

definition path_ext :: "path \<Rightarrow> string" where
  "path_ext p =
     (let base = rev (takeWhile (\<lambda>c. c \<noteq> slash) (rev p));
          e = takeWhile (\<lambda>c. c \<noteq> CHR ''.'') (rev base)
      in if length e < length base then CHR ''.'' # rev e else [])"

section \<open>Normal components\<close>

definition plain :: "string \<Rightarrow> bool" where
  "plain c \<longleftrightarrow> c \<noteq> [] \<and> c \<noteq> ''.'' \<and> c \<noteq> ''..'' \<and> slash \<notin> set c"

text \<open>What a cleaned path is made of: parent steps, only in front of a relative path, then names.\<close>

definition normal :: "bool \<Rightarrow> string list \<Rightarrow> bool" where
  "normal r cs \<longleftrightarrow> (\<exists>n ns. cs = replicate n ''..'' @ ns \<and> list_all plain ns \<and> (r \<longrightarrow> n = 0))"

lemma normal_Nil [simp]: "normal r []"
  unfolding normal_def by (rule exI[of _ 0]) simp

lemma normal_plain: "list_all plain ns \<Longrightarrow> normal r ns"
  unfolding normal_def by (rule exI[of _ 0]) simp

lemma normal_rooted_iff: "normal True cs \<longleftrightarrow> list_all plain cs"
  by (auto simp: normal_def)

lemma normal_snoc_plain: "normal r cs \<Longrightarrow> plain c \<Longrightarrow> normal r (cs @ [c])"
proof -
  assume "normal r cs" and c: "plain c"
  then obtain n ns where "cs = replicate n ''..'' @ ns" "list_all plain ns" "r \<longrightarrow> n = 0"
    unfolding normal_def by blast
  with c show ?thesis
    unfolding normal_def by (intro exI[of _ n] exI[of _ "ns @ [c]"]) simp
qed

lemma normal_butlast: "normal r (cs @ [c]) \<Longrightarrow> normal r cs"
proof -
  assume "normal r (cs @ [c])"
  then obtain n ns where h: "cs @ [c] = replicate n ''..'' @ ns" "list_all plain ns" "r \<longrightarrow> n = 0"
    unfolding normal_def by blast
  show "normal r cs"
  proof (cases ns rule: rev_cases)
    case Nil
    with h have "cs = butlast (replicate n ''..'')" by (metis append_Nil2 butlast_snoc)
    then have "cs = replicate (n - 1) ''..'' @ []"
      by (simp add: butlast_conv_take take_replicate)
    then show ?thesis using h(3) unfolding normal_def
      by (intro exI[of _ "n - 1"] exI[of _ "[]"]) simp
  next
    case (snoc ms m)
    with h have "cs = replicate n ''..'' @ ms" "list_all plain ms" by auto
    then show ?thesis using h(3) unfolding normal_def by blast
  qed
qed

lemma normal_last_dots: "normal r (cs @ [''..'']) \<Longrightarrow> \<not> r \<and> cs = replicate (length cs) ''..''"
proof -
  assume "normal r (cs @ [''..''])"
  then obtain n ns where h: "cs @ [''..''] = replicate n ''..'' @ ns" "list_all plain ns" "r \<longrightarrow> n = 0"
    unfolding normal_def by blast
  have ns: "ns = []"
  proof (cases ns rule: rev_cases)
    case (snoc ms m)
    with h have "m = ''..''" "plain m" by auto
    then show ?thesis by (simp add: plain_def)
  qed
  with h have eq: "cs @ [''..''] = replicate n ''..''" by simp
  then have n: "n = Suc (length cs)" by (metis length_append_singleton length_replicate)
  with eq have "cs = replicate (length cs) ''..''"
    by (metis append_eq_append_conv length_replicate replicate_Suc replicate_append_same)
  with n h(3) show ?thesis by auto
qed

lemma norm_comps_normal:
  assumes "normal r (rev acc)" and "\<And>c. c \<in> set cs \<Longrightarrow> slash \<notin> set c"
  shows "normal r (norm_comps r acc cs)"
  using assms
proof (induction r acc cs rule: norm_comps.induct)
  case (2 r acc c cs)
  consider "c = [] \<or> c = ''.''" | "c = ''..''" "acc = []" | a as where "c = ''..''" "acc = a # as"
    | "plain c" "c \<noteq> []" "c \<noteq> ''.''" "c \<noteq> ''..''"
    using "2.prems"(2)[of c] by (cases acc) (auto simp: plain_def)
  then show ?case
  proof cases
    case 1
    then show ?thesis using "2.IH"(1) "2.prems" by auto
  next
    case 2
    have "\<not> r \<Longrightarrow> normal r [''..'']"
      unfolding normal_def by (rule exI[of _ 1]) simp
    then show ?thesis using 2 "2.IH"(2,3) "2.prems" by auto
  next
    case 3
    show ?thesis
    proof (cases "a = ''..''")
      case True
      with 3 "2.prems"(1) have "\<not> r" and "rev as = replicate (length as) ''..''"
        using normal_last_dots[of r "rev as"] by auto
      then have "normal r (rev (''..'' # acc))"
        using 3 True unfolding normal_def
        by (intro exI[of _ "Suc (Suc (length as))"] exI[of _ "[]"])
          (simp add: replicate_append_same)
      then show ?thesis using 3 True "2.IH"(4) "2.prems" by auto
    next
      case False
      with 3 "2.prems"(1) have "normal r (rev as)" using normal_butlast by simp
      then show ?thesis using 3 False "2.IH"(5) "2.prems" by auto
    qed
  next
    case 4
    then show ?thesis using "2.IH"(6) "2.prems" normal_snoc_plain by auto
  qed
qed simp

lemma clean_comps_normal: "normal (rooted p) (clean_comps p)"
  unfolding clean_comps_def by (rule norm_comps_normal) (auto dest: split_on_no_sep)

lemma norm_comps_plain: "list_all plain cs \<Longrightarrow> norm_comps r acc cs = rev acc @ cs"
  by (induction cs arbitrary: acc) (auto simp: plain_def)

lemma norm_comps_dots:
  "\<not> r \<Longrightarrow> acc = replicate m ''..'' \<Longrightarrow>
   norm_comps r acc (replicate n ''..'' @ cs) = norm_comps r (replicate (m + n) ''..'') cs"
proof (induction n arbitrary: m acc)
  case (Suc n)
  then show ?case using Suc.IH[of "''..'' # acc" "Suc m"] by (cases m) auto
qed simp

lemma norm_comps_id: "normal r cs \<Longrightarrow> norm_comps r [] cs = cs"
proof -
  assume "normal r cs"
  then obtain n ns where h: "cs = replicate n ''..'' @ ns" "list_all plain ns" "r \<longrightarrow> n = 0"
    unfolding normal_def by blast
  show ?thesis
  proof (cases r)
    case True
    with h show ?thesis by (simp add: norm_comps_plain)
  next
    case False
    with h(1) norm_comps_dots[of r "[]" 0 n ns] have "norm_comps r [] cs = norm_comps r (replicate n ''..'') ns"
      by simp
    with h show ?thesis by (simp add: norm_comps_plain)
  qed
qed

lemma norm_comps_append: "norm_comps r acc (cs @ ds) = norm_comps r (rev (norm_comps r acc cs)) ds"
  by (cases r; induction cs arbitrary: acc) (simp_all split: list.split)

lemma normal_no_slash: "normal r cs \<Longrightarrow> c \<in> set cs \<Longrightarrow> slash \<notin> set c \<and> c \<noteq> [] \<and> c \<noteq> ''.''"
proof -
  assume "normal r cs" and c: "c \<in> set cs"
  then obtain n ns where h: "cs = replicate n ''..'' @ ns" "list_all plain ns"
    unfolding normal_def by blast
  with c have "c = ''..'' \<or> plain c" by (auto simp: list_all_iff split: if_splits)
  then show ?thesis by (auto simp: plain_def)
qed

section \<open>Cleaning and joining\<close>

lemma split_slash_rooted: "split_on slash (''/'' @ s) = [] # split_on slash s"
  by simp

lemma norm_comps_skip_empty [simp]: "norm_comps r acc ([] # cs) = norm_comps r acc cs"
  by simp

lemma norm_comps_join:
  assumes "normal r cs"
  shows "norm_comps r [] (split_on slash (join ''/'' cs)) = cs"
proof (cases "cs = []")
  case False
  have "split_on slash (join ''/'' cs) = cs"
    using False assms by (intro split_on_join) (auto dest: normal_no_slash)
  with assms show ?thesis by (simp add: norm_comps_id)
qed simp

lemma rooted_slash [simp]: "rooted (CHR ''/'' # s)"
  by (simp add: rooted_def has_prefix_def)

lemma rooted_iff: "rooted p \<longleftrightarrow> (\<exists>s. p = CHR ''/'' # s)"
  by (cases p) (auto simp: rooted_def has_prefix_def)

lemma rooted_append: "p \<noteq> [] \<Longrightarrow> rooted (p @ q) = rooted p"
  by (cases p) (auto simp: rooted_iff)

lemma not_rooted_join: "normal r cs \<Longrightarrow> \<not> rooted (join ''/'' cs)"
proof (cases cs)
  case (Cons c ds)
  assume n: "normal r cs"
  with Cons have "slash \<notin> set c \<and> c \<noteq> []" using normal_no_slash by simp
  then show ?thesis using Cons by (cases ds; cases c) (auto simp: rooted_iff)
qed (simp add: rooted_iff)

lemma rooted_clean [simp]: "rooted (clean p) = rooted p"
  using clean_comps_normal[of p] not_rooted_join[of "rooted p" "clean_comps p"]
  by (auto simp: clean_def Let_def rooted_iff)

lemma clean_comps_clean [simp]: "clean_comps (clean p) = clean_comps p"
proof (cases "rooted p")
  case True
  have "clean_comps (clean p) = norm_comps True [] (split_on slash (join ''/'' (clean_comps p)))"
    using True
    by (simp add: clean_def Let_def clean_comps_def[of "slash # join [slash] (clean_comps p)"])
  then show ?thesis using clean_comps_normal[of p] True by (simp add: norm_comps_join)
next
  case False
  show ?thesis
  proof (cases "clean_comps p = []")
    case True
    with False show ?thesis by (simp add: clean_def clean_comps_def[of "''.''"] rooted_iff)
  next
    case ne: False
    have "clean_comps (clean p) = norm_comps False [] (split_on slash (join ''/'' (clean_comps p)))"
      using False ne rooted_clean[of p]
      by (simp add: clean_def Let_def clean_comps_def[of "join [slash] (clean_comps p)"])
    then show ?thesis using clean_comps_normal[of p] False by (simp add: norm_comps_join)
  qed
qed

lemma clean_idem [simp]: "clean (clean p) = clean p"
  by (simp only: clean_def[of "clean p"] clean_comps_clean rooted_clean) (simp only: clean_def)

lemma clean_eq_iff: "clean p = clean q \<longleftrightarrow> rooted p = rooted q \<and> clean_comps p = clean_comps q"
proof
  assume eq: "clean p = clean q"
  have "rooted (clean p) = rooted (clean q)" "clean_comps (clean p) = clean_comps (clean q)"
    by (simp_all only: eq)
  then show "rooted p = rooted q \<and> clean_comps p = clean_comps q" by simp
qed (simp add: clean_def)

lemma clean_comps_append:
  "p \<noteq> [] \<Longrightarrow> clean_comps (p @ slash # q) = norm_comps (rooted p) (rev (clean_comps p)) (split_on slash q)"
  by (simp add: clean_comps_def split_on_append_general rooted_append norm_comps_append)

lemma path_join_two: "p \<noteq> [] \<Longrightarrow> path_join [p, q] = clean (p @ slash # q)"
  by (simp add: path_join_def)

lemma clean_comps_path_join_two:
  "p \<noteq> [] \<Longrightarrow> clean_comps (path_join [p, q]) = norm_comps (rooted p) (rev (clean_comps p)) (split_on slash q)"
  by (simp add: path_join_two clean_comps_append)

lemma rooted_path_join_two: "p \<noteq> [] \<Longrightarrow> rooted (path_join [p, q]) = rooted p"
  by (simp add: path_join_two rooted_append)

lemma clean_not_Nil [simp]: "clean p \<noteq> []"
  using clean_comps_normal[of p] normal_no_slash[of "rooted p" "clean_comps p"]
  by (cases "clean_comps p") (auto simp: clean_def Let_def join_eq_Nil_iff)

section \<open>Relative paths\<close>

lemma strip_common_spec: "strip_common bs ts = (bs', ts') \<Longrightarrow> \<exists>c. bs = c @ bs' \<and> ts = c @ ts'"
proof (induction bs ts rule: strip_common.induct)
  case (1 b bs t ts)
  then show ?case by (auto split: if_splits)
qed auto

lemma strip_common_prefix: "strip_common bs (bs @ ts) = ([], ts)"
  by (induction bs) auto

lemma join_dots_escapes:
  "bs \<noteq> [] \<Longrightarrow>
   join ''/'' (map (\<lambda>_. ''..'') bs @ ts) = ''..'' \<or> has_prefix (join ''/'' (map (\<lambda>_. ''..'') bs @ ts)) ''../''"
  by (cases bs; cases "map (\<lambda>_. ''..'') (tl bs) @ ts") (auto simp: has_prefix_def join_Cons)

lemma path_rel_inside:
  assumes "path_rel base targ = Some r" and "r \<noteq> ''..''" and "\<not> has_prefix r ''../''"
  shows "rooted base = rooted targ \<and> prefix (clean_comps base) (clean_comps targ)"
proof (cases "clean base = clean targ")
  case True
  then show ?thesis by (simp add: clean_eq_iff)
next
  case False
  obtain bs ts where st: "strip_common (clean_comps base) (clean_comps targ) = (bs, ts)"
    by fastforce
  with assms(1) False have "rooted base = rooted targ"
    and r: "r = join ''/'' (map (\<lambda>_. ''..'') bs @ ts)"
    by (auto simp: path_rel_def split: if_splits)
  moreover have "bs = []"
    using join_dots_escapes[of bs ts] assms(2,3) r by blast
  ultimately show ?thesis
    using strip_common_spec[OF st] by auto
qed

lemma path_rel_of_inside:
  assumes "rooted base = rooted targ" and "clean_comps targ = clean_comps base @ ts"
  shows "path_rel base targ = Some (if ts = [] then ''.'' else join ''/'' ts)"
  using assms by (auto simp: path_rel_def clean_eq_iff strip_common_prefix)

lemma join_plain_not_dots:
  assumes "list_all plain ts" and "ts \<noteq> []"
  shows "join ''/'' ts \<noteq> ''..'' \<and> \<not> has_prefix (join ''/'' ts) ''../''"
proof -
  obtain c cs where ts: "ts = c # cs" using assms(2) by (cases ts) auto
  have split: "split_on slash (join ''/'' ts) = ts"
    using assms by (intro split_on_join) (auto simp: list_all_iff plain_def)
  have c: "c \<noteq> ''..''" using assms(1) ts by (simp add: plain_def)
  have "join ''/'' ts \<noteq> ''..''"
    using split ts c by auto
  moreover have "\<not> has_prefix (join ''/'' ts) ''../''"
  proof
    assume "has_prefix (join ''/'' ts) ''../''"
    then obtain u where "join ''/'' ts = ''../'' @ u" by (auto simp: has_prefix_iff prefix_def)
    then have "split_on slash (join ''/'' ts) = ''..'' # split_on slash u"
      using split_on_append_sep[of slash "''..''" u] by simp
    with split ts c show False by simp
  qed
  ultimately show ?thesis by blast
qed

section \<open>Evaluation of closed instances\<close>

lemmas [model_defs] =
  is_space_def code_def is_digit_def is_lower_letter_def is_upper_letter_def lower_char_def
  trim_left_def trim_right_by_def trim_by_def trim_space_def to_lower_def equal_fold_def
  has_prefix_def has_suffix_def trim_prefix_def trim_suffix_def contains_def cut_def fields_def
  upper_char_def to_upper_def nat_dec.simps itoa_def digits_value_def max_int_def min_int_def atoi_def scan_int_def
  rooted_def clean_comps_def clean_def path_join_def path_rel_def path_dir_def path_ext_def

end
