(* ===== verification/Host.thy ===== *)
theory Host
  imports Go_Path "HOL-Library.AList" "HOL-Library.Char_ord" "HOL-Library.List_Lexorder"
begin

text \<open>
  The machine the agent runs on, as far as the agent touches it through \<open>os\<close>, \<open>os/exec\<close> and
  \<open>time\<close>: a tree of files without symbolic links, the environment, the clock, and the processes
  that were started. Every file operation takes one entry of a fault script: the operation goes
  through, is refused, or (a write) stops after some bytes. What a started process does is a
  parameter \<open>sys\<close>; that it was started is recorded in \<open>ran\<close>.
\<close>

section \<open>Errors\<close>

text \<open>
  Error values. \<open>NotExist\<close> is what \<open>os.IsNotExist\<close> recognises, \<open>Wrapf\<close> is \<open>fmt.Errorf\<close> with
  \<open>%w\<close> between a text before and a text after it, \<open>Sentinel\<close> a package level \<open>errors.New\<close>,
  \<open>CloseError\<close> the close frame of a websocket, and the last three are the markers of the agent's
  \<open>errors.go\<close>.
\<close>

datatype go_error =
    NotExist string
  | IOError string
  | ExitError string
  | Msg string
  | Sentinel string
  | CloseError int string
  | Wrapf string go_error string
  | NonRetriableError go_error
  | PendingAuthError go_error
  | DuplicateConnectionError go_error

fun error_text :: "go_error \<Rightarrow> string" where
  "error_text (NotExist p) = p @ '': no such file or directory''"
| "error_text (IOError s) = s"
| "error_text (ExitError s) = s"
| "error_text (Msg s) = s"
| "error_text (Sentinel s) = s"
| "error_text (CloseError n s) = ''websocket: close '' @ itoa n @ '': '' @ s"
| "error_text (Wrapf pre e post) = pre @ error_text e @ post"
| "error_text (NonRetriableError e) = error_text e"
| "error_text (PendingAuthError e) = error_text e"
| "error_text (DuplicateConnectionError e) = error_text e"

fun unwrap :: "go_error \<Rightarrow> go_error option" where
  "unwrap (Wrapf pre e post) = Some e"
| "unwrap (NonRetriableError e) = Some e"
| "unwrap (PendingAuthError e) = Some e"
| "unwrap (DuplicateConnectionError e) = Some e"
| "unwrap e = None"

text \<open>\<open>errors.As\<close> and \<open>errors.Is\<close> walk the chain of wrapped errors.\<close>

fun errors_as :: "(go_error \<Rightarrow> bool) \<Rightarrow> go_error \<Rightarrow> bool" where
  "errors_as p (Wrapf pre e post) = (p (Wrapf pre e post) \<or> errors_as p e)"
| "errors_as p (NonRetriableError e) = (p (NonRetriableError e) \<or> errors_as p e)"
| "errors_as p (PendingAuthError e) = (p (PendingAuthError e) \<or> errors_as p e)"
| "errors_as p (DuplicateConnectionError e) = (p (DuplicateConnectionError e) \<or> errors_as p e)"
| "errors_as p e = p e"

fun is_not_exist :: "go_error \<Rightarrow> bool" where
  "is_not_exist (NotExist p) = True"
| "is_not_exist e = False"

section \<open>The state\<close>

datatype node = File string | Dir

datatype fault = Fine | Refused | Torn nat

type_synonym cmd = "path \<times> string list"

record host =
  tree :: "(key \<times> node) list"
  environ :: "(string \<times> string) list"
  cwd :: key
  clock :: int
  faults :: "fault list"
  ran :: "cmd list"

record proc_result =
  p_out :: string
  p_all :: string
  p_err :: "go_error option"

type_synonym sys = "cmd \<Rightarrow> host \<Rightarrow> proc_result \<times> host"

definition node_at :: "host \<Rightarrow> key \<Rightarrow> node option" where
  "node_at h k = map_of (tree h) k"

definition put_node :: "key \<Rightarrow> node \<Rightarrow> host \<Rightarrow> host" where
  "put_node k v h = h\<lparr>tree := AList.update k v (tree h)\<rparr>"

definition drop_node :: "key \<Rightarrow> host \<Rightarrow> host" where
  "drop_node k h = h\<lparr>tree := filter (\<lambda>(q, _). q \<noteq> k) (tree h)\<rparr>"

definition drop_under :: "key \<Rightarrow> host \<Rightarrow> host" where
  "drop_under k h = h\<lparr>tree := filter (\<lambda>(q, _). \<not> prefix k q) (tree h)\<rparr>"

definition fault_of :: "host \<Rightarrow> fault" where
  "fault_of h = (case faults h of [] \<Rightarrow> Fine | f # _ \<Rightarrow> f)"

definition pop_fault :: "host \<Rightarrow> host" where
  "pop_fault h = h\<lparr>faults := tl (faults h)\<rparr>"

text \<open>Where a path leads: absolute, or from the working directory.\<close>

definition loc :: "host \<Rightarrow> path \<Rightarrow> key" where
  "loc h p = norm_comps True [] ((if rooted p then [] else cwd h) @ split_on slash p)"

definition dir_at :: "host \<Rightarrow> key \<Rightarrow> bool" where
  "dir_at h k \<longleftrightarrow> k = [] \<or> node_at h k = Some Dir"

section \<open>File operations\<close>

definition read_file :: "path \<Rightarrow> host \<Rightarrow> (go_error, string) result \<times> host" where
  "read_file p h =
     (let h1 = pop_fault h in
      if fault_of h \<noteq> Fine then (Inl (IOError p), h1)
      else (case node_at h (loc h p) of
              None \<Rightarrow> (Inl (NotExist p), h1)
            | Some Dir \<Rightarrow> (Inl (IOError p), h1)
            | Some (File s) \<Rightarrow> (Inr s, h1)))"

text \<open>\<open>write_with\<close> opens for writing, keeps what \<open>keep\<close> says of the old content, and writes \<open>s\<close>.\<close>

definition write_with :: "(string \<Rightarrow> string) \<Rightarrow> path \<Rightarrow> string \<Rightarrow> host \<Rightarrow> go_error option \<times> host" where
  "write_with keep p s h =
     (let h1 = pop_fault h; k = loc h p;
          old = (case node_at h k of Some (File t) \<Rightarrow> keep t | _ \<Rightarrow> [])
      in if fault_of h = Refused \<or> dir_at h k then (Some (IOError p), h1)
         else if \<not> dir_at h (butlast k) then (Some (NotExist p), h1)
         else (case fault_of h of
                 Torn n \<Rightarrow> (Some (IOError p), put_node k (File (old @ take n s)) h1)
               | _ \<Rightarrow> (None, put_node k (File (old @ s)) h1)))"

definition write_file :: "path \<Rightarrow> string \<Rightarrow> host \<Rightarrow> go_error option \<times> host" where
  "write_file = write_with (\<lambda>_. [])"

definition append_file :: "path \<Rightarrow> string \<Rightarrow> host \<Rightarrow> go_error option \<times> host" where
  "append_file = write_with (\<lambda>t. t)"

definition file_in_way :: "host \<Rightarrow> key \<Rightarrow> bool" where
  "file_in_way h k \<longleftrightarrow> list_ex (\<lambda>q. q \<noteq> [] \<and> node_at h q \<noteq> None \<and> node_at h q \<noteq> Some Dir) (prefixes k)"

definition make_dirs :: "key \<Rightarrow> host \<Rightarrow> host" where
  "make_dirs k h = foldl (\<lambda>h q. if dir_at h q then h else put_node q Dir h) h (prefixes k)"

definition mkdir_all :: "path \<Rightarrow> host \<Rightarrow> go_error option \<times> host" where
  "mkdir_all p h =
     (let h1 = pop_fault h; k = loc h p in
      if fault_of h \<noteq> Fine \<or> file_in_way h k then (Some (IOError p), h1)
      else (None, make_dirs k h1))"

definition rename :: "path \<Rightarrow> path \<Rightarrow> host \<Rightarrow> go_error option \<times> host" where
  "rename a b h =
     (let h1 = pop_fault h; k = loc h a; l = loc h b in
      if fault_of h \<noteq> Fine then (Some (IOError a), h1)
      else (case node_at h k of
              None \<Rightarrow> (Some (NotExist a), h1)
            | Some Dir \<Rightarrow> (Some (IOError a), h1)
            | Some (File s) \<Rightarrow>
                (if dir_at h l \<or> \<not> dir_at h (butlast l) then (Some (IOError b), h1)
                 else (None, put_node l (File s) (if k = l then h1 else drop_node k h1)))))"

definition remove_file :: "path \<Rightarrow> host \<Rightarrow> go_error option \<times> host" where
  "remove_file p h =
     (let h1 = pop_fault h; k = loc h p in
      if fault_of h \<noteq> Fine then (Some (IOError p), h1)
      else (case node_at h k of
              None \<Rightarrow> (Some (NotExist p), h1)
            | Some Dir \<Rightarrow> (Some (IOError p), h1)
            | Some (File s) \<Rightarrow> (None, drop_node k h1)))"

definition remove_all :: "path \<Rightarrow> host \<Rightarrow> go_error option \<times> host" where
  "remove_all p h =
     (let h1 = pop_fault h in
      if fault_of h \<noteq> Fine then (Some (IOError p), h1) else (None, drop_under (loc h p) h1))"

definition stat :: "path \<Rightarrow> host \<Rightarrow> (go_error, node) result \<times> host" where
  "stat p h =
     (let h1 = pop_fault h in
      if fault_of h \<noteq> Fine then (Inl (IOError p), h1)
      else if loc h p = [] then (Inr Dir, h1)
      else (case node_at h (loc h p) of None \<Rightarrow> (Inl (NotExist p), h1) | Some n \<Rightarrow> (Inr n, h1)))"

text \<open>The entries of a directory, by name; whether each is a directory.\<close>

definition entries :: "host \<Rightarrow> key \<Rightarrow> (string \<times> node) list" where
  "entries h k =
     (let names = remdups (map (\<lambda>(q, _). last q) (filter (\<lambda>(q, _). q \<noteq> [] \<and> butlast q = k) (tree h)))
      in map (\<lambda>n. (n, the (node_at h (k @ [n])))) (sort names))"

definition read_dir :: "path \<Rightarrow> host \<Rightarrow> (go_error, (string \<times> node) list) result \<times> host" where
  "read_dir p h =
     (let h1 = pop_fault h; k = loc h p in
      if fault_of h \<noteq> Fine then (Inl (IOError p), h1)
      else if dir_at h k then (Inr (entries h k), h1)
      else if node_at h k = None then (Inl (NotExist p), h1) else (Inl (IOError p), h1))"

section \<open>Environment, clock, processes\<close>

definition getenv :: "host \<Rightarrow> string \<Rightarrow> string" where
  "getenv h v = (case map_of (environ h) v of None \<Rightarrow> [] | Some s \<Rightarrow> s)"

definition setenv :: "string \<Rightarrow> string \<Rightarrow> host \<Rightarrow> host" where
  "setenv v s h = h\<lparr>environ := AList.update v s (environ h)\<rparr>"

definition unix_milli :: "host \<Rightarrow> int" where
  "unix_milli h = clock h div 1000000"

definition pass_time :: "int \<Rightarrow> host \<Rightarrow> host" where
  "pass_time d h = h\<lparr>clock := clock h + d\<rparr>"

definition exec_in :: "sys \<Rightarrow> path \<Rightarrow> string list \<Rightarrow> host \<Rightarrow> proc_result \<times> host" where
  "exec_in sys dir argv h =
     (let (r, h1) = sys (dir, argv) h in (r, h1\<lparr>ran := ran h @ [(dir, argv)]\<rparr>))"

definition exec :: "sys \<Rightarrow> string list \<Rightarrow> host \<Rightarrow> proc_result \<times> host" where
  "exec sys = exec_in sys []"

text \<open>
  \<open>cmd.Start\<close> reports only that a process could not be started. The error of waiting for one that was is its exit
  status or that of copying its output.
\<close>

definition start_error :: "proc_result \<Rightarrow> go_error option" where
  "start_error r =
     (case p_err r of None \<Rightarrow> None | Some (ExitError _) \<Rightarrow> None | Some (IOError _) \<Rightarrow> None | Some e \<Rightarrow> Some e)"

definition look_path :: "host \<Rightarrow> string \<Rightarrow> path option" where
  "look_path h name =
     find (\<lambda>p. case node_at h (loc h p) of Some (File _) \<Rightarrow> True | _ \<Rightarrow> False)
       (map (\<lambda>d. path_join [d, name]) (split_on CHR '':'' (getenv h ''PATH'')))"

section \<open>What the operations leave alone\<close>

lemma node_at_put [simp]: "node_at (put_node k v h) = (node_at h)(k \<mapsto> v)"
  by (simp add: node_at_def put_node_def update_conv' fun_eq_iff)

lemma node_at_drop_node [simp]: "node_at (drop_node k h) q = (if q = k then None else node_at h q)"
proof -
  have "map_of (filter (\<lambda>(q, _). q \<noteq> k) xs) q = (if q = k then None else map_of xs q)" for xs :: "(key \<times> node) list"
    by (induction xs) auto
  then show ?thesis by (simp add: node_at_def drop_node_def)
qed

lemma node_at_drop_under [simp]: "node_at (drop_under k h) q = (if prefix k q then None else node_at h q)"
proof -
  have "map_of (filter (\<lambda>(q, _). \<not> prefix k q) xs) q = (if prefix k q then None else map_of xs q)"
    for xs :: "(key \<times> node) list"
    by (induction xs) auto
  then show ?thesis by (simp add: node_at_def drop_under_def)
qed

lemma node_at_pop [simp]: "node_at (pop_fault h) = node_at h"
  by (simp add: node_at_def pop_fault_def fun_eq_iff)

lemma host_fields_put [simp, host_simps]:
  "cwd (put_node k v h) = cwd h" "faults (put_node k v h) = faults h"
  "clock (put_node k v h) = clock h" "ran (put_node k v h) = ran h" "environ (put_node k v h) = environ h"
  by (simp_all add: put_node_def)

lemma host_fields_drop [simp, host_simps]:
  "cwd (drop_node k h) = cwd h" "faults (drop_node k h) = faults h"
  "clock (drop_node k h) = clock h" "ran (drop_node k h) = ran h" "environ (drop_node k h) = environ h"
  "cwd (drop_under k h) = cwd h" "faults (drop_under k h) = faults h"
  "clock (drop_under k h) = clock h" "ran (drop_under k h) = ran h" "environ (drop_under k h) = environ h"
  by (simp_all add: drop_node_def drop_under_def)

lemma host_fields_pop [simp, host_simps]:
  "cwd (pop_fault h) = cwd h" "faults (pop_fault h) = tl (faults h)"
  "clock (pop_fault h) = clock h" "ran (pop_fault h) = ran h" "environ (pop_fault h) = environ h"
  by (simp_all add: pop_fault_def)

lemma dir_at_pop [simp]: "dir_at (pop_fault h) k = dir_at h k"
  by (simp add: dir_at_def)

lemma loc_cong: "cwd h' = cwd h \<Longrightarrow> loc h' p = loc h p"
  by (simp add: loc_def)

text \<open>A directory is made by adding directories on the way to it, nothing else.\<close>

lemma make_dirs_aux:
  assumes "\<And>q. q \<in> set qs \<Longrightarrow> P q"
  defines "f \<equiv> \<lambda>h q. if dir_at h q then h else put_node q Dir h"
  shows "cwd (foldl f h qs) = cwd h \<and> faults (foldl f h qs) = faults h \<and>
    clock (foldl f h qs) = clock h \<and> ran (foldl f h qs) = ran h \<and> environ (foldl f h qs) = environ h \<and>
    (\<forall>q. \<not> P q \<longrightarrow> node_at (foldl f h qs) q = node_at h q)"
  using assms(1)
proof (induction qs arbitrary: h)
  case (Cons a qs)
  then show ?case by (auto simp: f_def)
qed simp

lemma make_dirs_fields [simp, host_simps]:
  "cwd (make_dirs k h) = cwd h" "faults (make_dirs k h) = faults h"
  "clock (make_dirs k h) = clock h" "ran (make_dirs k h) = ran h" "environ (make_dirs k h) = environ h"
  unfolding make_dirs_def using make_dirs_aux[of "prefixes k" "\<lambda>_. True" h] by auto

lemma make_dirs_outside: "\<not> prefix q k \<Longrightarrow> node_at (make_dirs k h) q = node_at h q"
  unfolding make_dirs_def using make_dirs_aux[of "prefixes k" "\<lambda>q. prefix q k" h] by auto

lemma make_dirs_keeps_file:
  "node_at h q = Some (File s) \<Longrightarrow> \<not> file_in_way h k \<Longrightarrow> node_at (make_dirs k h) q = Some (File s)"
proof (cases "prefix q k \<and> q \<noteq> []")
  case True
  assume "node_at h q = Some (File s)" "\<not> file_in_way h k"
  with True show ?thesis by (auto simp: file_in_way_def list_ex_iff)
next
  case False
  assume f: "node_at h q = Some (File s)"
  show ?thesis
  proof (cases "q = []")
    case True
    have "node_at (foldl (\<lambda>h q. if dir_at h q then h else put_node q Dir h) h qs) [] = node_at h []" for qs
      by (induction qs arbitrary: h) (auto simp: dir_at_def)
    with True f show ?thesis by (simp add: make_dirs_def)
  next
    case False
    with \<open>\<not> (prefix q k \<and> q \<noteq> [])\<close> f show ?thesis by (simp add: make_dirs_outside)
  qed
qed

lemma foldl_dirs_dir: "dir_at h q \<Longrightarrow> dir_at (foldl (\<lambda>h q. if dir_at h q then h else put_node q Dir h) h qs) q"
  by (induction qs arbitrary: h) (auto simp: dir_at_def)

lemma make_dirs_dir:
  assumes "prefix q k"
  shows "dir_at (make_dirs k h) q"
proof -
  let ?f = "\<lambda>h q. if dir_at h q then h else put_node q Dir h"
  have "q \<in> set (prefixes k)" using assms by simp
  then obtain as bs where split: "prefixes k = as @ q # bs" by (meson split_list)
  have "dir_at (?f (foldl ?f h as) q) q" by (simp add: dir_at_def)
  then have "dir_at (foldl ?f (?f (foldl ?f h as) q) bs) q" by (rule foldl_dirs_dir)
  then show ?thesis by (simp only: make_dirs_def split foldl_append foldl_Cons)
qed

section \<open>Inversion of successful operations\<close>

lemma read_file_host [simp]: "snd (read_file p h) = pop_fault h"
  by (auto simp: read_file_def Let_def split: option.splits node.splits)

lemma stat_host [simp]: "snd (stat p h) = pop_fault h"
  by (auto simp: stat_def Let_def split: option.splits)

lemma read_dir_host [simp]: "snd (read_dir p h) = pop_fault h"
  by (auto simp: read_dir_def Let_def)

lemma read_file_Inr: "fst (read_file p h) = Inr s \<Longrightarrow> node_at h (loc h p) = Some (File s)"
  by (auto simp: read_file_def Let_def split: option.splits node.splits if_splits)

lemma read_file_calm: "faults h = [] \<Longrightarrow>
  fst (read_file p h) = (case node_at h (loc h p) of None \<Rightarrow> Inl (NotExist p) | Some Dir \<Rightarrow> Inl (IOError p) | Some (File s) \<Rightarrow> Inr s)"
  by (auto simp: read_file_def Let_def fault_of_def split: option.splits node.splits)

lemma write_with_fields [simp, host_simps]:
  "cwd (snd (write_with f p s h)) = cwd h" "clock (snd (write_with f p s h)) = clock h"
  "ran (snd (write_with f p s h)) = ran h" "environ (snd (write_with f p s h)) = environ h"
  "faults (snd (write_with f p s h)) = tl (faults h)"
  by (auto simp: write_with_def Let_def split: fault.splits)

lemma write_with_outside: "q \<noteq> loc h p \<Longrightarrow> node_at (snd (write_with f p s h)) q = node_at h q"
  by (auto simp: write_with_def Let_def split: fault.splits)

lemma write_with_ok:
  "write_with f p s h = (None, h') \<Longrightarrow>
   h' = put_node (loc h p) (File ((case node_at h (loc h p) of Some (File t) \<Rightarrow> f t | _ \<Rightarrow> []) @ s)) (pop_fault h)
   \<and> \<not> dir_at h (loc h p)"
  by (auto simp: write_with_def Let_def split: fault.splits if_splits)

lemma write_with_refused:
  "write_with f p s h = (Some e, h') \<Longrightarrow> (\<And>n. fault_of h \<noteq> Torn n) \<Longrightarrow> h' = pop_fault h"
  by (auto simp: write_with_def Let_def split: fault.splits if_splits)

lemma mkdir_all_fields [simp, host_simps]:
  "cwd (snd (mkdir_all p h)) = cwd h" "clock (snd (mkdir_all p h)) = clock h"
  "ran (snd (mkdir_all p h)) = ran h" "environ (snd (mkdir_all p h)) = environ h"
  "faults (snd (mkdir_all p h)) = tl (faults h)"
  by (auto simp: mkdir_all_def Let_def)

lemma mkdir_all_keeps_file:
  "node_at h q = Some (File s) \<Longrightarrow> node_at (snd (mkdir_all p h)) q = Some (File s)"
  by (auto simp: mkdir_all_def Let_def file_in_way_def intro!: make_dirs_keeps_file)

lemma foldl_dirs_no_new_file:
  "node_at (foldl (\<lambda>h q. if dir_at h q then h else put_node q Dir h) h qs) q = Some (File s) \<Longrightarrow>
   node_at h q = Some (File s)"
proof (induction qs arbitrary: h)
  case (Cons a qs)
  then have "node_at (if dir_at h a then h else put_node a Dir h) q = Some (File s)" by simp
  then show ?case by (simp split: if_splits)
qed simp

lemma mkdir_all_no_new_file:
  "node_at (snd (mkdir_all p h)) q = Some (File s) \<Longrightarrow> node_at h q = Some (File s)"
  unfolding mkdir_all_def Let_def make_dirs_def
  by (auto split: if_splits dest: foldl_dirs_no_new_file)

lemma mkdir_all_file_iff:
  "node_at (snd (mkdir_all p h)) q = Some (File s) \<longleftrightarrow> node_at h q = Some (File s)"
  using mkdir_all_keeps_file mkdir_all_no_new_file by blast

section \<open>Contents\<close>

lemma loc_fun_cong: "cwd h1 = cwd h \<Longrightarrow> loc h1 = loc h"
  by (rule ext) (rule loc_cong)

text \<open>What is in the file at a place.\<close>

definition file_at :: "host \<Rightarrow> key \<Rightarrow> string option" where
  "file_at h k = (case node_at h k of Some (File s) \<Rightarrow> Some s | _ \<Rightarrow> None)"

lemma file_at_eq_Some: "file_at h k = Some s \<longleftrightarrow> node_at h k = Some (File s)"
  by (auto simp: file_at_def split: option.splits node.splits)

lemma file_at_pop [simp]: "file_at (pop_fault h) = file_at h"
  by (simp add: file_at_def fun_eq_iff)

lemma file_at_put_File [simp]: "file_at (put_node k (File s) h) = (file_at h)(k \<mapsto> s)"
  by (simp add: file_at_def fun_eq_iff)

lemma file_at_drop_node [simp]: "file_at (drop_node k h) = (file_at h)(k := None)"
  by (simp add: file_at_def fun_eq_iff)

lemma option_ext: "\<forall>s. (a = Some s) = (b = Some s) \<Longrightarrow> a = b"
  by (cases a; cases b) auto

lemma file_at_mkdir_all [simp, host_simps]: "file_at (snd (mkdir_all p h)) = file_at h"
  by (rule ext, rule option_ext) (simp add: mkdir_all_file_iff file_at_eq_Some)

lemma mkdir_all_NoneD:
  "mkdir_all p h = (r, h1) \<Longrightarrow>
   file_at h1 = file_at h \<and> cwd h1 = cwd h \<and> clock h1 = clock h \<and> environ h1 = environ h \<and> ran h1 = ran h
   \<and> faults h1 = tl (faults h)"
  using mkdir_all_fields[of p h] file_at_mkdir_all[of p h] by simp

lemma write_with_NoneD:
  "write_with f p s h = (None, h1) \<Longrightarrow>
   file_at h1 = (file_at h)(loc h p \<mapsto> (case file_at h (loc h p) of Some t \<Rightarrow> f t | None \<Rightarrow> []) @ s)
   \<and> cwd h1 = cwd h \<and> clock h1 = clock h \<and> environ h1 = environ h \<and> ran h1 = ran h \<and> faults h1 = tl (faults h)"
  using write_with_ok[of f p s h h1]
  by (auto simp: file_at_def fun_eq_iff split: option.splits node.splits)

lemma write_with_frame:
  "write_with f p s h = (r, h1) \<Longrightarrow>
   (\<forall>q. q \<noteq> loc h p \<longrightarrow> file_at h1 q = file_at h q) \<and> cwd h1 = cwd h \<and> clock h1 = clock h \<and> environ h1 = environ h
   \<and> ran h1 = ran h"
  using write_with_outside[of _ h p f s] write_with_fields[of f p s h] by (auto simp: file_at_def)

lemma read_file_found: "faults h = [] \<Longrightarrow> file_at h (loc h p) = Some s \<Longrightarrow> read_file p h = (Inr s, pop_fault h)"
  by (rule prod_eqI) (simp_all add: read_file_calm file_at_eq_Some)

lemma rename_NoneD:
  "rename a b h = (None, h1) \<Longrightarrow> loc h a \<noteq> loc h b \<Longrightarrow>
   file_at h1 = (file_at h)(loc h a := None, loc h b := file_at h (loc h a)) \<and> file_at h (loc h a) \<noteq> None
   \<and> cwd h1 = cwd h \<and> clock h1 = clock h \<and> environ h1 = environ h \<and> ran h1 = ran h"
  by (auto simp: rename_def Let_def fun_eq_iff file_at_def split: option.splits node.splits if_splits)

section \<open>Evaluation of closed instances\<close>

lemmas [model_defs] =
  node_at_def put_node_def drop_node_def drop_under_def fault_of_def pop_fault_def loc_def dir_at_def
  read_file_def write_with_def write_file_def append_file_def file_in_way_def make_dirs_def
  mkdir_all_def rename_def remove_file_def remove_all_def stat_def entries_def read_dir_def
  getenv_def setenv_def unix_milli_def pass_time_def exec_in_def exec_def look_path_def

text \<open>A host with no files, no faults and no environment, for concrete instances.\<close>

definition bare_host :: host where
  "bare_host = \<lparr>tree = [], environ = [], cwd = [], clock = 0, faults = [], ran = []\<rparr>"

lemma bare_host_simps [simp]:
  "tree bare_host = []" "environ bare_host = []" "cwd bare_host = []" "clock bare_host = 0"
  "faults bare_host = []" "ran bare_host = []"
  by (simp_all add: bare_host_def)

end
