(* ===== verification/Protocol.thy ===== *)
theory Protocol
  imports Host
begin

text \<open>
  The shared protocol package (\<open>tug.sh/pkg/protocol\<close>) is not part of this repository. What the
  agent reads and writes of its message types is kept in the records below, and its constants and
  predicates are a parameter \<open>proto\<close> of every definition that uses them. The records hold the
  fields the agent's code mentions and no others.
\<close>

section \<open>Messages\<close>

record envelope =
  ev_class :: string
  ev_stream :: string
  ev_seq :: uint64
  ev_message_id :: string
  ev_sent :: int
  ev_server :: string
  ev_entity :: string
  ev_action :: string
  ev_payload :: string

record ack_frame =
  ak_stream :: string
  ak_upto :: uint64
  ak_accepted :: bool
  ak_reason :: string

record command_result =
  cr_id :: string
  cr_success :: bool
  cr_error :: string
  cr_logs :: "string list"
  cr_payload :: string

record command_progress =
  cp_id :: string
  cp_status :: string
  cp_error :: string
  cp_logs :: "string list"
  cp_payload :: string

record container =
  ct_id :: string
  ct_name :: string
  ct_status :: string
  ct_image :: string
  ct_ports :: string
  ct_app :: string
  ct_networks :: "string list"
  ct_project :: string
  ct_logs :: "string list"

record container_delta =
  dl_id :: string
  dl_name :: string
  dl_status :: string
  dl_image :: string
  dl_ports :: string
  dl_app :: string

text \<open>What a snapshot and a heartbeat report. A \<open>float64\<close> is carried as its bit pattern.\<close>

type_synonym float64 = "64 word"

record handshake =
  hk_host_name :: string
  hk_agent_version :: string
  hk_os :: string
  hk_arch :: string
  hk_cpu_cores :: int
  hk_ram_bytes :: uint64
  hk_ram_used :: uint64
  hk_disk_free :: uint64
  hk_disk_total :: uint64
  hk_local_ip :: string
  hk_public_ip :: string
  hk_docker_version :: string
  hk_networks :: "string list"
  hk_containers :: "container list"

text \<open>One container of a heartbeat. The processor share is kept as the text it is parsed from, and a size is
  \<open>None\<close> where its conversion is not defined by the language.\<close>

record container_metric =
  mt_id :: string
  mt_name :: string
  mt_status :: string
  mt_cpu_text :: string
  mt_ram_used :: "uint64 option"
  mt_ram_total :: "uint64 option"
  mt_net_rx :: "uint64 option"
  mt_net_tx :: "uint64 option"
  mt_block_read :: "uint64 option"
  mt_block_write :: "uint64 option"

record heartbeat =
  hb_agent_version :: string
  hb_sent_at :: int
  hb_cpu :: float64
  hb_ram_used :: uint64
  hb_ram_total :: uint64
  hb_disk_free :: uint64
  hb_disk_total :: uint64
  hb_metrics :: "container_metric list"
  hb_security :: string

text \<open>
  A command of the API. The fields that belong to one kind of command are
  grouped in records of their own.
\<close>

record terminal_args =
  tm_id :: string
  tm_target_name :: string
  tm_target_id :: string
  tm_rows :: int
  tm_cols :: int
  tm_payload :: string

record deploy_args =
  da_project :: string
  da_repo :: string
  da_branch :: string
  da_file_type :: string
  da_compose :: string

record security_args =
  sa_disable_root :: bool
  sa_disable_password :: bool
  sa_ssh_port :: int
  sa_fail2ban :: bool
  sa_fw_port :: string
  sa_fw_protocol :: string
  sa_fw_action :: string
  sa_fw_source :: string

record migration_args =
  ma_target_ip :: string
  ma_ssh_port :: int
  ma_ssh_user :: string
  ma_key :: string
  ma_move :: bool

record agent_args =
  aa_binary_url :: string
  aa_version :: string
  aa_clean_docker :: bool
  aa_import_source :: string
  aa_import_payload :: string

text \<open>A schedule: the fields the agent sets, and the rest as it arrived.\<close>

record schedule =
  sd_server :: string
  sd_source :: string
  sd_rest :: string

record command =
  cm_type :: string
  cm_id :: string
  cm_container :: string
  cm_domain :: string
  cm_action :: string
  cm_command :: string
  cm_file_path :: string
  cm_content :: string
  cm_target_port :: int
  cm_network :: string
  cm_new_name :: string
  cm_image :: string
  cm_tail :: int
  cm_remove_volumes :: bool
  cm_remove_image :: bool
  cm_deploy :: deploy_args
  cm_terminal :: terminal_args
  cm_security :: security_args
  cm_migration :: migration_args
  cm_agent :: agent_args
  cm_schedules :: "schedule list"

text \<open>What an envelope can carry, as far as the agent builds it.\<close>

datatype message =
    SnapshotMsg handshake
  | HeartbeatMsg heartbeat
  | ResultMsg command_result
  | ProgressMsg command_progress
  | DeltaMsg container_delta
  | TerminalMsg string string bool
  | UpdateProgressMsg string uint64 uint64 int
  | CronMsg "schedule list"

section \<open>The package's constants and functions\<close>

record proto =
  class_fact :: string
  class_signal :: string
  ent_runtime :: string
  ent_command :: string
  ent_container :: string
  ent_terminal :: string
  ent_cron :: string
  act_snapshot :: string
  act_heartbeat :: string
  act_result :: string
  act_progress :: string
  act_status_changed :: string
  act_output :: string
  st_received :: string
  st_running :: string
  st_succeeded :: string
  st_failed :: string
  type_auth_error :: string
  type_keepalive :: string
  close_duplicate :: string
  close_replaced :: string
  streaming :: "string \<Rightarrow> bool"
  new_envelope :: "string \<Rightarrow> string \<Rightarrow> envelope"
  marshal :: "message \<Rightarrow> string option"

text \<open>
  \<open>AsSignal\<close> and \<open>WithPayload\<close> of an envelope: the class of a signal, and the payload encoded
  (\<open>None\<close> is the encoder's error).
\<close>

definition as_signal :: "proto \<Rightarrow> envelope \<Rightarrow> envelope" where
  "as_signal pr e = e\<lparr>ev_class := class_signal pr\<rparr>"

definition with_payload :: "proto \<Rightarrow> message \<Rightarrow> envelope \<Rightarrow> (go_error, envelope) result" where
  "with_payload pr msg e =
     (case marshal pr msg of
        None \<Rightarrow> Inl (Msg ''json: unsupported value'')
      | Some raw \<Rightarrow> Inr (e\<lparr>ev_payload := raw\<rparr>))"

end
