(* ===== verification/Sandbox.thy ===== *)
theory Sandbox
  imports Host
begin

text \<open>
  \<open>internal/sandbox\<close>: the agent's data directory, the resolution of a path the dashboard supplies
  onto the sandbox root, and the file operations confined to it. The root is a package variable
  computed once when the process starts, so it is an argument of the operations.
\<close>

section \<open>The data directory (paths.go)\<close>

definition user_home_dir :: "host \<Rightarrow> path option" where
  "user_home_dir h = (if getenv h ''HOME'' = [] then None else Some (getenv h ''HOME''))"

definition data_dir :: "host \<Rightarrow> path" where
  "data_dir h =
     (if getenv h ''TUG_DATA_DIR'' \<noteq> [] then getenv h ''TUG_DATA_DIR''
      else (case (if getenv h ''ENV'' = ''development'' then user_home_dir h else None) of
              Some home \<Rightarrow> path_join [home, ''.tug'']
            | None \<Rightarrow> ''/var/lib/tug''))"

definition sandbox_root :: "host \<Rightarrow> path" where
  "sandbox_root h = path_join [data_dir h, ''apps'']"

section \<open>Resolution (paths.go)\<close>

definition resolve_path :: "path \<Rightarrow> path \<Rightarrow> (go_error, path) result" where
  "resolve_path root relative =
     (let clean_input = clean relative;
          input = (if clean_input = ''/'' \<or> clean_input = ''.'' then ''.''
                   else if has_prefix clean_input ''/'' then trim_prefix clean_input ''/''
                   else clean_input);
          target = path_join [root, input]
      in case path_rel root target of
           None \<Rightarrow> Inl (Wrapf ''sandbox resolution failed: ''
                          (Msg (''Rel: can't make '' @ target @ '' relative to '' @ root)) [])
         | Some rel \<Rightarrow>
             if rel = ''..'' \<or> has_prefix rel ''../'' then Inl (Msg ''sandbox violation detected'')
             else Inr target)"

section \<open>File operations (file\_manager.go)\<close>

definition fm_list :: "path \<Rightarrow> path \<Rightarrow> host \<Rightarrow> (go_error, (string \<times> node) list) result \<times> host" where
  "fm_list root p h = (case resolve_path root p of Inl e \<Rightarrow> (Inl e, h) | Inr t \<Rightarrow> read_dir t h)"

definition fm_read :: "path \<Rightarrow> path \<Rightarrow> host \<Rightarrow> (go_error, string) result \<times> host" where
  "fm_read root p h = (case resolve_path root p of Inl e \<Rightarrow> (Inl e, h) | Inr t \<Rightarrow> read_file t h)"

definition fm_write :: "path \<Rightarrow> path \<Rightarrow> string \<Rightarrow> host \<Rightarrow> go_error option \<times> host" where
  "fm_write root p data h =
     (case resolve_path root p of
        Inl e \<Rightarrow> (Some e, h)
      | Inr t \<Rightarrow>
          (case mkdir_all (path_dir t) h of
             (Some e, h1) \<Rightarrow> (Some (Wrapf ''cannot create parent directory: '' e []), h1)
           | (None, h1) \<Rightarrow>
               (case write_file t data h1 of
                  (Some e, h2) \<Rightarrow> (Some (Wrapf ''cannot write sandbox file: '' e []), h2)
                | (None, h2) \<Rightarrow> (None, h2))))"

definition fm_delete :: "path \<Rightarrow> path \<Rightarrow> host \<Rightarrow> go_error option \<times> host" where
  "fm_delete root p h = (case resolve_path root p of Inl e \<Rightarrow> (Some e, h) | Inr t \<Rightarrow> remove_all t h)"

section \<open>Confinement\<close>

text \<open>
  The contract of a path resolver: what it accepts lies under its root. Whatever a client does at
  a resolved path stays there.
\<close>

locale confined_resolver =
  fixes resolve :: "path \<Rightarrow> path \<Rightarrow> (go_error, path) result"
  assumes resolve_inside:
    "rooted root \<Longrightarrow> resolve root p = Inr t \<Longrightarrow> rooted t \<and> prefix (clean_comps root) (clean_comps t)"
begin

lemma place_inside: "rooted root \<Longrightarrow> resolve root p = Inr t \<Longrightarrow> prefix (clean_comps root) (loc h t)"
  using resolve_inside[of root p t] by (auto simp: loc_def clean_comps_def[of t])

lemma remove_confined:
  assumes "rooted root" and "resolve root p = Inr t" and "\<not> prefix (clean_comps root) q"
  shows "node_at (snd (remove_all t h)) q = node_at h q"
proof -
  have "\<not> prefix (loc h t) q"
    using place_inside[OF assms(1,2)] assms(3) prefix_order.trans by blast
  then show ?thesis by (simp add: remove_all_def Let_def)
qed

lemma write_confined:
  assumes "rooted root" and "resolve root p = Inr t" and "\<not> prefix (clean_comps root) q"
  shows "node_at (snd (write_with f t s h)) q = node_at h q"
  using place_inside[OF assms(1,2)] assms(3) by (intro write_with_outside) auto

lemma read_confined:
  assumes "rooted root" and "resolve root p = Inr t" and "fst (read_file t h) = Inr s"
  shows "\<exists>q. prefix (clean_comps root) q \<and> node_at h q = Some (File s)"
  using place_inside[OF assms(1,2)] read_file_Inr[OF assms(3)] by blast

end

lemma split_dot: "split_on slash ''.'' = [''.'']"
  by simp

lemma resolve_input_comps:
  "split_on slash (if clean p = ''/'' \<or> clean p = ''.'' then ''.''
      else if has_prefix (clean p) ''/'' then trim_prefix (clean p) ''/'' else clean p) =
   (if clean_comps p = [] then [''.''] else clean_comps p)"
proof -
  let ?cs = "clean_comps p"
  have ns: "\<And>c. c \<in> set ?cs \<Longrightarrow> slash \<notin> set c"
    using clean_comps_normal[of p] normal_no_slash by blast
  have sp: "?cs \<noteq> [] \<Longrightarrow> split_on slash (join ''/'' ?cs) = ?cs"
    using ns by (intro split_on_join) auto
  show ?thesis
  proof (cases "?cs = []")
    case True
    then show ?thesis by (auto simp: clean_def)
  next
    case False
    have dot: "''.'' \<notin> set ?cs" "[] \<notin> set ?cs"
      using clean_comps_normal[of p] normal_no_slash by blast+
    have "join ''/'' ?cs \<noteq> ''.''"
      using sp[OF False] dot by (metis dot(1) list.set_intros(1) split_dot)
    then have nj: "join ''/'' ?cs \<noteq> []" "join ''/'' ?cs \<noteq> ''.''"
      using False dot by (auto simp: join_eq_Nil_iff)
    show ?thesis
    proof (cases "rooted p")
      case True
      with False nj sp show ?thesis
        by (simp add: clean_def Let_def trim_prefix_def has_prefix_def)
    next
      case nr: False
      have "\<not> rooted (join ''/'' ?cs)" using not_rooted_join[OF clean_comps_normal] .
      with False nr nj sp show ?thesis
        by (auto simp: clean_def Let_def trim_prefix_def rooted_def has_prefix_def)
    qed
  qed
qed

text \<open>
  What a dashboard path means: its components walked from the root, a parent step included. The
  resolver accepts exactly the paths that end up under the root.
\<close>

definition resolve_target :: "path \<Rightarrow> path \<Rightarrow> key" where
  "resolve_target root p = norm_comps (rooted root) (rev (clean_comps root)) (clean_comps p)"

lemma resolve_join:
  fixes root p
  assumes "root \<noteq> []"
  defines "t \<equiv> path_join [root, (if clean p = ''/'' \<or> clean p = ''.'' then ''.''
      else if has_prefix (clean p) ''/'' then trim_prefix (clean p) ''/'' else clean p)]"
  shows "rooted t = rooted root" "clean_comps t = resolve_target root p"
proof -
  define inp where "inp = (if clean p = ''/'' \<or> clean p = ''.'' then ''.''
      else if has_prefix (clean p) ''/'' then trim_prefix (clean p) ''/'' else clean p)"
  have inp: "split_on slash inp = (if clean_comps p = [] then [''.''] else clean_comps p)"
    unfolding inp_def by (rule resolve_input_comps)
  have t: "t = path_join [root, inp]" by (simp only: t_def inp_def)
  show "rooted t = rooted root" by (simp only: t rooted_path_join_two[OF assms(1)])
  show "clean_comps t = resolve_target root p"
    by (simp only: t clean_comps_path_join_two[OF assms(1)] inp resolve_target_def) simp
qed

lemma resolve_target_normal: "normal (rooted root) (resolve_target root p)"
  unfolding resolve_target_def
  by (rule norm_comps_normal)
    (use clean_comps_normal[of root] clean_comps_normal[of p] normal_no_slash in auto)

lemma resolve_path_Inr:
  assumes "root \<noteq> []" and "resolve_path root p = Inr t"
  shows "rooted t = rooted root \<and> clean_comps t = resolve_target root p \<and> prefix (clean_comps root) (clean_comps t)"
proof -
  define u where "u = path_join [root, (if clean p = ''/'' \<or> clean p = ''.'' then ''.''
      else if has_prefix (clean p) ''/'' then trim_prefix (clean p) ''/'' else clean p)]"
  have u: "rooted u = rooted root" "clean_comps u = resolve_target root p"
    unfolding u_def by (rule resolve_join[OF assms(1)])+
  obtain r where "path_rel root u = Some r" "r \<noteq> ''..''" "\<not> has_prefix r ''../''" and t: "t = u"
    using assms(2) unfolding resolve_path_def Let_def u_def[symmetric]
    by (auto split: option.splits if_splits)
  then show ?thesis using path_rel_inside[of root u r] u t by simp
qed

lemma resolve_path_inside_ok:
  assumes "root \<noteq> []" and pre: "prefix (clean_comps root) (resolve_target root p)"
    and pl: "list_all plain (drop (length (clean_comps root)) (resolve_target root p))"
  shows "\<exists>t. resolve_path root p = Inr t"
proof -
  define u where "u = path_join [root, (if clean p = ''/'' \<or> clean p = ''.'' then ''.''
      else if has_prefix (clean p) ''/'' then trim_prefix (clean p) ''/'' else clean p)]"
  have u: "rooted u = rooted root" "clean_comps u = resolve_target root p"
    unfolding u_def by (rule resolve_join[OF assms(1)])+
  define ts where "ts = drop (length (clean_comps root)) (resolve_target root p)"
  have "clean_comps u = clean_comps root @ ts"
    using pre u(2) by (auto simp: ts_def prefix_def)
  with u(1) have rel: "path_rel root u = Some (if ts = [] then ''.'' else join ''/'' ts)"
    by (intro path_rel_of_inside) auto
  moreover have "ts \<noteq> [] \<Longrightarrow> join ''/'' ts \<noteq> ''..'' \<and> \<not> has_prefix (join ''/'' ts) ''../''"
    using join_plain_not_dots pl ts_def by blast
  ultimately have "resolve_path root p = Inr u"
    unfolding resolve_path_def Let_def u_def[symmetric] by (simp add: has_prefix_def)
  then show ?thesis by blast
qed

interpretation sandbox: confined_resolver resolve_path
proof
  fix root p t
  assume r: "rooted root" and ok: "resolve_path root p = Inr t"
  have "root \<noteq> []" using r by (auto simp: rooted_iff)
  from resolve_path_Inr[OF this ok] r
  show "rooted t \<and> prefix (clean_comps root) (clean_comps t)" by blast
qed

section \<open>What resolution accepts\<close>

lemma resolve_path_form:
  assumes "root \<noteq> []" and "resolve_path root p = Inr t"
  shows "clean t = t"
proof -
  have "\<And>q. path_join [root, q] = clean (path_join [root, q])"
    using assms(1) by (simp add: path_join_two)
  then show ?thesis
    using assms(2) unfolding resolve_path_def Let_def
    by (auto split: option.splits if_splits)
qed

lemma resolve_path_rooted_form:
  assumes "rooted root" and "resolve_path root p = Inr t"
  shows "t = ''/'' @ join ''/'' (resolve_target root p)"
proof -
  have ne: "root \<noteq> []" using assms(1) by (auto simp: rooted_iff)
  note i = resolve_path_Inr[OF ne assms(2)]
  have "t = clean t" using resolve_path_form[OF ne assms(2)] by simp
  also have "\<dots> = ''/'' @ join ''/'' (clean_comps t)"
    using i assms(1) by (simp add: clean_def Let_def)
  finally show ?thesis using i by simp
qed

lemma path_rel_rooted: "rooted a \<Longrightarrow> rooted b \<Longrightarrow> path_rel a b \<noteq> None"
proof
  assume a: "rooted a" "rooted b" and none: "path_rel a b = None"
  obtain bs ts where st: "strip_common (clean_comps a) (clean_comps b) = (bs, ts)" by fastforce
  then have "bs \<noteq> []" and hd: "hd bs = ''..''" using none a by (auto simp: path_rel_def split: if_splits)
  moreover obtain c where "clean_comps a = c @ bs" using strip_common_spec[OF st] by blast
  moreover have "list_all plain (clean_comps a)"
    using clean_comps_normal[of a] a by (simp add: normal_rooted_iff)
  ultimately show False by (cases bs) (auto simp: plain_def)
qed

lemma resolve_path_Inl:
  assumes "rooted root" and "resolve_path root p = Inl e"
  shows "e = Msg ''sandbox violation detected''"
proof -
  have ne: "root \<noteq> []" using assms(1) by (auto simp: rooted_iff)
  define u where "u = path_join [root, (if clean p = ''/'' \<or> clean p = ''.'' then ''.''
      else if has_prefix (clean p) ''/'' then trim_prefix (clean p) ''/'' else clean p)]"
  have "rooted u" unfolding u_def using resolve_join(1)[OF ne] assms(1) by blast
  then have "path_rel root u \<noteq> None" using path_rel_rooted assms(1) by blast
  then show ?thesis
    using assms(2) unfolding resolve_path_def Let_def u_def[symmetric]
    by (auto split: if_splits)
qed

text \<open>
  C17: On an absolute sandbox root the resolver is exactly its specification: it walks the
  components of the dashboard path from the root and returns that place when it is the root or
  below it; every other path is refused as a sandbox violation.
\<close>

theorem resolve_path_exact:
  assumes "rooted root"
  shows "resolve_path root p =
    (if prefix (clean_comps root) (resolve_target root p)
     then Inr (''/'' @ join ''/'' (resolve_target root p))
     else Inl (Msg ''sandbox violation detected''))"
proof -
  have ne: "root \<noteq> []" using assms by (auto simp: rooted_iff)
  have plain: "list_all plain (resolve_target root p)"
    using resolve_target_normal[of root p] assms by (simp add: normal_rooted_iff)
  then have "list_all plain (drop (length (clean_comps root)) (resolve_target root p))"
    by (auto simp: list_all_iff dest: in_set_dropD)
  then have "prefix (clean_comps root) (resolve_target root p) \<Longrightarrow> \<exists>t. resolve_path root p = Inr t"
    using resolve_path_inside_ok ne by blast
  moreover have "\<And>t. resolve_path root p = Inr t \<Longrightarrow> prefix (clean_comps root) (resolve_target root p)"
    using resolve_path_Inr ne by metis
  ultimately show ?thesis
    using resolve_path_rooted_form[OF assms] resolve_path_Inl[OF assms]
    by (cases "resolve_path root p") auto
qed

theorem resolve_path_exact_witness:
  "resolve_path ''/var/lib/tug/apps'' ''/../etc//x/..'' = Inr ''/var/lib/tug/apps/etc'' \<and>
   resolve_path ''/var/lib/tug/apps'' ''a/../../apps/b'' = Inr ''/var/lib/tug/apps/b'' \<and>
   resolve_path ''/var/lib/tug/apps'' ''../appsx'' = Inl (Msg ''sandbox violation detected'')"
proof -
  have "rooted ''/var/lib/tug/apps''" by simp
  note x = resolve_path_exact[OF this]
  show ?thesis
    by (simp only: x) (simp add: resolve_target_def clean_comps_def rooted_def has_prefix_def)
qed

section \<open>Where a resolved path leads\<close>

lemma rev_dropWhile_slash:
  assumes "slash \<notin> set d"
  shows "rev (dropWhile (\<lambda>c. c \<noteq> slash) (rev (s @ slash # d))) = s @ [slash]"
proof -
  have "dropWhile (\<lambda>c. c \<noteq> slash) (rev d @ slash # rev s) = slash # rev s"
    using assms by (subst dropWhile_append2) auto
  then show ?thesis by simp
qed

lemma clean_comps_path_dir:
  assumes "list_all plain cs"
  shows "rooted (path_dir (''/'' @ join ''/'' cs)) \<and> clean_comps (path_dir (''/'' @ join ''/'' cs)) = butlast cs"
proof (cases cs rule: rev_cases)
  case Nil
  then show ?thesis by (simp add: path_dir_def clean_comps_def clean_def)
next
  case (snoc ds d)
  then have pl: "list_all plain ds" and d: "slash \<notin> set d"
    using assms by (auto simp: plain_def)
  show ?thesis
  proof (cases "ds = []")
    case True
    then have "''/'' @ join ''/'' cs = [] @ slash # d" using snoc by simp
    then have "path_dir (''/'' @ join ''/'' cs) = clean ([] @ [slash])"
      using rev_dropWhile_slash[OF d, of "[]"] by (simp only: path_dir_def)
    then show ?thesis using True snoc by (simp add: clean_comps_def clean_def)
  next
    case False
    then have "''/'' @ join ''/'' cs = (''/'' @ join ''/'' ds) @ slash # d"
      using snoc by (simp add: join_append)
    then have "path_dir (''/'' @ join ''/'' cs) = clean ((''/'' @ join ''/'' ds) @ [slash])"
      using rev_dropWhile_slash[OF d] by (simp only: path_dir_def)
    moreover have "clean_comps ((''/'' @ join ''/'' ds) @ [slash]) = ds"
    proof -
      have "clean_comps ((''/'' @ join ''/'' ds) @ slash # []) =
        norm_comps True (rev (clean_comps (''/'' @ join ''/'' ds))) (split_on slash [])"
        using clean_comps_append[of "''/'' @ join ''/'' ds" "[]"] by simp
      moreover have "clean_comps (''/'' @ join ''/'' ds) = ds"
        using norm_comps_join[of True ds] pl by (simp add: clean_comps_def normal_rooted_iff)
      ultimately show ?thesis by simp
    qed
    ultimately show ?thesis using snoc by simp
  qed
qed

lemma loc_rooted: "rooted p \<Longrightarrow> loc h p = clean_comps p"
  by (simp add: loc_def clean_comps_def)

lemma resolve_path_loc:
  assumes "rooted root" and "resolve_path root p = Inr t"
  shows "loc h t = resolve_target root p" "loc h (path_dir t) = butlast (resolve_target root p)"
    "prefix (clean_comps root) (resolve_target root p)"
proof -
  have ne: "root \<noteq> []" using assms(1) by (auto simp: rooted_iff)
  note i = resolve_path_Inr[OF ne assms(2)]
  then show "loc h t = resolve_target root p" using assms(1) by (simp add: loc_rooted)
  show "prefix (clean_comps root) (resolve_target root p)" using i by auto
  have "list_all plain (resolve_target root p)"
    using resolve_target_normal[of root p] assms(1) by (simp add: normal_rooted_iff)
  then show "loc h (path_dir t) = butlast (resolve_target root p)"
    using clean_comps_path_dir resolve_path_rooted_form[OF assms] by (simp only: loc_rooted)
qed

section \<open>The file operations\<close>

text \<open>
  C21: Nothing a file command does reaches a file outside the sandbox: a write, whatever fails on
  the way, and a delete leave every file that is not under the root as it was, and change no other
  place except by making directories on the way to the root.
\<close>

theorem file_manager_confined:
  assumes "rooted root" and "\<not> prefix (clean_comps root) q"
  shows "node_at (snd (fm_delete root p h)) q = node_at h q
    \<and> (node_at (snd (fm_write root p data h)) q = Some (File s)) = (node_at h q = Some (File s))
    \<and> (\<not> prefix q (clean_comps root) \<longrightarrow> node_at (snd (fm_write root p data h)) q = node_at h q)"
proof (cases "resolve_path root p")
  case (Inl e)
  then show ?thesis by (simp add: fm_delete_def fm_write_def)
next
  case (Inr t)
  obtain m h1 where m: "mkdir_all (path_dir t) h = (m, h1)" by fastforce
  have kept: "(node_at h1 q = Some (File s)) = (node_at h q = Some (File s))"
    using mkdir_all_file_iff[of "path_dir t" h q s] m by simp
  have dirs: "node_at h1 q = node_at h q" if "\<not> prefix q (clean_comps root)"
  proof -
    have "prefix (butlast (resolve_target root p)) (resolve_target root p)" by (rule prefixeq_butlast)
    then have "\<not> prefix q (butlast (resolve_target root p))"
      using assms(2) that resolve_path_loc(3)[OF assms(1) Inr] by (meson prefix_order.trans prefix_same_cases)
    then show ?thesis
      using m resolve_path_loc(2)[OF assms(1) Inr, of h]
      by (auto simp: mkdir_all_def Let_def make_dirs_outside split: if_splits)
  qed
  have w: "node_at (snd (write_file t data h1)) q = node_at h1 q"
    unfolding write_file_def using sandbox.write_confined[OF assms(1) Inr assms(2)] .
  show ?thesis
    using Inr m kept dirs w sandbox.remove_confined[OF assms(1) Inr assms(2)]
    by (auto simp: fm_delete_def fm_write_def split: option.splits prod.splits)
qed

theorem file_manager_confined_witness:
  "node_at (snd (fm_delete ''/d/apps'' ''''  (put_node [''etc''] (File ''x'') bare_host))) [''etc''] = Some (File ''x'')"
proof -
  have r: "rooted ''/d/apps''" by simp
  have q: "\<not> prefix (clean_comps ''/d/apps'') [''etc'']"
    by (simp add: clean_comps_def rooted_def has_prefix_def)
  from file_manager_confined[OF r q, of "[]" "put_node [''etc''] (File ''x'') bare_host"]
  show ?thesis by simp
qed

text \<open>
  C25: A file the dashboard wrote reads back as it was written, from the same path and from every
  other spelling of it that resolves to the same place.
\<close>

theorem write_then_read:
  assumes "rooted root" and "fm_write root p data h = (None, h')" and "faults h = []"
    and "resolve_target root p' = resolve_target root p"
  shows "fst (fm_read root p' h') = Inr data"
proof -
  obtain t where t: "resolve_path root p = Inr t"
    using assms(2) by (cases "resolve_path root p") (auto simp: fm_write_def)
  obtain h1 where m: "mkdir_all (path_dir t) h = (None, h1)" and w: "write_file t data h1 = (None, h')"
    using assms(2) t by (auto simp: fm_write_def split: prod.splits option.splits)
  have f1: "faults h1 = []" using m mkdir_all_fields(5)[of "path_dir t" h] assms(3) by simp
  have f': "faults h' = []" using w f1 write_with_fields(5)[of "\<lambda>_. []" t data h1] by (simp add: write_file_def)
  have "h' = put_node (loc h1 t) (File data) (pop_fault h1)"
    using write_with_ok[of "\<lambda>_. []" t data h1 h'] w unfolding write_file_def
    by (auto split: option.splits node.splits)
  then have n: "node_at h' (resolve_target root p) = Some (File data)"
    using resolve_path_loc(1)[OF assms(1) t] by simp
  have "resolve_path root p' = resolve_path root p"
    using resolve_path_exact[OF assms(1), of p'] resolve_path_exact[OF assms(1), of p] assms(4) by simp
  then have t': "resolve_path root p' = Inr t" using t by simp
  show ?thesis
    using n assms(4) resolve_path_loc(1)[OF assms(1) t', of h'] f'
    by (simp add: fm_read_def t' read_file_calm)
qed

theorem write_then_read_witness:
  "fst (fm_read ''/d'' ''b'' (snd (fm_write ''/d'' ''a/../b'' ''hello'' bare_host))) = Inr ''hello''"
proof -
  have r: "rooted ''/d''" by simp
  have e: "fm_write ''/d'' ''a/../b'' ''hello'' bare_host = (None, snd (fm_write ''/d'' ''a/../b'' ''hello'' bare_host))"
    by (simp add: fm_write_def resolve_path_def model_defs)
  show ?thesis
    by (rule write_then_read[OF r e]) (simp_all add: resolve_target_def model_defs)
qed


end
