(* ===== verification/Outbox.thy ===== *)
theory Outbox
  imports Protocol Sandbox
begin

text \<open>
  \<open>internal/outbox\<close>: the durable send queue. Facts are appended to a log on disk before they go
  on the wire and stay in the queue until the API acknowledges them. The queue's map from sequence
  numbers to items is an association list; the code ranges over it in an arbitrary order, which is
  a parameter \<open>visit\<close> where the order shows. The JSON forms of the item and of the meta file are
  those of the protocol's envelope, which is not part of this repository, so the encoder and the
  decoder are a parameter \<open>codec\<close>.
\<close>

section \<open>Data\<close>

record queued =
  qd_env :: envelope
  qd_retry :: int
  qd_last :: int
  qd_next :: int
  qd_created :: int
  qd_error :: string
  qd_coalesce :: string

record queue_meta =
  mt_stream :: string
  mt_next :: uint64
  mt_ack :: uint64
  mt_items :: "queued list"

record queue =
  qu_path :: path
  qu_log :: path
  qu_stream :: string
  qu_next :: uint64
  qu_ack :: uint64
  qu_items :: "(uint64 \<times> queued) list"
  qu_acks :: int

record codec =
  enc_item :: "queued \<Rightarrow> string option"
  dec_item :: "string \<Rightarrow> queued option"
  enc_meta :: "queue_meta \<Rightarrow> string option"
  dec_meta :: "string \<Rightarrow> queue_meta option"

definition retry_delay_schedule :: "int list" where
  "retry_delay_schedule = [2000000000, 5000000000, 10000000000, 20000000000, 30000000000]"

definition queue_compact_every :: int where "queue_compact_every = 32"

definition seq_of :: "queued \<Rightarrow> uint64" where
  "seq_of it = ev_seq (qd_env it)"

section \<open>Construction and paths\<close>

definition hex_digit :: "nat \<Rightarrow> char" where
  "hex_digit n = (if n < 10 then char_of (48 + n) else char_of (87 + n))"

definition hex :: "8 word list \<Rightarrow> string" where
  "hex bs = concat (map (\<lambda>b. [hex_digit (unat b div 16), hex_digit (unat b mod 16)]) bs)"

text \<open>The random bytes are an argument, \<open>None\<close> where the generator fails.\<close>

definition random_stream_id :: "8 word list option \<Rightarrow> host \<Rightarrow> string" where
  "random_stream_id rnd h =
     (case rnd of None \<Rightarrow> ''stream-'' @ itoa (clock h) | Some bs \<Rightarrow> hex bs)"

definition new_queue :: "path \<Rightarrow> 8 word list option \<Rightarrow> host \<Rightarrow> queue" where
  "new_queue p rnd h =
     \<lparr>qu_path = p, qu_log = [], qu_stream = random_stream_id rnd h, qu_next = 1, qu_ack = 0,
      qu_items = [], qu_acks = 0\<rparr>"

definition ensure_path :: "host \<Rightarrow> queue \<Rightarrow> queue" where
  "ensure_path h q =
     (let p = (if trim_space (qu_path q) = [] then path_join [data_dir h, ''agent-protocol-v2-queue.json'']
               else qu_path q);
          ext = path_ext p;
          base = (if ext = [] then p else trim_suffix p ext)
      in q\<lparr>qu_path := p, qu_log := base @ ''.ndjson''\<rparr>)"

section \<open>Loading\<close>

definition admit :: "queue \<Rightarrow> queued \<Rightarrow> queue" where
  "admit q it =
     q\<lparr>qu_items := AList.update (seq_of it) it (qu_items q),
       qu_next := (if seq_of it \<ge> qu_next q then seq_of it + 1 else qu_next q)\<rparr>"

definition load_meta_item :: "queue \<Rightarrow> queued \<Rightarrow> queue" where
  "load_meta_item q it = (if seq_of it \<le> qu_ack q then q else admit q it)"

definition load_meta :: "codec \<Rightarrow> queue \<Rightarrow> host \<Rightarrow> (go_error, queue) result \<times> host" where
  "load_meta cd q h =
     (case read_file (qu_path q) h of
        (Inl e, h1) \<Rightarrow> (Inl e, h1)
      | (Inr raw, h1) \<Rightarrow>
          (case dec_meta cd raw of
             None \<Rightarrow> (Inl (Msg ''invalid character''), h1)
           | Some m \<Rightarrow>
               (let q1 = (if trim_space (mt_stream m) \<noteq> [] then q\<lparr>qu_stream := trim_space (mt_stream m)\<rparr> else q);
                    q2 = (if mt_next m > 0 then q1\<lparr>qu_next := mt_next m\<rparr> else q1);
                    q3 = q2\<lparr>qu_ack := mt_ack m\<rparr>
                in (Inr (if mt_items m = [] then q3
                         else foldl load_meta_item (q3\<lparr>qu_items := []\<rparr>) (mt_items m)), h1))))"

definition load_log_line :: "codec \<Rightarrow> queue \<Rightarrow> string \<Rightarrow> queue" where
  "load_log_line cd q line =
     (let l = trim_space line in
      if l = [] then q
      else (case dec_item cd l of
              None \<Rightarrow> q
            | Some it \<Rightarrow> if seq_of it = 0 \<or> seq_of it \<le> qu_ack q then q else admit q it))"

definition load_log :: "codec \<Rightarrow> queue \<Rightarrow> host \<Rightarrow> (go_error, queue) result \<times> host" where
  "load_log cd q h =
     (case read_file (qu_log q) h of
        (Inl e, h1) \<Rightarrow> (Inl e, h1)
      | (Inr raw, h1) \<Rightarrow> (Inr (foldl (load_log_line cd) q (split_on newline raw)), h1))"

text \<open>The queue as it is left, with the error \<open>Load\<close> returns.\<close>

definition load :: "codec \<Rightarrow> queue \<Rightarrow> host \<Rightarrow> go_error option \<times> queue \<times> host" where
  "load cd q0 h =
     (let q = ensure_path h q0 in
      case load_meta cd q h of
        (Inl e, h1) \<Rightarrow>
          (if \<not> is_not_exist e then (Some e, q, h1)
           else (case load_log cd q h1 of
                   (Inl e2, h2) \<Rightarrow> (if is_not_exist e2 then None else Some e2, q, h2)
                 | (Inr q2, h2) \<Rightarrow> (None, q2, h2)))
      | (Inr q1, h1) \<Rightarrow>
          (case load_log cd q1 h1 of
             (Inl e2, h2) \<Rightarrow> (if is_not_exist e2 then None else Some e2, q1, h2)
           | (Inr q2, h2) \<Rightarrow> (None, q2, h2)))"

section \<open>Writing\<close>

definition persist_meta :: "codec \<Rightarrow> queue \<Rightarrow> host \<Rightarrow> go_error option \<times> host" where
  "persist_meta cd q h =
     (case enc_meta cd \<lparr>mt_stream = qu_stream q, mt_next = qu_next q, mt_ack = qu_ack q, mt_items = []\<rparr> of
        None \<Rightarrow> (Some (Msg ''json: unsupported value''), h)
      | Some raw \<Rightarrow>
          (case mkdir_all (path_dir (qu_path q)) h of
             (Some e, h1) \<Rightarrow> (Some e, h1)
           | (None, h1) \<Rightarrow> write_file (qu_path q) raw h1))"

definition append_log :: "codec \<Rightarrow> queue \<Rightarrow> queued \<Rightarrow> host \<Rightarrow> go_error option \<times> host" where
  "append_log cd q it h =
     (case mkdir_all (path_dir (qu_log q)) h of
        (Some e, h1) \<Rightarrow> (Some e, h1)
      | (None, h1) \<Rightarrow>
          (case enc_item cd it of
             None \<Rightarrow> (Some (Msg ''json: unsupported value''), h1)
           | Some raw \<Rightarrow> append_file (qu_log q) (raw @ [newline]) h1))"

fun write_items :: "codec \<Rightarrow> path \<Rightarrow> queued list \<Rightarrow> host \<Rightarrow> go_error option \<times> host" where
  "write_items cd tmp [] h = (None, h)"
| "write_items cd tmp (it # its) h =
     (case enc_item cd it of
        None \<Rightarrow> (Some (Msg ''json: unsupported value''), h)
      | Some raw \<Rightarrow>
          (case append_file tmp (raw @ [newline]) h of
             (Some e, h1) \<Rightarrow> (Some e, h1)
           | (None, h1) \<Rightarrow> write_items cd tmp its h1))"

definition close_file :: "path \<Rightarrow> host \<Rightarrow> go_error option \<times> host" where
  "close_file p h = (if fault_of h = Fine then None else Some (IOError p), pop_fault h)"

definition live_items :: "queue \<Rightarrow> queued list" where
  "live_items q = sort_key seq_of (filter (\<lambda>it. \<not> seq_of it \<le> qu_ack q) (map snd (qu_items q)))"

definition compact :: "codec \<Rightarrow> queue \<Rightarrow> host \<Rightarrow> go_error option \<times> queue \<times> host" where
  "compact cd q h =
     (let items = live_items q; tmp = qu_log q @ ''.tmp'' in
      case mkdir_all (path_dir (qu_log q)) h of
        (Some e, h1) \<Rightarrow> (Some e, q, h1)
      | (None, h1) \<Rightarrow>
          (case write_file tmp [] h1 of
             (Some e, h2) \<Rightarrow> (Some e, q, h2)
           | (None, h2) \<Rightarrow>
               (case write_items cd tmp items h2 of
                  (Some e, h3) \<Rightarrow> (Some e, q, snd (close_file tmp h3))
                | (None, h3) \<Rightarrow>
                    (case close_file tmp h3 of
                       (Some e, h4) \<Rightarrow> (Some e, q, h4)
                     | (None, h4) \<Rightarrow>
                         (case rename tmp (qu_log q) h4 of
                            (Some e, h5) \<Rightarrow> (Some e, q, h5)
                          | (None, h5) \<Rightarrow>
                              (let q1 = q\<lparr>qu_acks := 0\<rparr>; (r, h6) = persist_meta cd q1 h5
                               in (r, q1, h6)))))))"

section \<open>Operations\<close>

definition fresh_item :: "queue \<Rightarrow> envelope \<Rightarrow> string \<Rightarrow> host \<Rightarrow> queued" where
  "fresh_item q env ckey h =
     \<lparr>qd_env = env\<lparr>ev_stream := qu_stream q, ev_seq := qu_next q\<rparr>, qd_retry = 0, qd_last = 0,
      qd_next = unix_milli h, qd_created = unix_milli h, qd_error = [], qd_coalesce = ckey\<rparr>"

definition merge_item :: "envelope \<Rightarrow> queued \<Rightarrow> queued" where
  "merge_item env it =
     it\<lparr>qd_env := (qd_env it)\<lparr>ev_payload := ev_payload env, ev_message_id := ev_message_id env,
          ev_sent := ev_sent env, ev_class := ev_class env\<rparr>\<rparr>"

definition enqueue_coalesced ::
  "proto \<Rightarrow> codec \<Rightarrow> ((uint64 \<times> queued) list \<Rightarrow> (uint64 \<times> queued) list) \<Rightarrow> queue \<Rightarrow> envelope \<Rightarrow> string \<Rightarrow> host
   \<Rightarrow> (go_error, queued) result \<times> queue \<times> host" where
  "enqueue_coalesced pr cd visit q0 env0 ckey0 h =
     (let q = ensure_path h q0;
          env = (if trim_space (ev_class env0) = [] then env0\<lparr>ev_class := class_fact pr\<rparr> else env0);
          ckey = trim_space ckey0;
          hit = (if ckey = [] then None
                 else find (\<lambda>(_, it). qd_coalesce it = ckey \<and> qd_last it = 0) (visit (qu_items q)))
      in case hit of
           Some (s, it) \<Rightarrow>
             (let it1 = merge_item env it;
                  q1 = q\<lparr>qu_items := AList.update s it1 (qu_items q)\<rparr>;
                  (_, h1) = append_log cd q1 it1 h;
                  (e, h2) = persist_meta cd q1 h1
              in ((case e of Some er \<Rightarrow> Inl er | None \<Rightarrow> Inr it1), q1, h2))
         | None \<Rightarrow>
             (let it = fresh_item q env ckey h;
                  q1 = q\<lparr>qu_next := qu_next q + 1, qu_items := AList.update (seq_of it) it (qu_items q)\<rparr>
              in case append_log cd q1 it h of
                   (Some e, h1) \<Rightarrow> (Inl e, q1, h1)
                 | (None, h1) \<Rightarrow>
                     (case persist_meta cd q1 h1 of
                        (Some e, h2) \<Rightarrow> (Inl e, q1, h2)
                      | (None, h2) \<Rightarrow> (Inr it, q1, h2))))"

definition enqueue ::
  "proto \<Rightarrow> codec \<Rightarrow> queue \<Rightarrow> envelope \<Rightarrow> host \<Rightarrow> (go_error, queued) result \<times> queue \<times> host" where
  "enqueue pr cd q env h = enqueue_coalesced pr cd (\<lambda>xs. xs) q env [] h"

definition acknowledge :: "codec \<Rightarrow> queue \<Rightarrow> uint64 \<Rightarrow> host \<Rightarrow> go_error option \<times> queue \<times> host" where
  "acknowledge cd q n h =
     (if n \<le> qu_ack q then (None, q, h)
      else (let q1 = q\<lparr>qu_ack := n, qu_items := filter (\<lambda>(s, _). \<not> s \<le> n) (qu_items q), qu_acks := qu_acks q + 1\<rparr>
            in if qu_items q1 = [] \<or> qu_acks q1 \<ge> queue_compact_every then compact cd q1 h
               else (let (e, h1) = persist_meta cd q1 h in (e, q1, h1))))"

definition due_items :: "queue \<Rightarrow> int \<Rightarrow> host \<Rightarrow> queued list" where
  "due_items q limit h =
     (let items = sort_key seq_of
            (filter (\<lambda>it. \<not> seq_of it \<le> qu_ack q \<and> qd_next it \<le> unix_milli h) (map snd (qu_items q)))
      in if limit > 0 \<and> int (length items) > limit then take (nat limit) items else items)"

definition retry_delay_for_attempt :: "int \<Rightarrow> int" where
  "retry_delay_for_attempt n =
     (if n \<le> 1 then retry_delay_schedule ! 0
      else if n - 1 \<ge> int (length retry_delay_schedule)
           then retry_delay_schedule ! (length retry_delay_schedule - 1)
           else retry_delay_schedule ! nat (n - 1))"

text \<open>\<open>UnixMilli\<close> of the time \<open>d\<close> nanoseconds from now.\<close>

definition milli_after :: "int \<Rightarrow> host \<Rightarrow> int" where
  "milli_after d h = (clock h + d) div 1000000"

definition mark_attempt :: "codec \<Rightarrow> queue \<Rightarrow> uint64 \<Rightarrow> go_error option \<Rightarrow> host \<Rightarrow> go_error option \<times> queue \<times> host" where
  "mark_attempt cd q s werr h =
     (case map_of (qu_items q) s of
        None \<Rightarrow> (None, q, h)
      | Some it \<Rightarrow>
          (let it1 = it\<lparr>qd_last := unix_milli h, qd_retry := qd_retry it + 1\<rparr> in
           case werr of
             Some e \<Rightarrow>
               (let it2 = it1\<lparr>qd_next := milli_after (retry_delay_for_attempt (qd_retry it1)) h, qd_error := error_text e\<rparr>;
                    q1 = q\<lparr>qu_items := AList.update s it2 (qu_items q)\<rparr>;
                    (r, h1) = persist_meta cd q1 h
                in (r, q1, h1))
           | None \<Rightarrow>
               (let it2 = it1\<lparr>qd_error := [], qd_next := milli_after 90000000000 h\<rparr>
                in (None, q\<lparr>qu_items := AList.update s it2 (qu_items q)\<rparr>, h))))"

definition pending_count :: "queue \<Rightarrow> int" where
  "pending_count q = int (length (qu_items q))"

definition has_pending_snapshot :: "proto \<Rightarrow> queue \<Rightarrow> bool" where
  "has_pending_snapshot pr q =
     list_ex (\<lambda>(_, it). ev_entity (qd_env it) = ent_runtime pr \<and> ev_action (qd_env it) = act_snapshot pr) (qu_items q)"

definition ack_upto_seq :: "queue \<Rightarrow> uint64" where
  "ack_upto_seq q = qu_ack q"

definition is_signal_item :: "proto \<Rightarrow> queued \<Rightarrow> bool" where
  "is_signal_item pr it = equal_fold (trim_space (ev_class (qd_env it))) (class_signal pr)"

definition reset_pending_for_recovery ::
  "proto \<Rightarrow> codec \<Rightarrow> queue \<Rightarrow> host \<Rightarrow> (int \<times> go_error option) \<times> queue \<times> host" where
  "reset_pending_for_recovery pr cd q h =
     (let kept = filter (\<lambda>(_, it). \<not> is_signal_item pr it) (qu_items q);
          dropped = int (length (qu_items q)) - int (length kept)
      in if dropped = 0 then ((0, None), q, h)
         else (let (e, q1, h1) = compact cd (q\<lparr>qu_items := kept\<rparr>) h in ((dropped, e), q1, h1)))"

definition debug_snapshot :: "queue \<Rightarrow> string" where
  "debug_snapshot q =
     ''stream='' @ qu_stream q @ '' next_seq='' @ nat_dec (unat (qu_next q)) @ '' ack_upto='' @
     nat_dec (unat (qu_ack q)) @ '' pending='' @ itoa (pending_count q)"

section \<open>The invariant\<close>

text \<open>Every item is filed under its own sequence number, once.\<close>

definition queue_wf :: "queue \<Rightarrow> bool" where
  "queue_wf q \<longleftrightarrow> distinct (map fst (qu_items q)) \<and> list_all (\<lambda>(s, it). seq_of it = s) (qu_items q)"

text \<open>And every item is one that was handed out and not yet acknowledged.\<close>

definition queue_inv :: "queue \<Rightarrow> bool" where
  "queue_inv q \<longleftrightarrow> queue_wf q \<and> 0 < qu_next q \<and> qu_ack q < qu_next q \<and>
     list_all (\<lambda>(s, it). qu_ack q < s \<and> s < qu_next q) (qu_items q)"

definition facts :: "queue \<Rightarrow> uint64 \<rightharpoonup> envelope" where
  "facts q = (\<lambda>s. map_option qd_env (map_of (qu_items q) s))"

lemma set_AList_update: "(k', v') \<in> set (AList.update k v xs) \<Longrightarrow> (k', v') = (k, v) \<or> (k', v') \<in> set xs"
  by (induction xs) (auto split: if_splits)

lemma set_AList_update_distinct:
  "distinct (map fst xs) \<Longrightarrow> (k', v') \<in> set (AList.update k v xs) \<longleftrightarrow> (k' = k \<and> v' = v) \<or> (k' \<noteq> k \<and> (k', v') \<in> set xs)"
  by (induction xs) (force split: if_splits)+

lemma AList_update_new: "k \<notin> fst ` set xs \<Longrightarrow> AList.update k v xs = xs @ [(k, v)]"
  by (induction xs) auto

lemma queue_wf_update [intro]:
  "queue_wf q \<Longrightarrow> seq_of it = s \<Longrightarrow> queue_wf (q\<lparr>qu_items := AList.update s it (qu_items q)\<rparr>)"
  by (auto simp: queue_wf_def list_all_iff distinct_update dest: set_AList_update)

lemma queue_wf_fields [simp]:
  "queue_wf (q\<lparr>qu_next := n\<rparr>) = queue_wf q" "queue_wf (q\<lparr>qu_ack := n\<rparr>) = queue_wf q"
  "queue_wf (q\<lparr>qu_acks := i\<rparr>) = queue_wf q" "queue_wf (q\<lparr>qu_path := p\<rparr>) = queue_wf q"
  "queue_wf (q\<lparr>qu_log := p\<rparr>) = queue_wf q" "queue_wf (q\<lparr>qu_stream := p\<rparr>) = queue_wf q"
  by (simp_all add: queue_wf_def)

lemma queue_wf_filter [intro]: "queue_wf q \<Longrightarrow> queue_wf (q\<lparr>qu_items := filter P (qu_items q)\<rparr>)"
  by (auto simp: queue_wf_def list_all_iff distinct_map_filter)

lemma map_of_filter_key:
  "map_of (filter (\<lambda>(s, _). P s) xs) = map_of xs |` {s. P s}"
  by (induction xs) (auto simp: restrict_map_def fun_eq_iff)

lemma map_of_filter_value:
  "distinct (map fst xs) \<Longrightarrow>
   map_of (filter (\<lambda>(s, v). P v) xs) k = (case map_of xs k of Some v \<Rightarrow> if P v then Some v else None | None \<Rightarrow> None)"
  by (induction xs) (auto simp: map_of_eq_None_iff image_iff split: option.splits)

lemma facts_update [simp]:
  "facts (q\<lparr>qu_items := AList.update s it (qu_items q)\<rparr>) = (facts q)(s \<mapsto> qd_env it)"
  by (simp add: facts_def update_conv' fun_eq_iff)

lemma facts_fields [simp]:
  "facts (q\<lparr>qu_next := n\<rparr>) = facts q" "facts (q\<lparr>qu_ack := n\<rparr>) = facts q" "facts (q\<lparr>qu_acks := i\<rparr>) = facts q"
  "facts (q\<lparr>qu_path := p\<rparr>) = facts q" "facts (q\<lparr>qu_log := p\<rparr>) = facts q"
  by (simp_all add: facts_def)

lemma ensure_path_fields [simp]:
  "qu_items (ensure_path h q) = qu_items q" "qu_next (ensure_path h q) = qu_next q"
  "qu_ack (ensure_path h q) = qu_ack q" "qu_stream (ensure_path h q) = qu_stream q"
  "qu_acks (ensure_path h q) = qu_acks q" "facts (ensure_path h q) = facts q"
  "queue_wf (ensure_path h q) = queue_wf q" "queue_inv (ensure_path h q) = queue_inv q"
  by (simp_all add: ensure_path_def Let_def facts_def queue_wf_def queue_inv_def)

section \<open>What each operation does to the queue in memory\<close>

text \<open>The memory effect does not depend on whether the writes to disk succeed.\<close>

definition stamp :: "proto \<Rightarrow> queue \<Rightarrow> envelope \<Rightarrow> envelope" where
  "stamp pr q env =
     env\<lparr>ev_class := (if trim_space (ev_class env) = [] then class_fact pr else ev_class env),
         ev_stream := qu_stream q, ev_seq := qu_next q\<rparr>"

lemma enqueue_queue:
  "fst (snd (enqueue pr cd q env h)) =
   (let e = (if trim_space (ev_class env) = [] then env\<lparr>ev_class := class_fact pr\<rparr> else env); q1 = ensure_path h q;
        it = fresh_item q1 e [] h
    in q1\<lparr>qu_next := qu_next q + 1, qu_items := AList.update (qu_next q) it (qu_items q)\<rparr>)"
  by (simp add: enqueue_def enqueue_coalesced_def Let_def seq_of_def fresh_item_def split: prod.splits option.splits)

lemma qd_env_fresh: "qd_env (fresh_item q (if trim_space (ev_class env) = [] then env\<lparr>ev_class := class_fact pr\<rparr> else env) k h) = stamp pr q env"
  by (simp add: fresh_item_def stamp_def)

lemma compact_queue: "fst (snd (compact cd q h)) = q \<or> fst (snd (compact cd q h)) = q\<lparr>qu_acks := 0\<rparr>"
  by (simp add: compact_def Let_def split: prod.splits option.splits)

lemma compact_fields [simp]:
  "qu_items (fst (snd (compact cd q h))) = qu_items q" "qu_next (fst (snd (compact cd q h))) = qu_next q"
  "qu_ack (fst (snd (compact cd q h))) = qu_ack q" "qu_stream (fst (snd (compact cd q h))) = qu_stream q"
  "qu_path (fst (snd (compact cd q h))) = qu_path q" "qu_log (fst (snd (compact cd q h))) = qu_log q"
  "facts (fst (snd (compact cd q h))) = facts q" "queue_wf (fst (snd (compact cd q h))) = queue_wf q"
  using compact_queue[of cd q h] by auto

lemma queue_inv_compact [simp]: "queue_inv (fst (snd (compact cd q h))) = queue_inv q"
  using compact_queue[of cd q h] by (auto simp: queue_inv_def)

lemma word_less_Suc: "(n :: 'a::len word) \<noteq> - 1 \<Longrightarrow> n < n + 1"
proof -
  assume n: "n \<noteq> - 1"
  have "unat n \<noteq> 2 ^ LENGTH('a) - 1"
  proof
    assume "unat n = 2 ^ LENGTH('a) - 1"
    then have "unat n = unat (- 1 :: 'a word)" by (simp add: unsigned_minus_1_eq_mask mask_eq_exp_minus_1)
    then show False using n by (simp add: word_unat_eq_iff)
  qed
  moreover have "unat n < 2 ^ LENGTH('a)" by (rule unsigned_less)
  ultimately have "Suc (unat n) < 2 ^ LENGTH('a)" by linarith
  then show ?thesis by (simp add: word_less_nat_alt unat_word_ariths)
qed

lemma word_less_Suc_trans: "s < n \<Longrightarrow> (n :: 'a::len word) \<noteq> - 1 \<Longrightarrow> s < n + 1"
  using word_less_Suc less_trans by blast

lemma enqueue_facts:
  "facts (fst (snd (enqueue pr cd q env h))) = (facts q)(qu_next q \<mapsto> stamp pr q env)"
proof -
  define e where "e = (if trim_space (ev_class env) = [] then env\<lparr>ev_class := class_fact pr\<rparr> else env)"
  define it where "it = fresh_item (ensure_path h q) e [] h"
  have "qd_env it = stamp pr q env"
    using qd_env_fresh[of "ensure_path h q" env pr] by (simp add: it_def e_def stamp_def)
  moreover have "fst (snd (enqueue pr cd q env h)) =
      (ensure_path h q)\<lparr>qu_next := qu_next q + 1, qu_items := AList.update (qu_next q) it (qu_items q)\<rparr>"
    by (simp only: enqueue_queue Let_def it_def e_def)
  ultimately show ?thesis by (simp add: facts_def update_conv' fun_eq_iff)
qed

lemma enqueue_fields:
  "qu_next (fst (snd (enqueue pr cd q env h))) = qu_next q + 1"
  "qu_ack (fst (snd (enqueue pr cd q env h))) = qu_ack q"
  "qu_stream (fst (snd (enqueue pr cd q env h))) = qu_stream q"
  by (simp_all add: enqueue_queue Let_def)

lemma enqueue_inv:
  assumes "queue_inv q" and "qu_next q \<noteq> - 1"
  shows "queue_inv (fst (snd (enqueue pr cd q env h)))"
proof -
  let ?e = "if trim_space (ev_class env) = [] then env\<lparr>ev_class := class_fact pr\<rparr> else env"
  let ?it = "fresh_item (ensure_path h q) ?e [] h"
  let ?q = "fst (snd (enqueue pr cd q env h))"
  have s: "seq_of ?it = qu_next q" by (simp add: seq_of_def fresh_item_def)
  have items: "qu_items ?q = AList.update (qu_next q) ?it (qu_items q)"
    by (simp add: enqueue_queue Let_def)
  have lt: "qu_next q < qu_next q + 1" using assms(2) by (rule word_less_Suc)
  have "queue_wf ?q"
    using assms(1) s by (auto simp: queue_inv_def queue_wf_def items list_all_iff distinct_update dest: set_AList_update)
  moreover have "list_all (\<lambda>(s, it). qu_ack q < s \<and> s < qu_next q + 1) (qu_items ?q)"
    using assms(1) lt by (auto simp: items queue_inv_def list_all_iff dest!: set_AList_update intro: less_trans)
  ultimately show ?thesis
    using assms(1) lt by (auto simp: queue_inv_def enqueue_fields intro: less_trans)
qed

lemma acknowledge_facts:
  assumes "\<And>s. s \<in> dom (facts q) \<Longrightarrow> qu_ack q < s"
  shows "facts (fst (snd (acknowledge cd q n h))) = facts q |` {s. n < s}"
proof (cases "n \<le> qu_ack q")
  case True
  with assms have "\<And>s. s \<in> dom (facts q) \<Longrightarrow> n < s" by (metis le_less_trans)
  then have "facts q |` {s. n < s} = facts q"
    by (simp add: restrict_map_def fun_eq_iff) (metis domIff)
  then show ?thesis using True by (simp add: acknowledge_def)
next
  case False
  have "facts (q\<lparr>qu_ack := n, qu_items := filter (\<lambda>(s, _). \<not> s \<le> n) (qu_items q), qu_acks := i\<rparr>) = facts q |` {s. n < s}" for i
    by (auto simp: facts_def map_of_filter_key restrict_map_def fun_eq_iff not_le)
  then show ?thesis using False by (simp add: acknowledge_def Let_def split: prod.splits)
qed

lemma acknowledge_fields:
  "qu_next (fst (snd (acknowledge cd q n h))) = qu_next q"
  "qu_ack (fst (snd (acknowledge cd q n h))) = max n (qu_ack q)"
  "qu_stream (fst (snd (acknowledge cd q n h))) = qu_stream q"
  by (auto simp: acknowledge_def Let_def max_def split: prod.splits)

lemma acknowledge_inv:
  assumes "queue_inv q" and "n < qu_next q"
  shows "queue_inv (fst (snd (acknowledge cd q n h)))"
proof (cases "n \<le> qu_ack q")
  case True
  then show ?thesis using assms by (simp add: acknowledge_def)
next
  case False
  let ?q = "q\<lparr>qu_ack := n, qu_items := filter (\<lambda>(s, _). \<not> s \<le> n) (qu_items q), qu_acks := qu_acks q + 1\<rparr>"
  have "queue_inv ?q"
    using assms unfolding queue_inv_def queue_wf_def
    by (auto simp: list_all_iff distinct_map_filter)
  then show ?thesis using False by (simp add: acknowledge_def Let_def split: prod.splits)
qed

lemma mark_attempt_queue:
  "fst (snd (mark_attempt cd q s w h)) = q \<or>
   (\<exists>it it'. map_of (qu_items q) s = Some it \<and> qd_env it' = qd_env it \<and>
      fst (snd (mark_attempt cd q s w h)) = q\<lparr>qu_items := AList.update s it' (qu_items q)\<rparr>)"
proof (cases "map_of (qu_items q) s")
  case None
  then show ?thesis by (simp add: mark_attempt_def)
next
  case (Some it)
  show ?thesis
  proof (cases w)
    case None
    show ?thesis
      by (rule disjI2, rule exI[of _ it],
          rule exI[of _ "it\<lparr>qd_last := unix_milli h, qd_retry := qd_retry it + 1, qd_error := [], qd_next := milli_after 90000000000 h\<rparr>"])
        (simp add: mark_attempt_def Some None)
  next
    case (Some e)
    show ?thesis
      by (rule disjI2, rule exI[of _ it],
          rule exI[of _ "it\<lparr>qd_last := unix_milli h, qd_retry := qd_retry it + 1, qd_next := milli_after (retry_delay_for_attempt (qd_retry it + 1)) h, qd_error := error_text e\<rparr>"])
        (simp add: mark_attempt_def Some \<open>map_of (qu_items q) s = Some it\<close> Let_def split: prod.splits)
  qed
qed

lemma mark_attempt_facts: "facts (fst (snd (mark_attempt cd q s w h))) = facts q"
  using mark_attempt_queue[of cd q s w h] by (auto simp: facts_def update_conv' fun_eq_iff)

lemma mark_attempt_fields:
  "qu_next (fst (snd (mark_attempt cd q s w h))) = qu_next q"
  "qu_ack (fst (snd (mark_attempt cd q s w h))) = qu_ack q"
  "qu_stream (fst (snd (mark_attempt cd q s w h))) = qu_stream q"
  using mark_attempt_queue[of cd q s w h] by auto

lemma mark_attempt_inv:
  assumes "queue_inv q"
  shows "queue_inv (fst (snd (mark_attempt cd q s w h)))"
proof -
  have "queue_inv (q\<lparr>qu_items := AList.update s it' (qu_items q)\<rparr>)"
    if "map_of (qu_items q) s = Some it" "qd_env it' = qd_env it" for it it'
  proof -
    have m: "(s, it) \<in> set (qu_items q)" using that(1) by (rule map_of_SomeD)
    then have "seq_of it' = s"
      using assms that(2) by (auto simp: queue_inv_def queue_wf_def list_all_iff seq_of_def)
    then show ?thesis
      using assms m unfolding queue_inv_def queue_wf_def
      by (auto simp: list_all_iff distinct_update dest!: set_AList_update)
  qed
  then show ?thesis using assms mark_attempt_queue[of cd q s w h] by auto
qed

lemma reset_queue:
  "fst (snd (reset_pending_for_recovery pr cd q h)) = q \<or>
   (\<exists>q1. q1 = q\<lparr>qu_items := filter (\<lambda>(_, it). \<not> is_signal_item pr it) (qu_items q)\<rparr> \<and>
      fst (snd (reset_pending_for_recovery pr cd q h)) \<in> {q1, q1\<lparr>qu_acks := 0\<rparr>})"
proof -
  let ?q1 = "q\<lparr>qu_items := filter (\<lambda>(_, it). \<not> is_signal_item pr it) (qu_items q)\<rparr>"
  show ?thesis
    using compact_queue[of cd ?q1 h] by (auto simp: reset_pending_for_recovery_def Let_def split: prod.splits)
qed

lemma reset_inv:
  assumes "queue_inv q"
  shows "queue_inv (fst (snd (reset_pending_for_recovery pr cd q h)))"
proof -
  have "queue_inv (q\<lparr>qu_items := filter P (qu_items q)\<rparr>)" for P
    using assms unfolding queue_inv_def queue_wf_def by (auto simp: list_all_iff distinct_map_filter)
  moreover have "queue_inv (q1\<lparr>qu_acks := 0\<rparr>) = queue_inv q1" for q1
    by (simp add: queue_inv_def)
  ultimately show ?thesis using assms reset_queue[of pr cd q h] by auto
qed

lemma reset_fields:
  "qu_next (fst (snd (reset_pending_for_recovery pr cd q h))) = qu_next q"
  "qu_ack (fst (snd (reset_pending_for_recovery pr cd q h))) = qu_ack q"
  "qu_stream (fst (snd (reset_pending_for_recovery pr cd q h))) = qu_stream q"
  using reset_queue[of pr cd q h] by auto

definition signal_env :: "proto \<Rightarrow> envelope \<Rightarrow> bool" where
  "signal_env pr e \<longleftrightarrow> equal_fold (trim_space (ev_class e)) (class_signal pr)"

text \<open>Recovery drops the signals and nothing else.\<close>

lemma reset_facts:
  assumes "queue_wf q"
  shows "facts (fst (snd (reset_pending_for_recovery pr cd q h))) s =
    (case facts q s of Some e \<Rightarrow> if signal_env pr e then None else Some e | None \<Rightarrow> None)"
proof -
  let ?its = "filter (\<lambda>(_, it). \<not> is_signal_item pr it) (qu_items q)"
  have all: "map_option qd_env (map_of ?its s) =
    (case facts q s of Some e \<Rightarrow> if signal_env pr e then None else Some e | None \<Rightarrow> None)"
    using assms by (auto simp: map_of_filter_value queue_wf_def facts_def is_signal_item_def signal_env_def split: option.splits)
  have same: "?its = qu_items q" if "int (length (qu_items q)) - int (length ?its) = 0"
    using that filter_sorted_wrt_len by (metis (no_types, lifting) filter_True diff_eq_eq add_0 of_nat_eq_iff)
  show ?thesis
  proof (cases "int (length (qu_items q)) - int (length ?its) = 0")
    case True
    then have "fst (snd (reset_pending_for_recovery pr cd q h)) = q"
      by (simp add: reset_pending_for_recovery_def Let_def)
    with all show ?thesis unfolding same[OF True] by (simp only: facts_def)
  next
    case False
    then have "facts (fst (snd (reset_pending_for_recovery pr cd q h))) = facts (q\<lparr>qu_items := ?its\<rparr>)"
      by (simp add: reset_pending_for_recovery_def Let_def split: prod.splits)
        (metis compact_fields(7) fst_conv snd_conv)
    moreover have "facts (q\<lparr>qu_items := ?its\<rparr>) s = map_option qd_env (map_of ?its s)" by (simp add: facts_def)
    ultimately show ?thesis using all by simp
  qed
qed

section \<open>The promise of the queue\<close>

text \<open>
  What the package promises, without the disk, the association list or the retry bookkeeping: a
  stream of numbered facts, those above the acknowledged position still pending.
\<close>

record promise =
  pm_stream :: string
  pm_next :: uint64
  pm_ack :: uint64
  pm_facts :: "uint64 \<rightharpoonup> envelope"

definition promise_of :: "queue \<Rightarrow> promise" where
  "promise_of q = \<lparr>pm_stream = qu_stream q, pm_next = qu_next q, pm_ack = qu_ack q, pm_facts = facts q\<rparr>"

definition promise_put :: "proto \<Rightarrow> envelope \<Rightarrow> promise \<Rightarrow> promise" where
  "promise_put pr env s =
     s\<lparr>pm_facts := (pm_facts s)(pm_next s \<mapsto>
          env\<lparr>ev_class := (if trim_space (ev_class env) = [] then class_fact pr else ev_class env),
              ev_stream := pm_stream s, ev_seq := pm_next s\<rparr>),
       pm_next := pm_next s + 1\<rparr>"

definition promise_ack :: "uint64 \<Rightarrow> promise \<Rightarrow> promise" where
  "promise_ack n s = s\<lparr>pm_ack := max n (pm_ack s), pm_facts := pm_facts s |` {k. n < k}\<rparr>"

definition promise_reset :: "proto \<Rightarrow> promise \<Rightarrow> promise" where
  "promise_reset pr s =
     s\<lparr>pm_facts := (\<lambda>k. case pm_facts s k of Some e \<Rightarrow> if signal_env pr e then None else Some e | None \<Rightarrow> None)\<rparr>"

datatype queue_event =
    EvEnqueue envelope
  | EvAck uint64
  | EvMark uint64 "go_error option"
  | EvReset
  | EvWait int

definition queue_step :: "proto \<Rightarrow> codec \<Rightarrow> queue \<times> host \<Rightarrow> queue_event \<Rightarrow> queue \<times> host" where
  "queue_step pr cd qh ev =
     (let (q, h) = qh in
      case ev of
        EvEnqueue e \<Rightarrow> snd (enqueue pr cd q e h)
      | EvAck n \<Rightarrow> snd (acknowledge cd q n h)
      | EvMark s w \<Rightarrow> snd (mark_attempt cd q s w h)
      | EvReset \<Rightarrow> snd (reset_pending_for_recovery pr cd q h)
      | EvWait d \<Rightarrow> (q, pass_time d h))"

fun promise_step :: "proto \<Rightarrow> promise \<Rightarrow> queue_event \<Rightarrow> promise" where
  "promise_step pr s (EvEnqueue e) = promise_put pr e s"
| "promise_step pr s (EvAck n) = promise_ack n s"
| "promise_step pr s EvReset = promise_reset pr s"
| "promise_step pr s ev = s"

text \<open>
  What the environment may do: the API acknowledges only numbers the agent has handed out, and the
  counter has not reached the end of its 64 bits.
\<close>

fun queue_ok :: "queue \<times> host \<Rightarrow> queue_event \<Rightarrow> bool" where
  "queue_ok (q, h) (EvEnqueue e) = (qu_next q \<noteq> - 1)"
| "queue_ok (q, h) (EvAck n) = (n < qu_next q)"
| "queue_ok (q, h) ev = True"

lemma queue_step_simps [simp]:
  "queue_step pr cd (q, h) (EvEnqueue e) = snd (enqueue pr cd q e h)"
  "queue_step pr cd (q, h) (EvAck n) = snd (acknowledge cd q n h)"
  "queue_step pr cd (q, h) (EvMark s w) = snd (mark_attempt cd q s w h)"
  "queue_step pr cd (q, h) EvReset = snd (reset_pending_for_recovery pr cd q h)"
  "queue_step pr cd (q, h) (EvWait d) = (q, pass_time d h)"
  by (simp_all add: queue_step_def)

lemma queue_step_inv:
  assumes "queue_inv (fst s)" and "queue_ok s e"
  shows "queue_inv (fst (queue_step pr cd s e))"
  using assms by (cases s; cases e) (simp_all add: enqueue_inv acknowledge_inv mark_attempt_inv reset_inv)

lemma queue_step_refines:
  assumes "queue_inv (fst s)"
  shows "promise_of (fst (queue_step pr cd s e)) = promise_step pr (promise_of (fst s)) e"
proof -
  obtain q h where s: "s = (q, h)" by fastforce
  then have wf: "queue_wf q" using assms by (simp add: queue_inv_def)
  have above: "qu_ack q < k" if "k \<in> dom (facts q)" for k
  proof -
    from that obtain it where "map_of (qu_items q) k = Some it" by (auto simp: facts_def)
    then have "(k, it) \<in> set (qu_items q)" by (rule map_of_SomeD)
    then show ?thesis using assms s by (auto simp: queue_inv_def list_all_iff)
  qed
  show ?thesis
  proof (cases e)
    case (EvEnqueue x1)
    then show ?thesis
      by (simp add: s promise_of_def promise_put_def enqueue_facts enqueue_fields stamp_def)
  next
    case (EvAck n)
    then show ?thesis
      by (simp add: s promise_of_def promise_ack_def acknowledge_facts[OF above] acknowledge_fields)
  next
    case (EvMark x31 x32)
    then show ?thesis by (simp add: s promise_of_def mark_attempt_facts mark_attempt_fields)
  next
    case EvReset
    then show ?thesis
      by (simp add: s promise_of_def promise_reset_def reset_facts[OF wf] reset_fields fun_eq_iff)
  next
    case (EvWait x5)
    then show ?thesis by (simp add: s)
  qed
qed

text \<open>The machine of the queue is an instance of the interface of machines.\<close>

interpretation outbox: machine "queue_step pr cd" queue_ok "\<lambda>s. queue_inv (fst s)"
  by unfold_locales (rule queue_step_inv)

text \<open>
  C2: The queue keeps its promise. Over every run of enqueues, acknowledgements, delivery attempts,
  recoveries and waits the environment may produce, whatever the disk does, the queue in memory
  stays well formed and is exactly the abstract stream of numbered facts.
\<close>

theorem outbox_refines_promise:
  assumes "queue_inv q" and "run_ok (queue_step pr cd) queue_ok (q, h) es"
  shows "queue_inv (fst (foldl (queue_step pr cd) (q, h) es)) \<and>
    promise_of (fst (foldl (queue_step pr cd) (q, h) es)) = foldl (promise_step pr) (promise_of q) es"
proof -
  have "promise_of (fst (foldl (queue_step pr cd) s es)) = foldl (promise_step pr) (promise_of (fst s)) es"
    if "queue_inv (fst s)" "run_ok (queue_step pr cd) queue_ok s es" for s
    using that by (induction es arbitrary: s) (simp_all add: queue_step_inv queue_step_refines)
  then show ?thesis using assms outbox.run_keeps[of "(q, h)" pr cd es] by simp
qed

definition no_codec :: codec where
  "no_codec = \<lparr>enc_item = (\<lambda>_. None), dec_item = (\<lambda>_. None), enc_meta = (\<lambda>_. None), dec_meta = (\<lambda>_. None)\<rparr>"

definition demo_proto :: proto where
  "demo_proto =
     \<lparr>class_fact = ''fact'', class_signal = ''signal'', ent_runtime = ''runtime'', ent_command = ''command'',
      ent_container = ''container'', ent_terminal = ''terminal'', ent_cron = ''cron'', act_snapshot = ''snapshot'',
      act_heartbeat = ''heartbeat'', act_result = ''result'', act_progress = ''progress'',
      act_status_changed = ''status'', act_output = ''output'', st_received = ''received'',
      st_running = ''running'', st_succeeded = ''succeeded'', st_failed = ''failed'',
      type_auth_error = ''auth_error'', type_keepalive = ''keepalive'',
      close_duplicate = ''duplicate_server'', close_replaced = ''replaced'',
      streaming = (\<lambda>t. has_prefix t ''terminal''),
      new_envelope = (\<lambda>e a. \<lparr>ev_class = [], ev_stream = [], ev_seq = 0, ev_message_id = [], ev_sent = 0,
                            ev_server = [], ev_entity = e, ev_action = a, ev_payload = []\<rparr>),
      marshal = (\<lambda>_. Some ''{}'')\<rparr>"

definition demo_env :: envelope where
  "demo_env = \<lparr>ev_class = ''fact'', ev_stream = [], ev_seq = 0, ev_message_id = ''m'', ev_sent = 0,
     ev_server = [], ev_entity = [], ev_action = [], ev_payload = ''p''\<rparr>"

lemma new_queue_inv: "queue_inv (new_queue p rnd h)"
  by (simp add: new_queue_def queue_inv_def queue_wf_def)

theorem outbox_refines_promise_witness:
  "pm_facts (promise_of (fst (foldl (queue_step demo_proto no_codec) (new_queue ''/q'' (Some []) bare_host, bare_host)
     [EvEnqueue demo_env, EvEnqueue demo_env, EvAck 1]))) 1 = None \<and>
   pm_next (promise_of (fst (foldl (queue_step demo_proto no_codec) (new_queue ''/q'' (Some []) bare_host, bare_host)
     [EvEnqueue demo_env, EvEnqueue demo_env, EvAck 1]))) = 3"
proof -
  have ok: "run_ok (queue_step demo_proto no_codec) queue_ok (new_queue ''/q'' (Some []) bare_host, bare_host)
     [EvEnqueue demo_env, EvEnqueue demo_env, EvAck 1]"
  proof -
    have n: "qu_next (new_queue ''/q'' (Some []) bare_host) = 1" by (simp add: new_queue_def)
    obtain q1 h1 where 1: "snd (enqueue demo_proto no_codec (new_queue ''/q'' (Some []) bare_host) demo_env bare_host) = (q1, h1)"
      by fastforce
    then have n1: "qu_next q1 = 2" using enqueue_fields(1)[of demo_proto no_codec "new_queue ''/q'' (Some []) bare_host" demo_env bare_host] n by simp
    obtain q2 h2 where 2: "snd (enqueue demo_proto no_codec q1 demo_env h1) = (q2, h2)" by fastforce
    then have n2: "qu_next q2 = 3" using enqueue_fields(1)[of demo_proto no_codec q1 demo_env h1] n1 by simp
    show ?thesis by (simp add: n 1 n1 2 n2)
  qed
  show ?thesis
    using outbox_refines_promise[OF new_queue_inv ok]
    by (simp add: promise_of_def promise_put_def promise_ack_def new_queue_def)
qed

text \<open>
  C3: A fact stays until it is acknowledged. Once it is in the queue, no run loses, renumbers or
  alters it, whatever is enqueued, attempted, recovered or acknowledged below it and whatever the
  disk does, as long as no acknowledgement reaches its number.
\<close>

theorem fact_kept_until_acknowledged:
  assumes "queue_inv q" and "facts q s = Some e" and "\<not> signal_env pr e"
    and "run_ok (queue_step pr cd) queue_ok (q, h) es"
    and "\<And>n. EvAck n \<in> set es \<Longrightarrow> n < s"
  shows "facts (fst (foldl (queue_step pr cd) (q, h) es)) s = Some e"
proof -
  let ?holds = "\<lambda>qh :: queue \<times> host. facts (fst qh) s = Some e"
  have step: "?holds (queue_step pr cd qh ev)"
    if "queue_inv (fst qh)" and "queue_ok qh ev" and safe: "\<forall>n. ev = EvAck n \<longrightarrow> n < s" and "?holds qh" for qh ev
  proof -
    have "facts (fst (queue_step pr cd qh ev)) = pm_facts (promise_step pr (promise_of (fst qh)) ev)"
      using arg_cong[OF queue_step_refines[OF that(1), of pr cd ev], of pm_facts] by (simp add: promise_of_def)
    moreover have "s \<noteq> qu_next (fst qh)"
    proof
      assume eq: "s = qu_next (fst qh)"
      from that(4) obtain it where "map_of (qu_items (fst qh)) s = Some it" by (auto simp: facts_def)
      then have "(s, it) \<in> set (qu_items (fst qh))" by (rule map_of_SomeD)
      then show False using that(1) eq by (auto simp: queue_inv_def list_all_iff)
    qed
    ultimately show ?thesis using that(4) safe assms(3)
      by (cases ev) (simp_all add: promise_of_def promise_put_def promise_ack_def promise_reset_def)
  qed
  have "?holds (foldl (queue_step pr cd) (q, h) es)"
    by (rule outbox.run_keeps_fact[where pr = pr and cd = cd and holds = ?holds
          and safe = "\<lambda>ev. \<forall>n. ev = EvAck n \<longrightarrow> n < s"])
      (use assms step in auto)
  then show ?thesis by simp
qed

theorem fact_kept_until_acknowledged_witness:
  "facts (fst (foldl (queue_step demo_proto no_codec)
      (fst (snd (enqueue demo_proto no_codec (new_queue ''/q'' (Some []) bare_host) demo_env bare_host)), bare_host)
      [EvMark 1 (Some (Msg ''broken pipe'')), EvReset, EvAck 0])) 1
   = Some (demo_env\<lparr>ev_seq := 1\<rparr>)"
proof -
  let ?q = "fst (snd (enqueue demo_proto no_codec (new_queue ''/q'' (Some []) bare_host) demo_env bare_host))"
  have n: "qu_next (new_queue ''/q'' (Some []) bare_host) = 1" by (simp add: new_queue_def)
  have inv: "queue_inv ?q" by (rule enqueue_inv[OF new_queue_inv]) (simp add: n)
  have st: "stamp demo_proto (new_queue ''/q'' (Some []) bare_host) demo_env = demo_env\<lparr>ev_seq := 1\<rparr>"
    by (simp add: stamp_def new_queue_def random_stream_id_def hex_def demo_env_def trim_space_def trim_by_def trim_right_by_def is_space_def)
  have f: "facts ?q 1 = Some (demo_env\<lparr>ev_seq := 1\<rparr>)"
    by (simp add: enqueue_facts n st)
  have sig: "\<not> signal_env demo_proto (demo_env\<lparr>ev_seq := 1\<rparr>)"
    by (simp add: signal_env_def demo_env_def demo_proto_def model_defs)
  have ok: "run_ok (queue_step demo_proto no_codec) queue_ok (?q, bare_host)
      [EvMark 1 (Some (Msg ''broken pipe'')), EvReset, EvAck 0]"
  proof -
    have "qu_next ?q = 2" by (simp add: enqueue_fields n)
    moreover obtain q1 h1 where 1: "snd (mark_attempt no_codec ?q 1 (Some (Msg ''broken pipe'')) bare_host) = (q1, h1)"
      by fastforce
    ultimately have n1: "qu_next q1 = 2"
      using mark_attempt_fields(1)[of no_codec ?q 1 "Some (Msg ''broken pipe'')" bare_host] by simp
    obtain q2 h2 where 2: "snd (reset_pending_for_recovery demo_proto no_codec q1 h1) = (q2, h2)" by fastforce
    then have "qu_next q2 = 2" using reset_fields(1)[of demo_proto no_codec q1 h1] n1 by simp
    then show ?thesis by (simp add: 1 2)
  qed
  show ?thesis by (rule fact_kept_until_acknowledged[OF inv f sig ok]) auto
qed

section \<open>What is due\<close>

definition due :: "queue \<Rightarrow> host \<Rightarrow> queued \<Rightarrow> bool" where
  "due q h it \<longleftrightarrow> (seq_of it, it) \<in> set (qu_items q) \<and> qu_ack q < seq_of it \<and> qd_next it \<le> unix_milli h"

lemma sorted_take_rest:
  assumes "sorted (map f xs)" and "distinct (map f xs)" and "x \<in> set xs" and "x \<notin> set (take n xs)" and "y \<in> set (take n xs)"
  shows "f y < (f x :: 'a::linorder)"
proof -
  have "xs = take n xs @ drop n xs" by simp
  then have x: "x \<in> set (drop n xs)" using assms(3,4) by (metis Un_iff set_append)
  have "sorted (map f (take n xs @ drop n xs))" using assms(1) by simp
  then have "f y \<le> f x" using x assms(5) by (simp only: map_append sorted_append) auto
  moreover have "f y \<noteq> f x"
    using assms(2-5) by (metis distinct_map in_set_takeD inj_on_contraD)
  ultimately show ?thesis by simp
qed

lemma due_items_set:
  fixes h :: host
  assumes "queue_wf q"
  defines "all \<equiv> sort_key seq_of (filter (\<lambda>it. \<not> seq_of it \<le> qu_ack q \<and> qd_next it \<le> unix_milli h) (map snd (qu_items q)))"
  shows "set all = {it. due q h it}" and "sorted (map seq_of all)" and "distinct (map seq_of all)"
proof -
  have keys: "map seq_of (map snd (qu_items q)) = map fst (qu_items q)"
    using assms(1) by (auto simp: queue_wf_def list_all_iff)
  show "set all = {it. due q h it}"
    using assms(1) by (force simp: all_def due_def queue_wf_def list_all_iff)
  show "sorted (map seq_of all)" by (simp add: all_def)
  have "distinct (map seq_of (map snd (qu_items q)))"
    using assms(1) unfolding keys by (simp add: queue_wf_def)
  then have "distinct (map seq_of (filter P (map snd (qu_items q))))" for P
    by (rule distinct_map_filter)
  then show "distinct (map seq_of all)"
    by (simp add: all_def distinct_map)
qed

lemma due_items_cases:
  "due_items q limit h =
   (let all = sort_key seq_of (filter (\<lambda>it. \<not> seq_of it \<le> qu_ack q \<and> qd_next it \<le> unix_milli h) (map snd (qu_items q)))
    in if limit > 0 \<and> int (length all) > limit then take (nat limit) all else all)"
  by (simp add: due_items_def Let_def)

lemma due_items_sorted:
  assumes "queue_inv q"
  shows "sorted_wrt (<) (map seq_of (due_items q limit h))"
proof -
  have wf: "queue_wf q" using assms by (simp add: queue_inv_def)
  define all where "all = sort_key seq_of (filter (\<lambda>it. \<not> seq_of it \<le> qu_ack q \<and> qd_next it \<le> unix_milli h) (map snd (qu_items q)))"
  have "sorted_wrt (<) (map seq_of all)"
    using due_items_set(2,3)[OF wf, of h, folded all_def] by (simp add: strict_sorted_iff)
  then show ?thesis
    by (simp add: due_items_cases Let_def all_def[symmetric] take_map[symmetric] sorted_wrt_take)
qed

lemma due_items_bounded: "0 < limit \<Longrightarrow> int (length (due_items q limit h)) \<le> limit"
  by (auto simp: due_items_cases Let_def)

text \<open>
  C6: What the flush loop sends next. \<open>DueItems\<close> returns unacknowledged items whose time has come,
  in strictly increasing sequence order and at most \<open>limit\<close> of them; an item that is due and left
  out is left out only because the batch is full of older ones.
\<close>

theorem due_items_oldest_first:
  assumes "queue_inv q"
  shows "sorted_wrt (<) (map seq_of (due_items q limit h)) \<and>
    (\<forall>it. it \<in> set (due_items q limit h) \<longrightarrow> due q h it) \<and>
    (0 < limit \<longrightarrow> int (length (due_items q limit h)) \<le> limit) \<and>
    (\<forall>it. due q h it \<longrightarrow> it \<notin> set (due_items q limit h) \<longrightarrow>
       0 < limit \<and> int (length (due_items q limit h)) = limit \<and>
       list_all (\<lambda>d. seq_of d < seq_of it) (due_items q limit h))"
proof -
  have wf: "queue_wf q" using assms by (simp add: queue_inv_def)
  define all where "all = sort_key seq_of (filter (\<lambda>it. \<not> seq_of it \<le> qu_ack q \<and> qd_next it \<le> unix_milli h) (map snd (qu_items q)))"
  note a = due_items_set[OF wf, of h, folded all_def]
  have d: "due_items q limit h = (if limit > 0 \<and> int (length all) > limit then take (nat limit) all else all)"
    by (simp add: due_items_cases all_def Let_def)
  have "sorted_wrt (<) (map seq_of (due_items q limit h))" by (rule due_items_sorted[OF assms])
  moreover have "\<forall>it. it \<in> set (due_items q limit h) \<longrightarrow> due q h it"
    using a(1) by (auto simp: d dest: in_set_takeD split: if_splits)
  moreover have "0 < limit \<longrightarrow> int (length (due_items q limit h)) \<le> limit"
    by (simp add: due_items_bounded)
  moreover have "0 < limit \<and> int (length (due_items q limit h)) = limit \<and> list_all (\<lambda>x. seq_of x < seq_of it) (due_items q limit h)"
    if "due q h it" "it \<notin> set (due_items q limit h)" for it
  proof -
    have it: "it \<in> set all" using that(1) a(1) by simp
    then have c: "limit > 0" "int (length all) > limit" "it \<notin> set (take (nat limit) all)"
      using that(2) by (auto simp: d split: if_splits)
    then show ?thesis
      using sorted_take_rest[OF a(2,3) it c(3)] by (auto simp: d list_all_iff)
  qed
  ultimately show ?thesis by blast
qed

theorem due_items_oldest_first_witness:
  "int (length (due_items (fst (snd (enqueue demo_proto no_codec (new_queue ''/q'' (Some []) bare_host) demo_env bare_host))) 8 bare_host)) \<le> 8"
proof -
  have "queue_inv (fst (snd (enqueue demo_proto no_codec (new_queue ''/q'' (Some []) bare_host) demo_env bare_host)))"
    by (rule enqueue_inv[OF new_queue_inv]) (simp add: new_queue_def)
  from due_items_oldest_first[OF this, of 8 bare_host] show ?thesis by simp
qed

text \<open>
  An acknowledgement is taken on trust. One that reaches or passes the next number to be handed
  out wedges the queue: the facts enqueued after it, up to that number, are accepted without an
  error and never become due, whatever the time and the limit.
\<close>

theorem ack_beyond_next_wedges:
  assumes "qu_next q \<le> n"
  shows "\<forall>it \<in> set (due_items (fst (snd (enqueue pr cd (fst (snd (acknowledge cd q n h))) env h1))) limit h2).
    seq_of it \<noteq> qu_next q"
proof -
  let ?q2 = "fst (snd (enqueue pr cd (fst (snd (acknowledge cd q n h))) env h1))"
  have "n \<le> qu_ack ?q2" by (simp add: enqueue_fields acknowledge_fields)
  then have "\<And>it. it \<in> set (due_items ?q2 limit h2) \<Longrightarrow> n < seq_of it"
    by (auto simp: due_items_def Let_def not_le dest!: in_set_takeD split: if_splits)
  then show ?thesis using assms(1) by fastforce
qed

theorem ack_beyond_next_wedges_witness:
  "(1 :: uint64) \<le> 9 \<and>
   1 \<notin> seq_of ` set (due_items (fst (snd (enqueue demo_proto no_codec
       (fst (snd (acknowledge no_codec (new_queue ''/q'' (Some []) bare_host) 9 bare_host))) demo_env bare_host))) 8 bare_host)"
  using ack_beyond_next_wedges[of "new_queue ''/q'' (Some []) bare_host" 9 demo_proto no_codec bare_host demo_env bare_host 8 bare_host]
  by (auto simp: new_queue_def)

text \<open>The retry delays: two to thirty seconds, never shorter than the one before.\<close>

lemma retry_delay_cases:
  "retry_delay_for_attempt n = (if n \<le> 1 then 2000000000 else if n = 2 then 5000000000 else if n = 3 then 10000000000
     else if n = 4 then 20000000000 else 30000000000)"
proof -
  have "n \<le> 1 \<or> n = 2 \<or> n = 3 \<or> n = 4 \<or> n = 5 \<or> 5 < n" by arith
  then show ?thesis
    by (elim disjE) (simp_all add: retry_delay_for_attempt_def retry_delay_schedule_def nth_Cons')
qed

end
