(* ===== verification/Outbox_Disk.thy ===== *)
theory Outbox_Disk
  imports Outbox
begin

text \<open>
  What the outbox has on disk, and that a restart finds the promise again: the meta file holds the
  position of the stream, the log every fact above it. Each operation that reports success leaves
  the two in step with the queue in memory.
\<close>

section \<open>What a log says\<close>

definition decoded :: "codec \<Rightarrow> string \<Rightarrow> queued option" where
  "decoded cd line = (if trim_space line = [] then None else dec_item cd (trim_space line))"

definition log_items :: "codec \<Rightarrow> uint64 \<Rightarrow> string \<Rightarrow> queued list" where
  "log_items cd ack s =
     filter (\<lambda>it. seq_of it \<noteq> 0 \<and> ack < seq_of it) (List.map_filter (decoded cd) (split_on newline s))"

definition add_fact :: "(uint64 \<rightharpoonup> envelope) \<Rightarrow> queued \<Rightarrow> (uint64 \<rightharpoonup> envelope)" where
  "add_fact m it = m(seq_of it \<mapsto> qd_env it)"

definition view :: "queued list \<Rightarrow> uint64 \<rightharpoonup> envelope" where
  "view its = foldl add_fact Map.empty its"

text \<open>Every line of a log that is sealed is complete.\<close>

definition sealed :: "string \<Rightarrow> bool" where
  "sealed s \<longleftrightarrow> s = [] \<or> last s = newline"

definition log_text :: "queue \<Rightarrow> host \<Rightarrow> string" where
  "log_text q h = (case file_at h (loc h (qu_log q)) of Some s \<Rightarrow> s | None \<Rightarrow> [])"

definition synced_log :: "codec \<Rightarrow> queue \<Rightarrow> host \<Rightarrow> bool" where
  "synced_log cd q h \<longleftrightarrow>
     view (log_items cd (qu_ack q) (log_text q h)) = facts q \<and>
     list_all (\<lambda>it. seq_of it < qu_next q) (log_items cd (qu_ack q) (log_text q h)) \<and> sealed (log_text q h)"

definition meta_of :: "queue \<Rightarrow> queue_meta" where
  "meta_of q = \<lparr>mt_stream = qu_stream q, mt_next = qu_next q, mt_ack = qu_ack q, mt_items = []\<rparr>"

definition synced :: "codec \<Rightarrow> queue \<Rightarrow> host \<Rightarrow> bool" where
  "synced cd q h \<longleftrightarrow> synced_log cd q h \<and> file_at h (loc h (qu_log q)) \<noteq> None \<and>
     (\<exists>raw. file_at h (loc h (qu_path q)) = Some raw \<and> dec_meta cd raw = Some (meta_of q))"

text \<open>A queue whose paths are settled and lead to three different places.\<close>

definition settled :: "queue \<Rightarrow> host \<Rightarrow> bool" where
  "settled q h \<longleftrightarrow> ensure_path h q = q \<and> qu_stream q \<noteq> [] \<and> trim_space (qu_stream q) = qu_stream q \<and>
     distinct [loc h (qu_path q), loc h (qu_log q), loc h (qu_log q @ ''.tmp'')]"

text \<open>What the code relies on of the JSON package: what it encodes is one line and decodes again.\<close>

definition codec_ok :: "codec \<Rightarrow> bool" where
  "codec_ok cd \<longleftrightarrow>
     (\<forall>it raw. enc_item cd it = Some raw \<longrightarrow>
        dec_item cd raw = Some it \<and> newline \<notin> set raw \<and> trim_space raw = raw \<and> raw \<noteq> []) \<and>
     (\<forall>m raw. enc_meta cd m = Some raw \<longrightarrow> dec_meta cd raw = Some m)"

section \<open>Reading a log\<close>

lemma admit_fields [simp]:
  "qu_ack (admit q it) = qu_ack q" "qu_stream (admit q it) = qu_stream q" "qu_path (admit q it) = qu_path q"
  "qu_log (admit q it) = qu_log q" "facts (admit q it) = add_fact (facts q) it"
  by (simp_all add: admit_def add_fact_def facts_def update_conv' fun_eq_iff)

lemma map_filter_Cons: "List.map_filter f (x # xs) = (case f x of None \<Rightarrow> List.map_filter f xs | Some y \<Rightarrow> y # List.map_filter f xs)"
  by (simp add: List.map_filter_def split: option.split)

lemma map_filter_append: "List.map_filter f (xs @ ys) = List.map_filter f xs @ List.map_filter f ys"
  by (simp add: List.map_filter_def)

lemma load_log_lines:
  "foldl (load_log_line cd) q ls =
   foldl admit q (filter (\<lambda>it. seq_of it \<noteq> 0 \<and> qu_ack q < seq_of it) (List.map_filter (decoded cd) ls))"
proof (induction ls arbitrary: q)
  case (Cons l ls)
  have "load_log_line cd q l =
    (case decoded cd l of None \<Rightarrow> q | Some it \<Rightarrow> if seq_of it \<noteq> 0 \<and> qu_ack q < seq_of it then admit q it else q)"
    by (auto simp: load_log_line_def decoded_def Let_def not_le split: option.split)
  then show ?case
    by (simp add: Cons.IH map_filter_Cons split: option.split)
qed (simp add: List.map_filter_def)

lemma foldl_admit:
  "qu_ack (foldl admit q its) = qu_ack q \<and> qu_stream (foldl admit q its) = qu_stream q \<and>
   facts (foldl admit q its) = foldl add_fact (facts q) its \<and>
   (list_all (\<lambda>it. seq_of it < qu_next q) its \<longrightarrow> qu_next (foldl admit q its) = qu_next q)"
proof (induction its arbitrary: q)
  case (Cons it its)
  have "seq_of it < qu_next q \<Longrightarrow> qu_next (admit q it) = qu_next q"
    by (simp add: admit_def not_le[symmetric])
  with Cons[of "admit q it"] show ?case by auto
qed simp

lemma ensure_path_cong:
  "qu_path a = qu_path b \<Longrightarrow> qu_path (ensure_path h a) = qu_path (ensure_path h b) \<and> qu_log (ensure_path h a) = qu_log (ensure_path h b)"
  by (simp add: ensure_path_def Let_def)

text \<open>Loading a meta file and a log that are there: the log is read into an empty queue at the position of the meta file.\<close>

lemma load_found:
  assumes "settled q h" and "faults h = []" and "0 < qu_next q"
    and "file_at h (loc h (qu_path q)) = Some raw" and "dec_meta cd raw = Some (meta_of q)" and "file_at h (loc h (qu_log q)) = Some tx"
  obtains q1 where
    "load cd (new_queue (qu_path q) rnd h) h = (None, foldl (load_log_line cd) q1 (split_on newline tx), pop_fault (pop_fault h))"
    and "facts q1 = Map.empty" and "qu_ack q1 = qu_ack q" and "qu_next q1 = qu_next q" and "qu_stream q1 = qu_stream q"
proof -
  let ?q0 = "ensure_path h (new_queue (qu_path q) rnd h)"
  have "qu_path ?q0 = qu_path (ensure_path h q) \<and> qu_log ?q0 = qu_log (ensure_path h q)"
    by (rule ensure_path_cong) (simp add: new_queue_def)
  then have p: "qu_path ?q0 = qu_path q" "qu_log ?q0 = qu_log q" using assms(1) by (simp_all add: settled_def)
  define q1 where "q1 = ?q0\<lparr>qu_stream := qu_stream q, qu_next := qu_next q, qu_ack := qu_ack q\<rparr>"
  have "load_meta cd ?q0 h = (Inr q1, pop_fault h)"
    using assms(4)[unfolded file_at_eq_Some] p assms(1-3,5)
    by (simp add: load_meta_def read_file_def Let_def fault_of_def meta_of_def settled_def q1_def)
  moreover have "load_log cd q1 (pop_fault h) = (Inr (foldl (load_log_line cd) q1 (split_on newline tx)), pop_fault (pop_fault h))"
    using assms(6)[unfolded file_at_eq_Some] p assms(2) loc_cong[of "pop_fault h" h]
    by (simp add: load_log_def read_file_def Let_def fault_of_def q1_def)
  ultimately have "load cd (new_queue (qu_path q) rnd h) h =
      (None, foldl (load_log_line cd) q1 (split_on newline tx), pop_fault (pop_fault h))"
    by (simp add: load_def Let_def)
  then show thesis by (rule that) (simp_all add: q1_def facts_def new_queue_def)
qed

lemma reload_synced:
  assumes "synced cd q h" and "settled q h" and "faults h = []" and "0 < qu_next q"
  shows "fst (load cd (new_queue (qu_path q) rnd h) h) = None \<and>
    promise_of (fst (snd (load cd (new_queue (qu_path q) rnd h) h))) = promise_of q"
proof -
  obtain raw tx where f: "file_at h (loc h (qu_path q)) = Some raw" "dec_meta cd raw = Some (meta_of q)" "file_at h (loc h (qu_log q)) = Some tx"
    using assms(1) by (auto simp: synced_def)
  obtain q1 where l: "load cd (new_queue (qu_path q) rnd h) h = (None, foldl (load_log_line cd) q1 (split_on newline tx), pop_fault (pop_fault h))"
    and q1: "facts q1 = Map.empty" "qu_ack q1 = qu_ack q" "qu_next q1 = qu_next q" "qu_stream q1 = qu_stream q"
    using load_found[OF assms(2,3,4) f] .
  have "foldl (load_log_line cd) q1 (split_on newline tx) = foldl admit q1 (log_items cd (qu_ack q) tx)"
    by (simp add: load_log_lines log_items_def q1)
  moreover have "view (log_items cd (qu_ack q) tx) = facts q" "list_all (\<lambda>it. seq_of it < qu_next q) (log_items cd (qu_ack q) tx)"
    using assms(1) f(3) by (simp_all add: synced_def synced_log_def log_text_def)
  ultimately show ?thesis
    using foldl_admit[of q1 "log_items cd (qu_ack q) tx"] l q1 by (simp add: promise_of_def view_def)
qed

section \<open>Appending to a log\<close>

lemma log_items_Nil [simp]: "log_items cd a [] = []"
  by (simp add: log_items_def List.map_filter_def decoded_def)

lemma decoded_Nil [simp]: "decoded cd [] = None"
  by (simp add: decoded_def)

lemma map_filter_decoded_snoc_Nil [simp]: "List.map_filter (decoded cd) (xs @ [[]]) = List.map_filter (decoded cd) xs"
  by (simp add: map_filter_append List.map_filter_def)

lemma split_sealed:
  assumes "sealed s" and "newline \<notin> set raw"
  shows "List.map_filter (decoded cd) (split_on newline (s @ raw @ [newline])) =
    List.map_filter (decoded cd) (split_on newline s) @ List.map_filter (decoded cd) [raw]"
proof -
  have line: "split_on newline (raw @ [newline]) = [raw] @ [[]]"
    using split_on_append_sep[OF assms(2), of "[]"] by simp
  show ?thesis
  proof (cases "s = []")
    case True
    then show ?thesis using line map_filter_decoded_snoc_Nil[of cd "[raw]"] by (simp add: List.map_filter_def)
  next
    case False
    then obtain s0 where s0: "s = s0 @ [newline]"
      using assms(1) by (metis append_butlast_last_id sealed_def)
    have "split_on newline (s @ raw @ [newline]) = split_on newline s0 @ [raw] @ [[]]"
      using split_on_append_general[of newline s0 "raw @ [newline]"] line s0 by simp
    moreover have "split_on newline s = split_on newline s0 @ [[]]"
      using split_on_append_general[of newline s0 "[]"] s0 by simp
    ultimately show ?thesis
      using map_filter_decoded_snoc_Nil[of cd "split_on newline s0 @ [raw]"]
      by (simp add: map_filter_append)
  qed
qed

lemma log_items_snoc:
  assumes "sealed s" and "codec_ok cd" and "enc_item cd it = Some raw"
  shows "log_items cd a (s @ raw @ [newline]) =
    log_items cd a s @ (if seq_of it \<noteq> 0 \<and> a < seq_of it then [it] else [])"
proof -
  have r: "newline \<notin> set raw" "decoded cd raw = Some it"
    using assms(2,3) by (auto simp: codec_ok_def decoded_def)
  show ?thesis
    unfolding log_items_def split_sealed[OF assms(1) r(1)]
    by (simp add: List.map_filter_def r(2))
qed

lemma view_snoc [simp]: "view (its @ [it]) = (view its)(seq_of it \<mapsto> qd_env it)"
  by (simp add: view_def add_fact_def)

lemma sealed_line [simp]: "sealed (s @ [newline])"
  by (simp add: sealed_def)

section \<open>Successful writes\<close>

lemma data_dir_env: "environ h1 = environ h \<Longrightarrow> data_dir h1 = data_dir h"
  by (simp add: data_dir_def user_home_dir_def getenv_def)

lemma ensure_path_env: "environ h1 = environ h \<Longrightarrow> ensure_path h1 q = ensure_path h q"
proof -
  assume "environ h1 = environ h"
  then have "data_dir h1 = data_dir h" by (rule data_dir_env)
  then show ?thesis by (simp only: ensure_path_def)
qed

lemma settled_cong:
  "settled q h \<Longrightarrow> cwd h1 = cwd h \<Longrightarrow> environ h1 = environ h \<Longrightarrow> settled q h1"
  by (simp add: settled_def loc_cong[of h1 h] ensure_path_env[of h1 h])

lemma ensure_path_id: "(ensure_path h q = q) = (qu_path (ensure_path h q) = qu_path q \<and> qu_log (ensure_path h q) = qu_log q)"
  by (cases q) (auto simp: ensure_path_def Let_def)

lemma settled_same_paths:
  "settled q h \<Longrightarrow> qu_path q1 = qu_path q \<Longrightarrow> qu_log q1 = qu_log q \<Longrightarrow> qu_stream q1 = qu_stream q \<Longrightarrow> settled q1 h"
  using ensure_path_cong[of q1 q h] ensure_path_id[of h q1] ensure_path_id[of h q] by (simp add: settled_def)

lemma append_log_ok:
  assumes "append_log cd q it h = (None, h1)"
  shows "\<exists>raw. enc_item cd it = Some raw \<and>
    file_at h1 = (file_at h)(loc h (qu_log q) \<mapsto> log_text q h @ raw @ [newline]) \<and> cwd h1 = cwd h \<and> environ h1 = environ h"
proof -
  obtain h0 where m: "mkdir_all (path_dir (qu_log q)) h = (None, h0)"
    using assms by (auto simp: append_log_def split: prod.splits option.splits)
  then obtain raw where raw: "enc_item cd it = Some raw" and w: "append_file (qu_log q) (raw @ [newline]) h0 = (None, h1)"
    using assms by (auto simp: append_log_def split: option.splits)
  show ?thesis
    using raw mkdir_all_NoneD[OF m] write_with_NoneD[OF w[unfolded append_file_def]] loc_cong[of h0 h "qu_log q"]
    by (simp add: log_text_def)
qed

lemma persist_meta_ok:
  assumes "persist_meta cd q h = (None, h1)"
  shows "\<exists>raw. enc_meta cd (meta_of q) = Some raw \<and>
    file_at h1 = (file_at h)(loc h (qu_path q) \<mapsto> raw) \<and> cwd h1 = cwd h \<and> environ h1 = environ h"
proof -
  obtain raw where raw: "enc_meta cd (meta_of q) = Some raw"
    using assms by (auto simp: persist_meta_def meta_of_def split: option.splits)
  then obtain h0 where m: "mkdir_all (path_dir (qu_path q)) h = (None, h0)" and w: "write_file (qu_path q) raw h0 = (None, h1)"
    using assms by (auto simp: persist_meta_def meta_of_def split: prod.splits option.splits)
  show ?thesis
    using raw mkdir_all_NoneD[OF m] write_with_NoneD[OF w[unfolded write_file_def]] loc_cong[of h0 h "qu_path q"]
    by (simp split: option.splits)
qed

lemma persist_meta_frame:
  "persist_meta cd q h = (r, h1) \<Longrightarrow> cwd h1 = cwd h \<and> environ h1 = environ h \<and>
    (\<forall>k. k \<noteq> loc h (qu_path q) \<longrightarrow> file_at h1 k = file_at h k)"
proof (cases "enc_meta cd (meta_of q)")
  case None
  assume "persist_meta cd q h = (r, h1)"
  with None show ?thesis by (simp add: persist_meta_def meta_of_def)
next
  case (Some raw)
  assume p: "persist_meta cd q h = (r, h1)"
  obtain r0 h0 where m: "mkdir_all (path_dir (qu_path q)) h = (r0, h0)" by fastforce
  note f = mkdir_all_NoneD[OF m]
  show ?thesis
  proof (cases r0)
    case None
    with p m Some have "write_with (\<lambda>_. []) (qu_path q) raw h0 = (r, h1)"
      by (simp add: persist_meta_def meta_of_def write_file_def)
    then show ?thesis using write_with_frame[of "\<lambda>_. []" "qu_path q" raw h0 r h1] f loc_cong[of h0 h] by simp
  next
    case (Some e)
    with p m \<open>enc_meta cd (meta_of q) = Some raw\<close> show ?thesis using f by (simp add: persist_meta_def meta_of_def)
  qed
qed

text \<open>The meta file written last makes a queue whose log is in step wholly in step.\<close>

lemma persist_meta_synced:
  assumes "persist_meta cd q h = (None, h1)" and "synced_log cd q h" and "file_at h (loc h (qu_log q)) \<noteq> None"
    and "settled q h" and "codec_ok cd"
  shows "synced cd q h1 \<and> settled q h1"
proof -
  obtain raw where p: "enc_meta cd (meta_of q) = Some raw"
    "file_at h1 = (file_at h)(loc h (qu_path q) \<mapsto> raw)" "cwd h1 = cwd h" "environ h1 = environ h"
    using persist_meta_ok[OF assms(1)] by blast
  have l: "loc h1 = loc h" using loc_cong[OF p(3)] by (simp add: fun_eq_iff)
  have ne: "loc h (qu_log q) \<noteq> loc h (qu_path q)" using assms(4) by (auto simp: settled_def)
  have "log_text q h1 = log_text q h" using l ne p(2) by (simp add: log_text_def)
  moreover have "dec_meta cd raw = Some (meta_of q)" using assms(5) p(1) by (simp add: codec_ok_def)
  ultimately show ?thesis
    using assms(2,3) settled_cong[OF assms(4) p(3,4)] l p(2) ne by (auto simp: synced_def synced_log_def)
qed

lemma foldl_add_fact_other: "\<forall>it \<in> set its. seq_of it \<noteq> s \<Longrightarrow> foldl add_fact m its s = m s"
  by (induction its arbitrary: m) (auto simp: add_fact_def)

lemma view_distinct:
  assumes "distinct (map seq_of its)" and "it \<in> set its"
  shows "view its (seq_of it) = Some (qd_env it)"
proof -
  obtain as bs where its: "its = as @ it # bs" using assms(2) by (meson split_list)
  then have "\<forall>x \<in> set bs. seq_of x \<noteq> seq_of it"
    using assms(1) by (auto simp: image_iff)
  then show ?thesis
    by (simp add: view_def its foldl_add_fact_other) (simp add: add_fact_def)
qed

lemma view_live:
  assumes "queue_wf q" and "list_all (\<lambda>(s, it). qu_ack q < s) (qu_items q)"
  shows "view (live_items q) = facts q"
proof
  fix s
  have all: "set (live_items q) = snd ` set (qu_items q)"
    using assms by (force simp: live_items_def queue_wf_def list_all_iff)
  have keys: "map seq_of (map snd (qu_items q)) = map fst (qu_items q)"
    using assms(1) by (auto simp: queue_wf_def list_all_iff)
  have "distinct (map seq_of (map snd (qu_items q)))"
    using assms(1) unfolding keys by (simp add: queue_wf_def)
  then have "distinct (map seq_of (filter P (map snd (qu_items q))))" for P
    by (rule distinct_map_filter)
  then have dist: "distinct (map seq_of (live_items q))"
    by (simp add: live_items_def distinct_map)
  show "view (live_items q) s = facts q s"
  proof (cases "map_of (qu_items q) s")
    case None
    then have "\<forall>it \<in> set (live_items q). seq_of it \<noteq> s"
      using all assms(1) by (force simp: queue_wf_def list_all_iff map_of_eq_None_iff image_iff)
    then show ?thesis using None by (simp add: view_def foldl_add_fact_other facts_def)
  next
    case (Some it)
    then have m: "(s, it) \<in> set (qu_items q)" by (rule map_of_SomeD)
    then have "seq_of it = s" using assms(1) by (auto simp: queue_wf_def list_all_iff)
    moreover have "it \<in> set (live_items q)" using all m by force
    ultimately show ?thesis using view_distinct[OF dist] Some by (auto simp: facts_def)
  qed
qed

section \<open>Enqueue\<close>

lemma enqueue_synced:
  assumes "enqueue pr cd q env h = (Inr it, q1, h1)"
    and "synced_log cd q h" and "settled q h" and "codec_ok cd" and "queue_inv q" and "qu_next q \<noteq> - 1"
  shows "synced cd q1 h1 \<and> settled q1 h1 \<and> queue_inv q1"
proof -
  have e: "ensure_path h q = q" using assms(3) by (simp add: settled_def)
  obtain h0 where a: "append_log cd q1 it h = (None, h0)" and p: "persist_meta cd q1 h0 = (None, h1)"
    and q1: "q1 = q\<lparr>qu_next := qu_next q + 1, qu_items := AList.update (seq_of it) it (qu_items q)\<rparr>"
    and s: "seq_of it = qu_next q"
    using assms(1)
    by (auto simp: enqueue_def enqueue_coalesced_def e Let_def seq_of_def fresh_item_def split: prod.splits option.splits)
  have q1': "qu_ack q1 = qu_ack q" "qu_log q1 = qu_log q" "qu_path q1 = qu_path q" "qu_stream q1 = qu_stream q"
    "qu_next q1 = qu_next q + 1" "facts q1 = (facts q)(qu_next q \<mapsto> qd_env it)"
    using s by (simp_all add: q1 facts_def update_conv' fun_eq_iff)
  have set1: "settled q1 h" by (rule settled_same_paths[OF assms(3)]) (simp_all add: q1')
  obtain raw where raw: "enc_item cd it = Some raw"
    and f0: "file_at h0 = (file_at h)(loc h (qu_log q) \<mapsto> log_text q h @ raw @ [newline])"
    and c: "cwd h0 = cwd h" "environ h0 = environ h"
    using append_log_ok[OF a] q1' by (auto simp: log_text_def)
  have l0: "loc h0 = loc h" using loc_cong[OF c(1)] by (simp add: fun_eq_iff)
  have lt: "log_text q1 h0 = log_text q h @ raw @ [newline]"
    by (simp add: log_text_def[of q1] l0 q1' f0)
  have sl: "sealed (log_text q h)" using assms(2) by (simp add: synced_log_def)
  have pos: "seq_of it \<noteq> 0" "qu_ack q < seq_of it" using assms(5) s by (auto simp: queue_inv_def)
  note items = log_items_snoc[OF sl assms(4) raw, of "qu_ack q"]
  have less: "qu_next q < qu_next q + 1" using word_less_Suc[OF assms(6)] .
  have "list_all (\<lambda>x. seq_of x < qu_next q + 1) (log_items cd (qu_ack q) (log_text q h))"
    using assms(2) less by (auto simp: synced_log_def list_all_iff)
  then have "synced_log cd q1 h0"
    using assms(2) pos less s sealed_line[of "log_text q h @ raw"]
    by (simp add: synced_log_def lt items q1')
  then have "synced cd q1 h1 \<and> settled q1 h1"
    using persist_meta_synced[OF p _ _ settled_cong[OF set1 c] assms(4)] by (simp add: l0 q1' f0)
  moreover have "q1 = fst (snd (enqueue pr cd q env h))" using assms(1) by simp
  ultimately show ?thesis using enqueue_inv[OF assms(5,6)] by simp
qed

section \<open>Compaction\<close>

fun lines_of :: "string list \<Rightarrow> string" where
  "lines_of [] = []"
| "lines_of (r # rs) = (r @ [newline]) @ lines_of rs"

lemma write_items_ok:
  assumes "write_items cd tmp its h = (None, h1)" and "file_at h (loc h tmp) = Some old"
  shows "\<exists>raws. list_all2 (\<lambda>it raw. enc_item cd it = Some raw) its raws \<and>
    file_at h1 = (file_at h)(loc h tmp \<mapsto> old @ lines_of raws) \<and> cwd h1 = cwd h \<and> environ h1 = environ h"
  using assms
proof (induction its arbitrary: h old)
  case Nil
  then show ?case by (intro exI[of _ "[]"]) (auto simp: fun_eq_iff)
next
  case (Cons it its)
  obtain raw where raw: "enc_item cd it = Some raw"
    using Cons.prems(1) by (auto split: option.splits)
  then obtain h0 where w: "append_file tmp (raw @ [newline]) h = (None, h0)" and r: "write_items cd tmp its h0 = (None, h1)"
    using Cons.prems(1) by (auto split: prod.splits option.splits)
  note f = write_with_NoneD[OF w[unfolded append_file_def]]
  have l: "loc h0 = loc h" using f by (intro loc_fun_cong) simp
  have "file_at h0 (loc h0 tmp) = Some (old @ raw @ [newline])" using f l Cons.prems(2) by simp
  note IH = Cons.IH[OF r this]
  then obtain raws where
    "list_all2 (\<lambda>it raw. enc_item cd it = Some raw) its raws"
    "file_at h1 = (file_at h0)(loc h0 tmp \<mapsto> (old @ raw @ [newline]) @ lines_of raws)" "cwd h1 = cwd h0" "environ h1 = environ h0"
    by blast
  then show ?case using raw f l by (intro exI[of _ "raw # raws"]) simp
qed

lemma log_items_lines:
  assumes "codec_ok cd" and "list_all2 (\<lambda>it raw. enc_item cd it = Some raw) its raws" and "sealed s"
  shows "log_items cd a (s @ lines_of raws) = log_items cd a s @ filter (\<lambda>it. seq_of it \<noteq> 0 \<and> a < seq_of it) its
    \<and> sealed (s @ lines_of raws)"
  using assms(2,3)
proof (induction its raws arbitrary: s rule: list_all2_induct)
  case Nil
  then show ?case by simp
next
  case (Cons it its raw raws)
  have "sealed (s @ raw @ [newline])" using sealed_line[of "s @ raw"] by simp
  from Cons.IH[OF this] log_items_snoc[OF Cons.prems assms(1) Cons.hyps(1), of a]
  show ?case by simp
qed

lemma compact_synced:
  assumes "compact cd q h = (None, q1, h1)" and "settled q h" and "codec_ok cd" and "queue_inv q"
  shows "synced cd q1 h1 \<and> settled q1 h1 \<and> queue_inv q1"
proof -
  let ?tmp = "qu_log q @ ''.tmp''"
  have q1: "q1 = q\<lparr>qu_acks := 0\<rparr>"
    using assms(1) by (auto simp: compact_def Let_def split: prod.splits option.splits)
  obtain h2 h3 h4 h5 h6 where
    m: "mkdir_all (path_dir (qu_log q)) h = (None, h2)" and w: "write_file ?tmp [] h2 = (None, h3)"
    and i: "write_items cd ?tmp (live_items q) h3 = (None, h4)" and c: "close_file ?tmp h4 = (None, h5)"
    and r: "rename ?tmp (qu_log q) h5 = (None, h6)" and p: "persist_meta cd q1 h6 = (None, h1)"
    using assms(1) by (auto simp: compact_def Let_def split: prod.splits option.splits)
  note fm = mkdir_all_NoneD[OF m]
  have l2: "loc h2 = loc h" using fm by (intro loc_fun_cong) simp
  note fw = write_with_NoneD[OF w[unfolded write_file_def]]
  have l3: "loc h3 = loc h" using fw loc_cong[of h3 h2] l2 by (simp add: fun_eq_iff)
  have t3: "file_at h3 (loc h3 ?tmp) = Some []" using fw l2 l3 by (simp split: option.split)
  obtain raws where enc: "list_all2 (\<lambda>it raw. enc_item cd it = Some raw) (live_items q) raws"
    and f4: "file_at h4 = (file_at h3)(loc h3 ?tmp \<mapsto> [] @ lines_of raws)" "cwd h4 = cwd h3" "environ h4 = environ h3"
    using write_items_ok[OF i t3] by blast
  have f5: "file_at h5 = file_at h4" "cwd h5 = cwd h4" "environ h5 = environ h4"
    using c by (auto simp: close_file_def split: if_splits)
  have l5: "loc h5 = loc h" using f5(2) f4(2) loc_cong[of h5 h3] l3 by (simp add: fun_eq_iff)
  have ne: "loc h5 ?tmp \<noteq> loc h5 (qu_log q)" using assms(2) by (auto simp: settled_def l5)
  note fr = rename_NoneD[OF r ne]
  have l6: "loc h6 = loc h" using fr loc_cong[of h6 h5] l5 by (simp add: fun_eq_iff)
  have log6: "file_at h6 (loc h (qu_log q)) = Some (lines_of raws)"
    using fr f5 f4 l5 l3 by simp
  have env6: "cwd h6 = cwd h" "environ h6 = environ h" using fr f5 f4 fw fm by simp_all
  have lt: "log_text q h6 = lines_of raws" using log6 by (simp add: log_text_def l6)
  have wf: "queue_wf q" and above: "list_all (\<lambda>(s, it). qu_ack q < s) (qu_items q)"
    using assms(4) by (auto simp: queue_inv_def list_all_iff)
  have mem: "\<And>it. it \<in> set (live_items q) \<Longrightarrow> qu_ack q < seq_of it \<and> seq_of it < qu_next q"
    using assms(4) by (fastforce simp: live_items_def queue_inv_def queue_wf_def list_all_iff)
  have nz: "\<And>it. it \<in> set (live_items q) \<Longrightarrow> seq_of it \<noteq> 0" using mem by fastforce
  have keep: "filter (\<lambda>it. seq_of it \<noteq> 0 \<and> qu_ack q < seq_of it) (live_items q) = live_items q"
    using mem nz by (simp add: filter_id_conv)
  have li: "log_items cd (qu_ack q) (lines_of raws) = live_items q \<and> sealed (lines_of raws)"
    using log_items_lines[OF assms(3) enc, of "[]" "qu_ack q"] keep by (simp add: sealed_def)
  have "synced_log cd q h6"
    using li mem view_live[OF wf above] by (simp add: synced_log_def lt list_all_iff)
  then have "synced_log cd q1 h6"
    by (simp add: synced_log_def q1 log_text_def)
  moreover have "settled q1 h6"
    by (rule settled_same_paths[OF settled_cong[OF assms(2) env6]]) (simp_all add: q1)
  ultimately have "synced cd q1 h1 \<and> settled q1 h1"
    using persist_meta_synced[OF p _ _ _ assms(3)] log6 l6 by (simp add: q1)
  then show ?thesis using assms(4) by (simp add: q1 queue_inv_def)
qed

section \<open>The other operations\<close>

lemma log_items_ack:
  "a \<le> b \<Longrightarrow> log_items cd b s = filter (\<lambda>it. b < seq_of it) (log_items cd a s)"
  by (auto simp: log_items_def intro!: filter_cong)

lemma view_filter:
  "view (filter (\<lambda>it. n < seq_of it) its) = view its |` {s. n < s}"
proof (induction its rule: rev_induct)
  case (snoc it its)
  then show ?case by (auto simp: restrict_map_def fun_eq_iff)
qed (simp add: view_def)

lemma acknowledge_synced:
  assumes "acknowledge cd q n h = (None, q1, h1)" and "n < qu_next q"
    and "synced cd q h" and "settled q h" and "codec_ok cd" and "queue_inv q"
  shows "synced cd q1 h1 \<and> settled q1 h1 \<and> queue_inv q1"
proof (cases "n \<le> qu_ack q")
  case True
  then show ?thesis using assms by (simp add: acknowledge_def)
next
  case False
  let ?q = "q\<lparr>qu_ack := n, qu_items := filter (\<lambda>(s, _). \<not> s \<le> n) (qu_items q), qu_acks := qu_acks q + 1\<rparr>"
  have inv: "queue_inv ?q"
    using assms(2,6) unfolding queue_inv_def queue_wf_def by (auto simp: list_all_iff distinct_map_filter)
  have st: "settled ?q h" by (rule settled_same_paths[OF assms(4)]) simp_all
  show ?thesis
  proof (cases "qu_items ?q = [] \<or> qu_acks ?q \<ge> queue_compact_every")
    case True
    then have "compact cd ?q h = (None, q1, h1)" using assms(1) False by (simp add: acknowledge_def Let_def)
    then show ?thesis using compact_synced[OF _ st assms(5) inv] by blast
  next
    case no: False
    have q1: "q1 = ?q" and p: "persist_meta cd ?q h = (None, h1)"
      using assms(1) False no by (auto simp: acknowledge_def Let_def split: prod.splits)
    have tx: "log_text ?q h = log_text q h" by (simp add: log_text_def)
    have items: "log_items cd n (log_text q h) = filter (\<lambda>it. n < seq_of it) (log_items cd (qu_ack q) (log_text q h))"
      using False by (intro log_items_ack) simp
    have "facts ?q = facts q |` {s. n < s}"
      by (auto simp: facts_def map_of_filter_key restrict_map_def fun_eq_iff not_le)
    then have "synced_log cd ?q h"
      using assms(3) by (auto simp: synced_def synced_log_def tx items view_filter list_all_iff)
    moreover have "file_at h (loc h (qu_log ?q)) \<noteq> None" using assms(3) by (simp add: synced_def)
    ultimately show ?thesis
      using persist_meta_synced[OF p _ _ st assms(5)] inv q1 by simp
  qed
qed

lemma synced_same:
  "synced cd q h \<Longrightarrow> facts q1 = facts q \<Longrightarrow> qu_ack q1 = qu_ack q \<Longrightarrow> qu_next q1 = qu_next q \<Longrightarrow>
   qu_stream q1 = qu_stream q \<Longrightarrow> qu_path q1 = qu_path q \<Longrightarrow> qu_log q1 = qu_log q \<Longrightarrow> synced cd q1 h"
  by (simp add: synced_def synced_log_def log_text_def meta_of_def)

lemma mark_attempt_paths:
  "qu_path (fst (snd (mark_attempt cd q s w h))) = qu_path q" "qu_log (fst (snd (mark_attempt cd q s w h))) = qu_log q"
  using mark_attempt_queue[of cd q s w h] by auto

lemma mark_attempt_synced:
  assumes "mark_attempt cd q s w h = (None, q1, h1)"
    and "synced cd q h" and "settled q h" and "codec_ok cd" and "queue_inv q"
  shows "synced cd q1 h1 \<and> settled q1 h1 \<and> queue_inv q1"
proof -
  have q1: "q1 = fst (snd (mark_attempt cd q s w h))" using assms(1) by simp
  have sy: "synced cd q1 h"
    by (rule synced_same[OF assms(2)]) (simp_all add: q1 mark_attempt_facts mark_attempt_fields mark_attempt_paths)
  have st: "settled q1 h"
    by (rule settled_same_paths[OF assms(3)]) (simp_all add: q1 mark_attempt_fields mark_attempt_paths)
  have "h1 = h \<or> persist_meta cd q1 h = (None, h1)"
    using assms(1) by (auto simp: mark_attempt_def Let_def split: option.splits prod.splits)
  then have "synced cd q1 h1 \<and> settled q1 h1"
  proof
    assume p: "persist_meta cd q1 h = (None, h1)"
    show ?thesis
      by (rule persist_meta_synced[OF p _ _ st assms(4)]) (use sy in \<open>simp_all add: synced_def\<close>)
  qed (use sy st in simp)
  then show ?thesis using mark_attempt_inv[OF assms(5), of cd s w h] q1 by simp
qed

lemma reset_synced:
  assumes "reset_pending_for_recovery pr cd q h = ((d, None), q1, h1)"
    and "synced cd q h" and "settled q h" and "codec_ok cd" and "queue_inv q"
  shows "synced cd q1 h1 \<and> settled q1 h1 \<and> queue_inv q1"
proof (cases "d = 0")
  case True
  then have "q1 = q \<and> h1 = h"
    using assms(1) by (auto simp: reset_pending_for_recovery_def Let_def split: if_splits prod.splits)
  then show ?thesis using assms by simp
next
  case False
  let ?q = "q\<lparr>qu_items := filter (\<lambda>(_, it). \<not> is_signal_item pr it) (qu_items q)\<rparr>"
  have c: "compact cd ?q h = (None, q1, h1)"
    using assms(1) False by (auto simp: reset_pending_for_recovery_def Let_def split: if_splits prod.splits)
  have "queue_inv ?q"
    using assms(5) unfolding queue_inv_def queue_wf_def by (auto simp: list_all_iff distinct_map_filter)
  moreover have "settled ?q h" by (rule settled_same_paths[OF assms(3)]) simp_all
  ultimately show ?thesis using compact_synced[OF c _ assms(4)] by blast
qed

section \<open>Runs in which every operation reports success\<close>

text \<open>The error an operation of the queue returns.\<close>

fun outcome :: "proto \<Rightarrow> codec \<Rightarrow> queue \<times> host \<Rightarrow> queue_event \<Rightarrow> go_error option" where
  "outcome pr cd (q, h) (EvEnqueue e) = (case fst (enqueue pr cd q e h) of Inl er \<Rightarrow> Some er | Inr _ \<Rightarrow> None)"
| "outcome pr cd (q, h) (EvAck n) = fst (acknowledge cd q n h)"
| "outcome pr cd (q, h) (EvMark s w) = fst (mark_attempt cd q s w h)"
| "outcome pr cd (q, h) EvReset = snd (fst (reset_pending_for_recovery pr cd q h))"
| "outcome pr cd (q, h) (EvWait d) = None"

definition durable :: "codec \<Rightarrow> queue \<times> host \<Rightarrow> bool" where
  "durable cd s \<longleftrightarrow> codec_ok cd \<and> synced cd (fst s) (snd s) \<and> settled (fst s) (snd s) \<and> queue_inv (fst s)"

lemma pass_time_same: "synced cd q (pass_time d h) = synced cd q h" "settled q (pass_time d h) = settled q h"
proof -
  have "node_at (pass_time d h) = node_at h" by (simp add: node_at_def pass_time_def fun_eq_iff)
  then have f: "file_at (pass_time d h) = file_at h" by (simp add: file_at_def fun_eq_iff)
  have l: "loc (pass_time d h) = loc h" by (rule loc_fun_cong) (simp add: pass_time_def)
  have e: "environ (pass_time d h) = environ h" by (simp add: pass_time_def)
  show "synced cd q (pass_time d h) = synced cd q h"
    by (simp add: synced_def synced_log_def log_text_def f l)
  show "settled q (pass_time d h) = settled q h"
    by (simp add: settled_def l ensure_path_env[OF e])
qed

lemma durable_step:
  assumes "durable cd s" and "queue_ok s ev" and "outcome pr cd s ev = None"
  shows "durable cd (queue_step pr cd s ev)"
proof -
  obtain q h where s: "s = (q, h)" by fastforce
  note d = assms(1)[unfolded durable_def s fst_conv snd_conv]
  show ?thesis
  proof (cases ev)
    case (EvEnqueue e)
    then obtain it q1 h1 where e: "enqueue pr cd q e h = (Inr it, q1, h1)"
      using assms(3) s by (cases "enqueue pr cd q e h") (auto split: sum.splits)
    have "synced_log cd q h" using d by (simp add: synced_def)
    then show ?thesis
      using enqueue_synced[OF e _ _ _ _ ] d assms(2) EvEnqueue s e by (simp add: durable_def)
  next
    case (EvAck n)
    obtain q1 h1 where e: "acknowledge cd q n h = (None, q1, h1)"
      using assms(3) s EvAck by (cases "acknowledge cd q n h") auto
    then show ?thesis using acknowledge_synced[OF e] d assms(2) EvAck s by (simp add: durable_def)
  next
    case (EvMark k w)
    obtain q1 h1 where e: "mark_attempt cd q k w h = (None, q1, h1)"
      using assms(3) s EvMark by (cases "mark_attempt cd q k w h") auto
    then show ?thesis using mark_attempt_synced[OF e] d EvMark s by (simp add: durable_def)
  next
    case EvReset
    obtain dd q1 h1 where e: "reset_pending_for_recovery pr cd q h = ((dd, None), q1, h1)"
      using assms(3) s EvReset by (cases "reset_pending_for_recovery pr cd q h") auto
    then show ?thesis using reset_synced[OF e] d EvReset s by (simp add: durable_def)
  next
    case (EvWait x)
    then show ?thesis using d s by (simp add: durable_def pass_time_same)
  qed
qed

interpretation outbox_disk: machine "queue_step pr cd" "\<lambda>s e. queue_ok s e \<and> outcome pr cd s e = None" "durable cd"
  by unfold_locales (auto intro: durable_step)

text \<open>
  C1: Nothing the queue accepted is lost in a restart. From the first fact on that was enqueued
  without an error, through every run in which the operations report success, a new process that
  loads the files finds the same stream, the same position, the same acknowledged prefix and
  exactly the same pending facts.
\<close>

theorem durable_across_restart:
  assumes "codec_ok cd" and "queue_inv q" and "settled q h" and "synced_log cd q h"
    and "run_ok (queue_step pr cd) (\<lambda>s e. queue_ok s e \<and> outcome pr cd s e = None) (q, h) (EvEnqueue env # es)"
    and "foldl (queue_step pr cd) (q, h) (EvEnqueue env # es) = (q1, h1)" and "faults h1 = []"
  shows "fst (load cd (new_queue (qu_path q1) rnd h1) h1) = None \<and>
    promise_of (fst (snd (load cd (new_queue (qu_path q1) rnd h1) h1))) = promise_of q1"
proof -
  let ?s = "queue_step pr cd (q, h) (EvEnqueue env)"
  have ok: "queue_ok (q, h) (EvEnqueue env)" "outcome pr cd (q, h) (EvEnqueue env) = None"
    "run_ok (queue_step pr cd) (\<lambda>s e. queue_ok s e \<and> outcome pr cd s e = None) ?s es"
    using assms(5) by simp_all
  obtain it q0 h0 where e: "enqueue pr cd q env h = (Inr it, q0, h0)"
    using ok(2) by (cases "enqueue pr cd q env h") (auto split: sum.splits)
  have "durable cd ?s"
    using enqueue_synced[OF e assms(4,3,1,2)] ok(1) assms(1) e by (simp add: durable_def)
  then have "durable cd (foldl (queue_step pr cd) ?s es)"
    using outbox_disk.run_keeps[of cd ?s pr es] ok(3) by blast
  then have "durable cd (q1, h1)" using assms(6) by simp
  then show ?thesis
    using reload_synced[of cd q1 h1 rnd] assms(7) by (simp add: durable_def queue_inv_def)
qed

text \<open>A host and a codec for concrete instances: one item, the meta file before and after it.\<close>

definition demo_item :: queued where
  "demo_item = \<lparr>qd_env = demo_env\<lparr>ev_stream := ''07'', ev_seq := 1\<rparr>, qd_retry = 0, qd_last = 0, qd_next = 0,
     qd_created = 0, qd_error = [], qd_coalesce = []\<rparr>"

definition demo_meta :: "uint64 \<Rightarrow> queue_meta" where
  "demo_meta n = \<lparr>mt_stream = ''07'', mt_next = n, mt_ack = 0, mt_items = []\<rparr>"

definition demo_codec :: codec where
  "demo_codec =
     \<lparr>enc_item = (\<lambda>it. if it = demo_item then Some ''{1}'' else
                         if it = demo_item\<lparr>qd_env := demo_env\<lparr>ev_stream := ''07'', ev_seq := 2\<rparr>\<rparr> then Some ''{2}'' else None),
      dec_item = (\<lambda>s. if s = ''{1}'' then Some demo_item else
                       if s = ''{2}'' then Some (demo_item\<lparr>qd_env := demo_env\<lparr>ev_stream := ''07'', ev_seq := 2\<rparr>\<rparr>) else None),
      enc_meta = (\<lambda>m. if m = demo_meta 2 then Some ''m2'' else if m = demo_meta 3 then Some ''m3'' else None),
      dec_meta = (\<lambda>s. if s = ''m2'' then Some (demo_meta 2) else if s = ''m3'' then Some (demo_meta 3) else None)\<rparr>"

lemma demo_codec_ok: "codec_ok demo_codec"
  by (auto simp: codec_ok_def demo_codec_def model_defs split: if_splits)

definition demo_queue :: queue where
  "demo_queue = \<lparr>qu_path = ''/q.json'', qu_log = ''/q.ndjson'', qu_stream = ''07'', qu_next = 1, qu_ack = 0,
     qu_items = [], qu_acks = 0\<rparr>"

lemma demo_queue_is_new: "demo_queue = ensure_path bare_host (new_queue ''/q.json'' (Some [7]) bare_host)"
  by (simp add: demo_queue_def ensure_path_def new_queue_def random_stream_id_def hex_def hex_digit_def model_defs char_of_def bit_0)

lemma demo_queue_good: "queue_inv demo_queue" "settled demo_queue bare_host" "synced_log cd demo_queue bare_host"
  by (simp_all add: demo_queue_def queue_inv_def queue_wf_def settled_def ensure_path_def synced_log_def
      log_text_def file_at_def view_def facts_def sealed_def model_defs fun_eq_iff)

lemma demo_enqueue:
  "enqueue demo_proto demo_codec demo_queue demo_env bare_host =
   (Inr demo_item,
    demo_queue\<lparr>qu_next := 2, qu_items := [(1, demo_item)]\<rparr>,
    bare_host\<lparr>tree := [([''q.ndjson''], File (''{1}'' @ [newline])), ([''q.json''], File ''m2'')]\<rparr>)"
  by (simp add: enqueue_def enqueue_coalesced_def ensure_path_def demo_queue_def demo_env_def demo_item_def
      fresh_item_def append_log_def persist_meta_def demo_codec_def demo_meta_def seq_of_def Let_def bare_host_def model_defs)

theorem durable_across_restart_witness:
  "codec_ok demo_codec \<and>
   promise_of (fst (snd (load demo_codec (new_queue ''/q.json'' None
       (bare_host\<lparr>tree := [([''q.ndjson''], File (''{1}'' @ [newline])), ([''q.json''], File ''m2'')]\<rparr>))
       (bare_host\<lparr>tree := [([''q.ndjson''], File (''{1}'' @ [newline])), ([''q.json''], File ''m2'')]\<rparr>)))) =
   \<lparr>pm_stream = ''07'', pm_next = 2, pm_ack = 0, pm_facts = [1 \<mapsto> demo_env\<lparr>ev_stream := ''07'', ev_seq := 1\<rparr>]\<rparr>"
proof -
  have ok: "run_ok (queue_step demo_proto demo_codec) (\<lambda>s e. queue_ok s e \<and> outcome demo_proto demo_codec s e = None)
      (demo_queue, bare_host) [EvEnqueue demo_env]"
    by (simp add: demo_enqueue) (simp add: demo_queue_def)
  have run: "foldl (queue_step demo_proto demo_codec) (demo_queue, bare_host) [EvEnqueue demo_env] =
      (demo_queue\<lparr>qu_next := 2, qu_items := [(1, demo_item)]\<rparr>,
       bare_host\<lparr>tree := [([''q.ndjson''], File (''{1}'' @ [newline])), ([''q.json''], File ''m2'')]\<rparr>)"
    by (simp add: demo_enqueue)
  have calm: "faults (bare_host\<lparr>tree := [([''q.ndjson''], File (''{1}'' @ [newline])), ([''q.json''], File ''m2'')]\<rparr>) = []"
    by simp
  show ?thesis
    using durable_across_restart[OF demo_codec_ok demo_queue_good(1,2,3) ok run calm, of None] demo_codec_ok
    by (simp add: promise_of_def demo_queue_def facts_def demo_item_def fun_eq_iff)
qed

section \<open>Where the promise breaks\<close>

text \<open>What an enqueue that reported success did to the two files.\<close>

lemma enqueue_wrote:
  assumes "enqueue pr cd q env h = (Inr it, q1, h1)" and "settled q h" and "codec_ok cd"
  obtains raw mraw where "enc_item cd it = Some raw" and "dec_meta cd mraw = Some (meta_of q1)"
    and "file_at h1 (loc h1 (qu_log q1)) = Some (log_text q h @ raw @ [newline])" and "file_at h1 (loc h1 (qu_path q1)) = Some mraw"
    and "settled q1 h1" and "qu_next q1 = qu_next q + 1" and "qu_ack q1 = qu_ack q" and "seq_of it = qu_next q"
proof -
  have e: "ensure_path h q = q" using assms(2) by (simp add: settled_def)
  obtain h0 where a: "append_log cd q1 it h = (None, h0)" and p: "persist_meta cd q1 h0 = (None, h1)"
    and q1: "q1 = q\<lparr>qu_next := qu_next q + 1, qu_items := AList.update (seq_of it) it (qu_items q)\<rparr>"
    and s: "seq_of it = qu_next q"
    using assms(1)
    by (auto simp: enqueue_def enqueue_coalesced_def e Let_def seq_of_def fresh_item_def split: prod.splits option.splits)
  have set1: "settled q1 h" by (rule settled_same_paths[OF assms(2)]) (simp_all add: q1)
  obtain raw where raw: "enc_item cd it = Some raw"
    and f0: "file_at h0 = (file_at h)(loc h (qu_log q) \<mapsto> log_text q h @ raw @ [newline])"
    and c: "cwd h0 = cwd h" "environ h0 = environ h"
    using append_log_ok[OF a] by (auto simp: log_text_def q1)
  have l0: "loc h0 = loc h" using c(1) by (rule loc_fun_cong)
  obtain mraw where mraw: "enc_meta cd (meta_of q1) = Some mraw"
    and f1: "file_at h1 = (file_at h0)(loc h (qu_path q) \<mapsto> mraw)" and c1: "cwd h1 = cwd h" "environ h1 = environ h"
    using persist_meta_ok[OF p] l0 c by (auto simp: q1)
  have l1: "loc h1 = loc h" using c1(1) by (rule loc_fun_cong)
  have "loc h (qu_log q) \<noteq> loc h (qu_path q)" using assms(2) by (auto simp: settled_def)
  then show thesis
    using f0 f1 l1 mraw raw s assms(3) settled_cong[OF set1 c1] by (intro that) (simp_all add: codec_ok_def q1)
qed

text \<open>
  C32: A torn append poisons the next one. When an earlier append stopped in the middle of a line,
  the fragment stays at the end of the log, and the next fact is written behind it on the same
  line: \<open>Enqueue\<close> reports success, but if the glued line does not decode, a restart does not find
  that fact.
\<close>

theorem torn_append_hides_next_fact:
  assumes "enqueue pr cd q env h = (Inr it, q1, h1)" and "settled q h" and "codec_ok cd"
    and "log_text q h = s @ frag" and "sealed s" and "newline \<notin> set frag"
    and "\<And>raw. enc_item cd it = Some raw \<Longrightarrow> decoded cd (frag @ raw) = None"
    and "\<And>a. list_all (\<lambda>x. seq_of x \<noteq> qu_next q) (log_items cd a s)"
    and "qu_next q \<noteq> - 1" and "faults h1 = []"
  shows "facts (fst (snd (load cd (new_queue (qu_path q1) rnd h1) h1))) (qu_next q) = None"
proof -
  obtain raw mraw where raw: "enc_item cd it = Some raw" and mt: "dec_meta cd mraw = Some (meta_of q1)"
    and f: "file_at h1 (loc h1 (qu_log q1)) = Some ((s @ frag) @ raw @ [newline])" "file_at h1 (loc h1 (qu_path q1)) = Some mraw"
    and q1: "settled q1 h1" "qu_next q1 = qu_next q + 1" "qu_ack q1 = qu_ack q"
    using enqueue_wrote[OF assms(1-3)] unfolding assms(4) by blast
  have "qu_next q + 1 \<noteq> 0"
    using assms(9) by (metis add_eq_0_iff2 add.commute minus_unique)
  then have pos: "0 < qu_next q1" using q1(2) by (simp add: word_gt_0)
  obtain q2 where l: "load cd (new_queue (qu_path q1) rnd h1) h1 =
      (None, foldl (load_log_line cd) q2 (split_on newline ((s @ frag) @ raw @ [newline])), pop_fault (pop_fault h1))"
    and q2: "facts q2 = Map.empty" "qu_ack q2 = qu_ack q1"
    using load_found[OF q1(1) assms(10) pos f(2) mt f(1)] .
  have "newline \<notin> set (frag @ raw)" using assms(3,6) raw by (auto simp: codec_ok_def)
  note sp = split_sealed[OF assms(5) this, of cd]
  have "List.map_filter (decoded cd) (split_on newline ((s @ frag) @ raw @ [newline])) =
      List.map_filter (decoded cd) (split_on newline s)"
    using sp assms(7)[OF raw] by (simp add: List.map_filter_def)
  then have "foldl (load_log_line cd) q2 (split_on newline ((s @ frag) @ raw @ [newline])) =
      foldl admit q2 (log_items cd (qu_ack q) s)"
    unfolding load_log_lines by (simp add: log_items_def q2 q1(3))
  then have "facts (fst (snd (load cd (new_queue (qu_path q1) rnd h1) h1))) =
      foldl add_fact Map.empty (log_items cd (qu_ack q) s)"
    using foldl_admit[of q2 "log_items cd (qu_ack q) s"] l q2(1) by simp
  then show ?thesis
    using assms(8)[of "qu_ack q"] by (simp add: foldl_add_fact_other list_all_iff)
qed

text \<open>The first append is cut after one byte; the second fact is reported durable and is lost.\<close>

definition torn_host :: host where
  "torn_host = bare_host\<lparr>tree := [([''q.ndjson''], File ''{'')]\<rparr>"

lemma torn_first_append:
  "enqueue demo_proto demo_codec demo_queue demo_env (bare_host\<lparr>faults := [Fine, Torn 1]\<rparr>) =
   (Inl (IOError ''/q.ndjson''), demo_queue\<lparr>qu_next := 2, qu_items := [(1, demo_item)]\<rparr>, torn_host)"
  by (simp add: enqueue_def enqueue_coalesced_def ensure_path_def demo_queue_def demo_env_def demo_item_def torn_host_def
      fresh_item_def append_log_def persist_meta_def demo_codec_def demo_meta_def seq_of_def Let_def bare_host_def model_defs)

theorem torn_append_hides_next_fact_witness:
  "fst (enqueue demo_proto demo_codec (demo_queue\<lparr>qu_next := 2, qu_items := [(1, demo_item)]\<rparr>) demo_env torn_host) =
     Inr (demo_item\<lparr>qd_env := demo_env\<lparr>ev_stream := ''07'', ev_seq := 2\<rparr>\<rparr>) \<and>
   facts (fst (snd (load demo_codec
     (new_queue ''/q.json'' (Some []) (snd (snd (enqueue demo_proto demo_codec (demo_queue\<lparr>qu_next := 2, qu_items := [(1, demo_item)]\<rparr>) demo_env torn_host))))
     (snd (snd (enqueue demo_proto demo_codec (demo_queue\<lparr>qu_next := 2, qu_items := [(1, demo_item)]\<rparr>) demo_env torn_host)))))) 2 = None"
proof -
  let ?q = "demo_queue\<lparr>qu_next := 2, qu_items := [(1, demo_item)]\<rparr>"
  let ?it = "demo_item\<lparr>qd_env := demo_env\<lparr>ev_stream := ''07'', ev_seq := 2\<rparr>\<rparr>"
  let ?h1 = "bare_host\<lparr>tree := [([''q.ndjson''], File (''{{2}'' @ [newline])), ([''q.json''], File ''m3'')]\<rparr>"
  have e: "enqueue demo_proto demo_codec ?q demo_env torn_host =
      (Inr ?it, demo_queue\<lparr>qu_next := 3, qu_items := [(1, demo_item), (2, ?it)]\<rparr>, ?h1)"
    by (simp add: enqueue_def enqueue_coalesced_def ensure_path_def demo_queue_def demo_env_def demo_item_def torn_host_def
      fresh_item_def append_log_def persist_meta_def demo_codec_def demo_meta_def seq_of_def Let_def bare_host_def model_defs)
  have st: "settled ?q torn_host"
    by (simp add: demo_queue_def settled_def ensure_path_def torn_host_def model_defs)
  have tx: "log_text ?q torn_host = [] @ ''{''"
    by (simp add: demo_queue_def log_text_def file_at_def torn_host_def model_defs)
  have d: "decoded demo_codec (''{'' @ raw) = None" if "enc_item demo_codec ?it = Some raw" for raw
  proof -
    have "raw = ''{2}''" using that by (simp add: demo_codec_def demo_item_def demo_env_def split: if_splits)
    then show ?thesis by (simp add: demo_codec_def decoded_def model_defs)
  qed
  have "facts (fst (snd (load demo_codec (new_queue (qu_path (demo_queue\<lparr>qu_next := 3, qu_items := [(1, demo_item), (2, ?it)]\<rparr>)) (Some []) ?h1) ?h1)))
      (qu_next ?q) = None"
    by (rule torn_append_hides_next_fact[OF e st demo_codec_ok tx _ _ d]) (simp_all add: sealed_def)
  then show ?thesis by (simp add: e) (simp add: demo_queue_def)
qed

text \<open>
  C34: The meta file is written in place. If its last write was cut so that it no longer decodes,
  \<open>Load\<close> returns an error before it reads the log: the process goes on with an empty queue that
  starts again at one, whatever facts the log holds.
\<close>

theorem torn_meta_hides_log:
  assumes "persist_meta cd q h = (Some e, h1)" and "enc_meta cd (meta_of q) = Some raw"
    and "fst (mkdir_all (path_dir (qu_path q)) h) = None" and "fault_of (snd (mkdir_all (path_dir (qu_path q)) h)) = Torn n"
    and "dec_meta cd (take n raw) = None" and "settled q h" and "faults h1 = []"
    and "\<not> dir_at (snd (mkdir_all (path_dir (qu_path q)) h)) (loc h (qu_path q))"
    and "dir_at (snd (mkdir_all (path_dir (qu_path q)) h)) (butlast (loc h (qu_path q)))"
  shows "fst (load cd (new_queue (qu_path q) rnd h1) h1) \<noteq> None \<and>
    facts (fst (snd (load cd (new_queue (qu_path q) rnd h1) h1))) = Map.empty \<and>
    qu_next (fst (snd (load cd (new_queue (qu_path q) rnd h1) h1))) = 1"
proof -
  obtain h0 where m: "mkdir_all (path_dir (qu_path q)) h = (None, h0)"
    using assms(3) by (cases "mkdir_all (path_dir (qu_path q)) h") simp
  note f = mkdir_all_NoneD[OF m]
  have l0: "loc h0 = loc h" using f by (intro loc_fun_cong) simp
  have "write_file (qu_path q) raw h0 = (Some e, h1)"
    using assms(1,2) m by (simp add: persist_meta_def meta_of_def)
  then have h1: "h1 = put_node (loc h (qu_path q)) (File (take n raw)) (pop_fault h0)"
    using assms(4,8,9) m l0
    by (auto simp: write_file_def write_with_def Let_def split: option.splits node.splits)
  have c1: "cwd h1 = cwd h" "environ h1 = environ h" using f h1 by simp_all
  have l1: "loc h1 = loc h" using c1(1) by (rule loc_fun_cong)
  let ?q0 = "ensure_path h1 (new_queue (qu_path q) rnd h1)"
  have "qu_path ?q0 = qu_path (ensure_path h1 q) \<and> qu_log ?q0 = qu_log (ensure_path h1 q)"
    by (rule ensure_path_cong) (simp add: new_queue_def)
  then have pth: "qu_path ?q0 = qu_path q"
    using assms(6) ensure_path_env[OF c1(2), of q] by (simp add: settled_def)
  have "node_at h1 (loc h1 (qu_path q)) = Some (File (take n raw))" by (simp only: l1) (simp add: h1)
  then have "load_meta cd ?q0 h1 = (Inl (Msg ''invalid character''), pop_fault h1)"
    using pth assms(5,7) by (simp add: load_meta_def read_file_def Let_def fault_of_def)
  then show ?thesis by (simp add: load_def Let_def) (simp add: facts_def new_queue_def)
qed

theorem torn_meta_hides_log_witness:
  "facts (fst (snd (load demo_codec (new_queue ''/q.json'' (Some [])
      (bare_host\<lparr>tree := [([''q.ndjson''], File (''{1}'' @ [newline])), ([''q.json''], File ''m'')]\<rparr>))
      (bare_host\<lparr>tree := [([''q.ndjson''], File (''{1}'' @ [newline])), ([''q.json''], File ''m'')]\<rparr>)))) = Map.empty"
proof -
  let ?q = "demo_queue\<lparr>qu_next := 2\<rparr>"
  let ?h = "bare_host\<lparr>tree := [([''q.ndjson''], File (''{1}'' @ [newline]))], faults := [Fine, Torn 1]\<rparr>"
  let ?h1 = "bare_host\<lparr>tree := [([''q.ndjson''], File (''{1}'' @ [newline])), ([''q.json''], File ''m'')]\<rparr>"
  have p: "persist_meta demo_codec ?q ?h = (Some (IOError ''/q.json''), ?h1)"
    by (simp add: persist_meta_def demo_queue_def demo_codec_def demo_meta_def Let_def bare_host_def model_defs)
  have en: "enc_meta demo_codec (meta_of ?q) = Some ''m2''"
    by (simp add: demo_queue_def demo_codec_def demo_meta_def meta_of_def)
  have st: "settled ?q ?h" by (simp add: demo_queue_def settled_def ensure_path_def model_defs)
  have m: "mkdir_all (path_dir (qu_path ?q)) ?h = (None, ?h\<lparr>faults := [Torn 1]\<rparr>)"
    by (simp add: demo_queue_def bare_host_def Let_def model_defs)
  have "fst (mkdir_all (path_dir (qu_path ?q)) ?h) = None" "fault_of (snd (mkdir_all (path_dir (qu_path ?q)) ?h)) = Torn 1"
    "\<not> dir_at (snd (mkdir_all (path_dir (qu_path ?q)) ?h)) (loc ?h (qu_path ?q))"
    "dir_at (snd (mkdir_all (path_dir (qu_path ?q)) ?h)) (butlast (loc ?h (qu_path ?q)))"
    unfolding m by (simp_all add: fault_of_def demo_queue_def model_defs)
  note t = torn_meta_hides_log[OF p en this(1,2) _ st _ this(3,4), of "Some []"]
  have "dec_meta demo_codec (take 1 ''m2'') = None" "faults ?h1 = []" "qu_path ?q = ''/q.json''"
    by (simp_all add: demo_codec_def demo_queue_def)
  with t show ?thesis by simp
qed

end
