(* ===== verification/Inbox.thy ===== *)
theory Inbox
  imports Protocol Sandbox
begin

text \<open>
  \<open>internal/agent/command\_inbox.go\<close>: the receipts of the commands the agent has handled, kept so
  that a command the API sends again is answered and not carried out twice. At most 256 receipts
  are kept and the oldest one goes first. The code ranges over its map in an arbitrary order, which
  is the parameter \<open>visit\<close>; the JSON form of the file, which holds the protocol's result, is the
  parameter \<open>receipt_codec\<close>.
\<close>

section \<open>Data\<close>

record receipt =
  rc_id :: string
  rc_status :: string
  rc_result :: command_result
  rc_updated :: int

record inbox =
  ib_path :: path
  ib_items :: "(string \<times> receipt) list"

record receipt_codec =
  enc_receipts :: "receipt list \<Rightarrow> string option"
  dec_receipts :: "string \<Rightarrow> receipt list option"

type_synonym visit = "(string \<times> receipt) list \<Rightarrow> (string \<times> receipt) list"

definition command_inbox_cap :: nat where "command_inbox_cap = 256"

definition no_result :: command_result where
  "no_result = \<lparr>cr_id = [], cr_success = False, cr_error = [], cr_logs = [], cr_payload = []\<rparr>"

section \<open>Operations\<close>

definition inbox_ensure_path :: "host \<Rightarrow> inbox \<Rightarrow> inbox" where
  "inbox_ensure_path h ib =
     (if trim_space (ib_path ib) \<noteq> [] then ib
      else ib\<lparr>ib_path := path_join [data_dir h, ''agent-command-inbox.json'']\<rparr>)"

definition load_receipts :: "receipt list \<Rightarrow> (string \<times> receipt) list" where
  "load_receipts its = foldl (\<lambda>m r. if trim_space (rc_id r) = [] then m else AList.update (rc_id r) r m) [] its"

definition inbox_load :: "receipt_codec \<Rightarrow> inbox \<Rightarrow> host \<Rightarrow> go_error option \<times> inbox \<times> host" where
  "inbox_load rcd ib0 h =
     (let ib = inbox_ensure_path h ib0 in
      case read_file (ib_path ib) h of
        (Inl e, h1) \<Rightarrow> ((if is_not_exist e then None else Some e), ib, h1)
      | (Inr raw, h1) \<Rightarrow>
          (case dec_receipts rcd raw of
             None \<Rightarrow> (Some (Msg ''invalid character''), ib, h1)
           | Some its \<Rightarrow> (None, ib\<lparr>ib_items := load_receipts its\<rparr>, h1)))"

definition new_command_inbox :: "receipt_codec \<Rightarrow> path \<Rightarrow> host \<Rightarrow> inbox \<times> host" where
  "new_command_inbox rcd p h = snd (inbox_load rcd \<lparr>ib_path = p, ib_items = []\<rparr> h)"

definition inbox_get :: "inbox \<Rightarrow> string \<Rightarrow> receipt option" where
  "inbox_get ib cid = map_of (ib_items ib) (trim_space cid)"

definition inbox_persist :: "receipt_codec \<Rightarrow> visit \<Rightarrow> inbox \<Rightarrow> host \<Rightarrow> go_error option \<times> inbox \<times> host" where
  "inbox_persist rcd visit ib0 h =
     (let ib = inbox_ensure_path h ib0 in
      case enc_receipts rcd (map snd (visit (ib_items ib))) of
        None \<Rightarrow> (Some (Msg ''json: unsupported value''), ib, h)
      | Some raw \<Rightarrow>
          (case mkdir_all (path_dir (ib_path ib)) h of
             (Some e, h1) \<Rightarrow> (Some e, ib, h1)
           | (None, h1) \<Rightarrow> (let (r, h2) = write_file (ib_path ib) raw h1 in (r, ib, h2))))"

definition oldest_step :: "string \<times> int \<Rightarrow> string \<times> receipt \<Rightarrow> string \<times> int" where
  "oldest_step o' p =
     (if fst o' = [] \<or> rc_updated (snd p) < snd o' then (fst p, rc_updated (snd p)) else o')"

definition oldest :: "(string \<times> receipt) list \<Rightarrow> string" where
  "oldest its = fst (foldl oldest_step ([], 0) its)"

definition evict :: "visit \<Rightarrow> (string \<times> receipt) list \<Rightarrow> (string \<times> receipt) list" where
  "evict visit its =
     (if command_inbox_cap < length its then filter (\<lambda>(k, _). k \<noteq> oldest (visit its)) its else its)"

definition inbox_upsert :: "receipt_codec \<Rightarrow> visit \<Rightarrow> inbox \<Rightarrow> receipt \<Rightarrow> host \<Rightarrow> inbox \<times> host" where
  "inbox_upsert rcd visit ib r h =
     (if trim_space (rc_id r) = [] then (ib, h)
      else snd (inbox_persist rcd visit (ib\<lparr>ib_items := evict visit (AList.update (rc_id r) r (ib_items ib))\<rparr>) h))"

definition running_receipt :: "string \<Rightarrow> host \<Rightarrow> receipt" where
  "running_receipt cid h =
     \<lparr>rc_id = trim_space cid, rc_status = ''running'', rc_result = no_result, rc_updated = unix_milli h\<rparr>"

definition result_receipt :: "command_result \<Rightarrow> host \<Rightarrow> receipt" where
  "result_receipt res h =
     \<lparr>rc_id = trim_space (cr_id res), rc_status = (if cr_success res then ''succeeded'' else ''failed''),
      rc_result = res, rc_updated = unix_milli h\<rparr>"

definition mark_running :: "receipt_codec \<Rightarrow> visit \<Rightarrow> inbox \<Rightarrow> string \<Rightarrow> host \<Rightarrow> inbox \<times> host" where
  "mark_running rcd visit ib cid h = inbox_upsert rcd visit ib (running_receipt cid h) h"

definition mark_result :: "receipt_codec \<Rightarrow> visit \<Rightarrow> inbox \<Rightarrow> command_result \<Rightarrow> host \<Rightarrow> inbox \<times> host" where
  "mark_result rcd visit ib res h = inbox_upsert rcd visit ib (result_receipt res h) h"

section \<open>The oldest receipt\<close>

text \<open>A range over a map visits every entry once, in some order.\<close>

definition visits :: "visit \<Rightarrow> bool" where
  "visits v \<longleftrightarrow> (\<forall>xs. set (v xs) = set xs)"

lemma visits_id [simp]: "visits (\<lambda>xs. xs)"
  by (simp add: visits_def)

lemma foldl_oldest:
  assumes "fst o' \<noteq> []" and "\<forall>p \<in> set its. fst p \<noteq> []"
  shows "fst (foldl oldest_step o' its) \<noteq> [] \<and>
    (foldl oldest_step o' its = o' \<or> (\<exists>p \<in> set its. foldl oldest_step o' its = (fst p, rc_updated (snd p)))) \<and>
    snd (foldl oldest_step o' its) \<le> snd o' \<and>
    (\<forall>p \<in> set its. snd (foldl oldest_step o' its) \<le> rc_updated (snd p))"
  using assms
proof (induction its arbitrary: o')
  case (Cons p its)
  have ne: "fst (oldest_step o' p) \<noteq> []" using Cons.prems by (simp add: oldest_step_def)
  from Cons.IH[OF ne] Cons.prems show ?case
    by (auto simp: oldest_step_def split: if_splits)
qed simp

lemma oldest_is_oldest:
  assumes "its \<noteq> []" and "\<forall>p \<in> set its. fst p \<noteq> []"
  shows "\<exists>r. (oldest its, r) \<in> set its \<and> (\<forall>p \<in> set its. rc_updated r \<le> rc_updated (snd p))"
proof -
  obtain p ps where its: "its = p # ps" using assms(1) by (cases its) auto
  let ?o = "(fst p, rc_updated (snd p))"
  have eq: "foldl oldest_step ([], 0) its = foldl oldest_step ?o ps"
    by (simp add: its oldest_step_def)
  note f = foldl_oldest[of ?o ps]
  have "foldl oldest_step ?o ps = ?o \<or> (\<exists>q \<in> set ps. foldl oldest_step ?o ps = (fst q, rc_updated (snd q)))"
    using f assms(2) its by simp
  then obtain q where q: "q \<in> set its" "foldl oldest_step ([], 0) its = (fst q, rc_updated (snd q))"
    using its eq by (metis list.set_intros(1) list.set_intros(2))
  moreover have "\<forall>x \<in> set its. rc_updated (snd q) \<le> rc_updated (snd x)"
  proof -
    have "snd (foldl oldest_step ?o ps) = rc_updated (snd q)" using q(2) eq by simp
    then show ?thesis using f assms(2) its by simp
  qed
  ultimately show ?thesis by (auto simp: oldest_def intro!: exI[of _ "snd q"])
qed

section \<open>The invariant\<close>

definition inbox_inv :: "inbox \<Rightarrow> bool" where
  "inbox_inv ib \<longleftrightarrow> distinct (map fst (ib_items ib)) \<and> length (ib_items ib) \<le> command_inbox_cap \<and>
     list_all (\<lambda>(k, r). k = rc_id r \<and> trim_space k \<noteq> []) (ib_items ib)"

lemma inbox_ensure_path_items [simp]: "ib_items (inbox_ensure_path h ib) = ib_items ib"
  by (simp add: inbox_ensure_path_def)

lemma inbox_persist_items [simp]: "ib_items (fst (snd (inbox_persist rcd v ib h))) = ib_items ib"
  by (simp add: inbox_persist_def Let_def split: option.split prod.split)

lemma inbox_upsert_items:
  "ib_items (fst (inbox_upsert rcd v ib r h)) =
   (if trim_space (rc_id r) = [] then ib_items ib else evict v (AList.update (rc_id r) r (ib_items ib)))"
  by (simp add: inbox_upsert_def)

lemma length_AList_update: "length (AList.update k v xs) \<le> Suc (length xs)"
  by (induction xs) auto

lemma set_AList_update_subset: "set (AList.update k v xs) \<subseteq> insert (k, v) (set xs)"
  by (induction xs) auto

lemma filter_out_key:
  assumes "distinct (map fst xs)" and "(k, v) \<in> set xs"
  shows "Suc (length (filter (\<lambda>(q, _). q \<noteq> k) xs)) = length xs"
proof -
  obtain as bs where xs: "xs = as @ (k, v) # bs" using assms(2) by (meson split_list)
  then have "\<forall>p \<in> set as. fst p \<noteq> k" "\<forall>p \<in> set bs. fst p \<noteq> k" using assms(1) by (auto simp: image_iff)
  then have "filter (\<lambda>(q, _). q \<noteq> k) as = as" "filter (\<lambda>(q, _). q \<noteq> k) bs = bs"
    by (auto simp: filter_id_conv)
  then show ?thesis by (simp add: xs)
qed

lemma keys_nonblank: "list_all (\<lambda>(k, r). k = rc_id r \<and> trim_space k \<noteq> []) xs \<Longrightarrow> \<forall>p \<in> set xs. fst p \<noteq> []"
  by (auto simp: list_all_iff)

lemma evict_inv:
  assumes "visits v" and "distinct (map fst xs)" and "length xs \<le> Suc command_inbox_cap"
    and "list_all (\<lambda>(k, r). k = rc_id r \<and> trim_space k \<noteq> []) xs"
  shows "distinct (map fst (evict v xs)) \<and> length (evict v xs) \<le> command_inbox_cap \<and>
    list_all (\<lambda>(k, r). k = rc_id r \<and> trim_space k \<noteq> []) (evict v xs)"
proof (cases "command_inbox_cap < length xs")
  case True
  then have "xs \<noteq> []" by auto
  then have ne: "v xs \<noteq> []" using assms(1) by (metis set_empty visits_def)
  have "\<forall>p \<in> set (v xs). fst p \<noteq> []" using assms(1) keys_nonblank[OF assms(4)] by (simp add: visits_def)
  from oldest_is_oldest[OF ne this] obtain r where "(oldest (v xs), r) \<in> set xs"
    using assms(1) by (auto simp: visits_def)
  then have "Suc (length (evict v xs)) = length xs"
    using filter_out_key[OF assms(2)] True by (simp add: evict_def)
  then show ?thesis using assms(2-4) True
    by (auto simp: evict_def distinct_map_filter list_all_iff)
qed (use assms in \<open>simp add: evict_def\<close>)

lemma inbox_upsert_inv:
  assumes "inbox_inv ib" and "visits v"
  shows "inbox_inv (fst (inbox_upsert rcd v ib r h))"
proof (cases "trim_space (rc_id r) = []")
  case True
  then show ?thesis using assms by (simp add: inbox_upsert_def)
next
  case False
  have "list_all (\<lambda>(k, r). k = rc_id r \<and> trim_space k \<noteq> []) (AList.update (rc_id r) r (ib_items ib))"
    using assms(1) False set_AList_update_subset[of "rc_id r" r "ib_items ib"]
    by (auto simp: inbox_inv_def list_all_iff)
  moreover have "length (AList.update (rc_id r) r (ib_items ib)) \<le> Suc command_inbox_cap"
    using assms(1) length_AList_update[of "rc_id r" r "ib_items ib"] by (simp add: inbox_inv_def)
  moreover have "distinct (map fst (AList.update (rc_id r) r (ib_items ib)))"
    using assms(1) by (simp add: inbox_inv_def distinct_update)
  ultimately show ?thesis
    using evict_inv[OF assms(2)] False by (simp add: inbox_inv_def inbox_upsert_items)
qed

datatype inbox_event = MarkRunning string | MarkResult command_result | InboxWait int

definition inbox_step :: "receipt_codec \<Rightarrow> visit \<Rightarrow> inbox \<times> host \<Rightarrow> inbox_event \<Rightarrow> inbox \<times> host" where
  "inbox_step rcd v s e =
     (case e of
        MarkRunning c \<Rightarrow> mark_running rcd v (fst s) c (snd s)
      | MarkResult r \<Rightarrow> mark_result rcd v (fst s) r (snd s)
      | InboxWait d \<Rightarrow> (fst s, pass_time d (snd s)))"

interpretation command_inbox: machine "inbox_step rcd v" "\<lambda>s e. visits v" "\<lambda>s. inbox_inv (fst s)"
  by unfold_locales
    (simp add: inbox_step_def mark_running_def mark_result_def inbox_upsert_inv split: inbox_event.split)

lemma inbox_get_upsert:
  assumes "trim_space (rc_id r) = rc_id r" and "rc_id r \<noteq> []"
  shows "inbox_get (fst (inbox_upsert rcd v ib r h)) k =
    map_of (evict v (AList.update (rc_id r) r (ib_items ib))) (trim_space k)"
  using assms by (simp add: inbox_get_def inbox_upsert_items)

lemma map_of_filter_fst: "map_of (filter (\<lambda>(q, _). P q) xs) k = (if P k then map_of xs k else None)"
  by (induction xs) auto

lemma map_of_evict:
  "map_of (evict v xs) k = (if command_inbox_cap < length xs \<and> k = oldest (v xs) then None else map_of xs k)"
  by (auto simp: evict_def map_of_filter_fst)

text \<open>
  C10: The inbox forgets only its oldest receipt. After a receipt is stored, looking up any command
  finds what was stored last for it, unless the inbox was full and that receipt was the one it gave
  up, in which case no receipt it held is older.
\<close>

theorem inbox_forgets_only_oldest:
  assumes "inbox_inv ib" and "visits v" and "trim_space (rc_id r) = rc_id r" and "rc_id r \<noteq> []"
    and "((map_of (ib_items ib))(rc_id r \<mapsto> r)) (trim_space k) = Some r'"
  shows "inbox_get (fst (inbox_upsert rcd v ib r h)) k = Some r' \<or>
    (inbox_get (fst (inbox_upsert rcd v ib r h)) k = None \<and> length (ib_items ib) = command_inbox_cap \<and>
     (\<forall>x \<in> set (AList.update (rc_id r) r (ib_items ib)). rc_updated r' \<le> rc_updated (snd x)))"
proof -
  let ?xs = "AList.update (rc_id r) r (ib_items ib)"
  have m: "map_of ?xs (trim_space k) = Some r'" using assms(5) by (simp add: update_conv')
  note g = inbox_get_upsert[OF assms(3,4), of rcd v ib h k]
  show ?thesis
  proof (cases "command_inbox_cap < length ?xs \<and> trim_space k = oldest (v ?xs)")
    case False
    then show ?thesis using g m by (auto simp: map_of_evict)
  next
    case True
    have len: "length (ib_items ib) = command_inbox_cap"
      using True assms(1) length_AList_update[of "rc_id r" r "ib_items ib"] by (simp add: inbox_inv_def)
    have "?xs \<noteq> []" using True by auto
    then have ne: "v ?xs \<noteq> []" using assms(2) by (metis set_empty visits_def)
    have "\<forall>p \<in> set ?xs. fst p \<noteq> []"
    proof -
      have "\<forall>p \<in> set (ib_items ib). fst p \<noteq> []"
        using assms(1) by (intro keys_nonblank) (simp add: inbox_inv_def)
      then show ?thesis
        using assms(4) set_AList_update_subset[of "rc_id r" r "ib_items ib"] by fastforce
    qed
    then have "\<forall>p \<in> set (v ?xs). fst p \<noteq> []" using assms(2) by (simp add: visits_def)
    from oldest_is_oldest[OF ne this] obtain x where x: "(oldest (v ?xs), x) \<in> set ?xs" "\<forall>p \<in> set ?xs. rc_updated x \<le> rc_updated (snd p)"
      using assms(2) by (auto simp: visits_def)
    have "distinct (map fst ?xs)" using assms(1) by (simp add: inbox_inv_def distinct_update)
    then have "map_of ?xs (oldest (v ?xs)) = Some x" using x(1) by (rule map_of_is_SomeI)
    then have "x = r'" using m True by simp
    then show ?thesis using g True len x(2) by (simp add: map_of_evict)
  qed
qed

theorem inbox_forgets_only_oldest_witness:
  "inbox_get (fst (inbox_upsert \<lparr>enc_receipts = (\<lambda>_. None), dec_receipts = (\<lambda>_. None)\<rparr> rev \<lparr>ib_path = ''/i'', ib_items = []\<rparr>
     \<lparr>rc_id = ''c1'', rc_status = ''running'', rc_result = no_result, rc_updated = 5\<rparr> bare_host)) '' c1 '' =
   Some \<lparr>rc_id = ''c1'', rc_status = ''running'', rc_result = no_result, rc_updated = 5\<rparr>"
proof -
  let ?r = "\<lparr>rc_id = ''c1'', rc_status = ''running'', rc_result = no_result, rc_updated = 5\<rparr>"
  have i: "inbox_inv \<lparr>ib_path = ''/i'', ib_items = []\<rparr>" by (simp add: inbox_inv_def)
  have v: "visits rev" by (simp add: visits_def)
  have t: "trim_space (rc_id ?r) = rc_id ?r" "rc_id ?r \<noteq> []" by (simp_all add: model_defs)
  have k: "((map_of (ib_items \<lparr>ib_path = ''/i'', ib_items = []\<rparr>))(rc_id ?r \<mapsto> ?r)) (trim_space '' c1 '') = Some ?r"
    by (simp add: model_defs)
  show ?thesis
    using inbox_forgets_only_oldest[OF i v t k, of "\<lparr>enc_receipts = (\<lambda>_. None), dec_receipts = (\<lambda>_. None)\<rparr>" bare_host]
    by (simp add: command_inbox_cap_def)
qed

section \<open>Restart\<close>

definition receipt_codec_ok :: "receipt_codec \<Rightarrow> bool" where
  "receipt_codec_ok rcd \<longleftrightarrow> (\<forall>rs raw. enc_receipts rcd rs = Some raw \<longrightarrow> dec_receipts rcd raw = Some rs)"

lemma load_receipts_snoc:
  "map_of (load_receipts (its @ [r])) =
   (if trim_space (rc_id r) = [] then map_of (load_receipts its) else (map_of (load_receipts its))(rc_id r \<mapsto> r))"
  by (simp add: load_receipts_def update_conv')

lemma load_receipts_sound:
  "map_of (load_receipts its) k = Some r \<Longrightarrow> r \<in> set its \<and> rc_id r = k"
  by (induction its rule: rev_induct)
    (auto simp: load_receipts_snoc load_receipts_def[of "[]"] split: if_splits)

lemma load_receipts_complete:
  "r \<in> set its \<Longrightarrow> trim_space (rc_id r) \<noteq> [] \<Longrightarrow> map_of (load_receipts its) (rc_id r) \<noteq> None"
  by (induction its rule: rev_induct) (auto simp: load_receipts_snoc)

lemma load_receipts_all:
  assumes "distinct (map fst xs)" and "list_all (\<lambda>(k, r). k = rc_id r \<and> trim_space k \<noteq> []) xs" and "set ys = set xs"
  shows "map_of (load_receipts (map snd ys)) = map_of xs"
proof (rule ext, rule option_ext, rule allI, rule iffI)
  fix k r
  assume "map_of (load_receipts (map snd ys)) k = Some r"
  from load_receipts_sound[OF this] have "(k, r) \<in> set xs"
    using assms(2,3) by (auto simp: list_all_iff)
  then show "map_of xs k = Some r" using assms(1) by (simp add: map_of_is_SomeI)
next
  fix k r
  assume "map_of xs k = Some r"
  then have m: "(k, r) \<in> set xs" by (rule map_of_SomeD)
  then have k: "k = rc_id r" "trim_space (rc_id r) \<noteq> []" using assms(2) by (auto simp: list_all_iff)
  have "r \<in> set (map snd ys)" using m assms(3) by force
  from load_receipts_complete[OF this k(2)] obtain r' where r': "map_of (load_receipts (map snd ys)) (rc_id r) = Some r'"
    by auto
  from load_receipts_sound[OF this] have "(rc_id r, r') \<in> set xs"
    using assms(2,3) by (auto simp: list_all_iff)
  then have "r' = r" using m k(1) assms(1) by (metis map_of_is_SomeI option.inject)
  then show "map_of (load_receipts (map snd ys)) k = Some r" using r' k(1) by simp
qed

text \<open>
  Receipts survive a restart. When the inbox could write its file, a process that loads the
  same path finds every receipt the inbox held, so a command handled before the restart is still
  recognised after it.
\<close>

theorem receipts_survive_restart:
  assumes "inbox_inv ib" and "visits v" and "receipt_codec_ok rcd"
    and "inbox_persist rcd v ib h = (None, ib1, h1)" and "faults h1 = []" and "trim_space (ib_path ib) \<noteq> []"
  shows "inbox_get (fst (new_command_inbox rcd (ib_path ib) h1)) c = inbox_get ib c"
proof -
  have e: "inbox_ensure_path h' \<lparr>ib_path = ib_path ib, ib_items = x\<rparr> = \<lparr>ib_path = ib_path ib, ib_items = x\<rparr>" for h' x
    using assms(6) by (simp add: inbox_ensure_path_def)
  have e1: "inbox_ensure_path h ib = ib" using assms(6) by (simp add: inbox_ensure_path_def)
  obtain raw where raw: "enc_receipts rcd (map snd (v (ib_items ib))) = Some raw"
    using assms(4) by (auto simp: inbox_persist_def e1 split: option.splits)
  then obtain h0 where m: "mkdir_all (path_dir (ib_path ib)) h = (None, h0)" and w: "write_file (ib_path ib) raw h0 = (None, h1)"
    using assms(4) by (auto simp: inbox_persist_def e1 split: option.splits prod.splits)
  note f = mkdir_all_NoneD[OF m] write_with_NoneD[OF w[unfolded write_file_def]]
  have "cwd h1 = cwd h0" using f(2) by blast
  then have "file_at h1 (loc h1 (ib_path ib)) = Some raw"
    using f(2) loc_cong[of h1 h0 "ib_path ib"] by (simp split: option.split)
  then have "read_file (ib_path ib) h1 = (Inr raw, pop_fault h1)"
    using assms(5) by (simp add: read_file_def Let_def fault_of_def file_at_eq_Some)
  moreover have "dec_receipts rcd raw = Some (map snd (v (ib_items ib)))"
    using assms(3) raw by (simp add: receipt_codec_ok_def)
  ultimately have "ib_items (fst (new_command_inbox rcd (ib_path ib) h1)) = load_receipts (map snd (v (ib_items ib)))"
    by (simp add: new_command_inbox_def inbox_load_def e Let_def)
  moreover have "map_of (load_receipts (map snd (v (ib_items ib)))) = map_of (ib_items ib)"
    using assms(1,2) by (intro load_receipts_all) (simp_all add: inbox_inv_def visits_def)
  ultimately show ?thesis by (simp add: inbox_get_def)
qed

definition demo_receipt :: receipt where
  "demo_receipt = \<lparr>rc_id = ''c1'', rc_status = ''running'', rc_result = no_result, rc_updated = 5\<rparr>"

definition demo_receipt_codec :: receipt_codec where
  "demo_receipt_codec =
     \<lparr>enc_receipts = (\<lambda>rs. if rs = [demo_receipt] then Some ''[c1]'' else None),
      dec_receipts = (\<lambda>s. if s = ''[c1]'' then Some [demo_receipt] else None)\<rparr>"

theorem receipts_survive_restart_witness:
  "inbox_get (fst (new_command_inbox demo_receipt_codec ''/i'' (bare_host\<lparr>tree := [([''i''], File ''[c1]'')]\<rparr>))) ''c1'' = Some demo_receipt"
proof -
  let ?ib = "\<lparr>ib_path = ''/i'', ib_items = [(''c1'', demo_receipt)]\<rparr>"
  let ?h1 = "bare_host\<lparr>tree := [([''i''], File ''[c1]'')]\<rparr>"
  have i: "inbox_inv ?ib" by (simp add: inbox_inv_def command_inbox_cap_def demo_receipt_def model_defs)
  have c: "receipt_codec_ok demo_receipt_codec" by (simp add: receipt_codec_ok_def demo_receipt_codec_def)
  have p: "inbox_persist demo_receipt_codec (\<lambda>xs. xs) ?ib bare_host = (None, ?ib, ?h1)"
    by (simp add: inbox_persist_def inbox_ensure_path_def demo_receipt_codec_def Let_def bare_host_def model_defs)
  have "inbox_get (fst (new_command_inbox demo_receipt_codec (ib_path ?ib) ?h1)) ''c1'' = inbox_get ?ib ''c1''"
    by (rule receipts_survive_restart[OF i visits_id c p]) (simp_all add: model_defs)
  then show ?thesis by (simp add: inbox_get_def model_defs)
qed

end
