(* ===== verification/Logging.thy ===== *)
theory Logging
  imports Host
begin

text \<open>
  \<open>internal/logging\<close> and \<open>internal/shell\<close>: the leveled logger, the transcript an operation returns
  to the dashboard, and the process runner that writes into it. A logger is the lines it wrote and
  its threshold; mutexes and the choice between an explicit sink and the standard one are left out.
\<close>

section \<open>Levels (logger.go)\<close>

datatype level = LevelDebug | LevelInfo | LevelWarn | LevelError

fun level_value :: "level \<Rightarrow> int" where
  "level_value LevelDebug = 0"
| "level_value LevelInfo = 1"
| "level_value LevelWarn = 2"
| "level_value LevelError = 3"

lemma level_value_inj: "level_value a = level_value b \<Longrightarrow> a = b"
  by (cases a; cases b) simp_all

instantiation level :: linorder
begin

definition less_eq_level :: "level \<Rightarrow> level \<Rightarrow> bool" where
  "less_eq_level a b \<longleftrightarrow> level_value a \<le> level_value b"

definition less_level :: "level \<Rightarrow> level \<Rightarrow> bool" where
  "less_level a b \<longleftrightarrow> level_value a < level_value b"

instance
  by standard (auto simp: less_eq_level_def less_level_def intro: level_value_inj)

end

fun tag :: "level \<Rightarrow> string" where
  "tag LevelDebug = ''[debug]''"
| "tag LevelWarn = ''[warn]''"
| "tag LevelError = ''[error]''"
| "tag LevelInfo = ''[info]''"

definition parse_level :: "string \<Rightarrow> level \<Rightarrow> level" where
  "parse_level value fallback =
     (let v = to_lower (trim_space value) in
      if v \<in> {''debug'', ''verbose'', ''trace''} then LevelDebug
      else if v = ''info'' then LevelInfo
      else if v \<in> {''warn'', ''warning''} then LevelWarn
      else if v \<in> {''error'', ''fatal''} then LevelError
      else fallback)"

section \<open>The logger\<close>

record logger =
  min_level :: level
  sunk :: "string list"

definition new_logger :: "level \<Rightarrow> logger" where
  "new_logger l = \<lparr>min_level = l, sunk = []\<rparr>"

definition set_min_level :: "level \<Rightarrow> logger \<Rightarrow> logger" where
  "set_min_level l lg = lg\<lparr>min_level := l\<rparr>"

definition enabled :: "logger \<Rightarrow> level \<Rightarrow> bool" where
  "enabled lg l \<longleftrightarrow> min_level lg \<le> l"

text \<open>The message arrives formatted.\<close>

definition log_write :: "level \<Rightarrow> string \<Rightarrow> logger \<Rightarrow> logger" where
  "log_write l msg lg = (if \<not> enabled lg l then lg else lg\<lparr>sunk := sunk lg @ [tag l @ '' '' @ msg]\<rparr>)"

definition log_debug :: "string \<Rightarrow> logger \<Rightarrow> logger" where "log_debug = log_write LevelDebug"
definition log_info :: "string \<Rightarrow> logger \<Rightarrow> logger" where "log_info = log_write LevelInfo"
definition log_warn :: "string \<Rightarrow> logger \<Rightarrow> logger" where "log_warn = log_write LevelWarn"
definition log_error :: "string \<Rightarrow> logger \<Rightarrow> logger" where "log_error = log_write LevelError"

section \<open>Transcripts (transcript.go)\<close>

text \<open>
  A transcript with the logger it mirrors to, if any. Most operations mirror nowhere; their
  transcript is the plain list of its lines, and \<open>add_output\<close> is \<open>AddCommandOutput\<close> on it.
\<close>

record transcript =
  tr_lines :: "string list"
  tr_mirror :: "logger option"
  tr_prefix :: string

definition new_transcript :: "string list \<Rightarrow> transcript" where
  "new_transcript initial = \<lparr>tr_lines = initial, tr_mirror = None, tr_prefix = []\<rparr>"

definition mirror_to :: "logger \<Rightarrow> string \<Rightarrow> transcript \<Rightarrow> transcript" where
  "mirror_to lg pre t = t\<lparr>tr_mirror := Some lg, tr_prefix := pre\<rparr>"

definition tr_add :: "string \<Rightarrow> transcript \<Rightarrow> transcript" where
  "tr_add line t =
     t\<lparr>tr_lines := tr_lines t @ [line],
       tr_mirror := map_option (log_debug (tr_prefix t @ line)) (tr_mirror t)\<rparr>"

definition output_lines :: "string \<Rightarrow> string list" where
  "output_lines raw = (if trim_space raw = [] then [] else split_on newline (trim_space raw))"

definition tr_add_command_output :: "string \<Rightarrow> transcript \<Rightarrow> transcript" where
  "tr_add_command_output raw t = fold tr_add (output_lines raw) t"

definition tr_merge :: "string list \<Rightarrow> transcript \<Rightarrow> transcript" where
  "tr_merge lines t = fold tr_add lines t"

text \<open>\<open>Fail\<close> and \<open>Done\<close>: what a command handler returns.\<close>

type_synonym outcome = "string list \<times> go_error option"

definition tr_fail :: "go_error \<Rightarrow> transcript \<Rightarrow> outcome" where
  "tr_fail e t = (tr_lines t, Some e)"

definition tr_done :: "string \<Rightarrow> transcript \<Rightarrow> outcome" where
  "tr_done message t = (tr_lines (tr_add message t), None)"

section \<open>Processes (shell.go)\<close>

definition custom_argv :: "string \<Rightarrow> string list" where
  "custom_argv command_line = [''sh'', ''-c'', command_line]"

text \<open>The transcript is the list of lines; the result adds the output and wraps the failure.\<close>

definition run_tracked ::
  "sys \<Rightarrow> string list \<Rightarrow> string \<Rightarrow> string list \<Rightarrow> host \<Rightarrow> (go_error option \<times> string list) \<times> host" where
  "run_tracked sys lines failure argv h =
     (let (r, h1) = exec sys argv h;
          text = trim_space (p_all r)
      in ((case p_err r of
             None \<Rightarrow> None
           | Some e \<Rightarrow> (if text \<noteq> [] then Some (Msg (failure @ '': '' @ text)) else Some (Wrapf (failure @ '': '') e [])),
           lines @ output_lines text), h1))"

section \<open>Properties\<close>

lemma fold_tr_add_lines [simp]: "tr_lines (fold tr_add ls t) = tr_lines t @ ls"
  by (induction ls arbitrary: t) (simp_all add: tr_add_def)

lemma fold_tr_add_mirror:
  "tr_mirror t = Some lg \<Longrightarrow>
   tr_mirror (fold tr_add ls t) = Some (lg\<lparr>sunk := sunk lg @ (if min_level lg = LevelDebug then map (\<lambda>l. ''[debug] '' @ tr_prefix t @ l) ls else [])\<rparr>)"
proof (induction ls arbitrary: t lg)
  case (Cons l ls)
  have "enabled lg LevelDebug \<longleftrightarrow> min_level lg = LevelDebug"
    by (cases "min_level lg") (simp_all add: enabled_def less_eq_level_def)
  then show ?case
    using Cons.IH[of "tr_add l t" "log_debug (tr_prefix t @ l) lg"] Cons.prems
    by (auto simp: tr_add_def log_debug_def log_write_def)
qed simp

lemma output_lines_no_newline: "l \<in> set (output_lines raw) \<Longrightarrow> newline \<notin> set l"
  by (auto simp: output_lines_def dest: split_on_no_sep split: if_splits)

lemma output_lines_trim [simp]: "output_lines (trim_space raw) = output_lines raw"
  by (simp add: output_lines_def)

lemma run_tracked_ran:
  "run_tracked sys lines f argv h = ((e, ls), h1) \<Longrightarrow> prefix lines ls \<and> ran h1 = ran h @ [([], argv)]"
  by (auto simp: run_tracked_def exec_def exec_in_def Let_def split: prod.splits)

text \<open>
  The transcript of an operation is append only, and mirroring shows in the agent's log exactly
  the lines it gained: adding the output of a process to a mirrored transcript appends its non-empty
  trimmed text line by line, and the logger receives each of those lines, prefixed, when its
  threshold is debug and nothing otherwise.
\<close>

theorem mirrored_output:
  assumes "tr_mirror t = Some lg"
  shows "tr_lines (tr_add_command_output raw t) = tr_lines t @ output_lines raw \<and>
    (\<exists>lg'. tr_mirror (tr_add_command_output raw t) = Some lg' \<and> min_level lg' = min_level lg \<and>
       sunk lg' = sunk lg @ (if min_level lg = LevelDebug then map (\<lambda>l. ''[debug] '' @ tr_prefix t @ l) (output_lines raw) else []))"
  using fold_tr_add_mirror[OF assms, of "output_lines raw"] by (simp add: tr_add_command_output_def)

theorem mirrored_output_witness:
  "sunk (the (tr_mirror (tr_add_command_output '' a '' (mirror_to (new_logger LevelDebug) ''git: '' (new_transcript []))))) = [''[debug] git: a'']"
proof -
  have "tr_mirror (mirror_to (new_logger LevelDebug) ''git: '' (new_transcript [])) = Some (new_logger LevelDebug)"
    by (simp add: mirror_to_def)
  from mirrored_output[OF this, of "'' a ''"] show ?thesis
    by (auto simp: new_logger_def mirror_to_def output_lines_def model_defs)
qed

end
