(* ===== verification/Docker.thy ===== *)
theory Docker
  imports Logging Protocol
begin

text \<open>
  \<open>internal/docker\<close> without compose and migration: the runner of the docker command line
  (\<open>manager.go\<close>), networks, the disk report and the container listings. What docker answers is the
  parameter \<open>sys\<close>; which command lines the agent issues and how it reads the answers is the model.
  Contexts and their deadlines are not modelled: a command that is killed is a \<open>sys\<close> that fails.
\<close>

section \<open>The runner (manager.go)\<close>

definition docker_combined :: "sys \<Rightarrow> string list \<Rightarrow> host \<Rightarrow> (string \<times> go_error option) \<times> host" where
  "docker_combined sys args h =
     (let (r, h1) = exec sys (''docker'' # args) h in ((p_all r, p_err r), h1))"

definition docker_output :: "sys \<Rightarrow> string list \<Rightarrow> host \<Rightarrow> (go_error, string) result \<times> host" where
  "docker_output sys args h =
     (let (r, h1) = exec sys (''docker'' # args) h in
      (case p_err r of Some e \<Rightarrow> Inl e | None \<Rightarrow> Inr (p_out r), h1))"

definition docker_inspect :: "sys \<Rightarrow> string \<Rightarrow> string list \<Rightarrow> host \<Rightarrow> (go_error, string) result \<times> host" where
  "docker_inspect sys cid inspect_args h =
     (case docker_output sys ([''inspect''] @ inspect_args @ [cid]) h of
        (Inl e, h1) \<Rightarrow> (Inl (Wrapf ''docker inspect failed: '' e []), h1)
      | (Inr out, h1) \<Rightarrow> (Inr out, h1))"

record port_mapping =
  host_port :: int
  container_port :: int

definition port_string :: "port_mapping \<Rightarrow> string" where
  "port_string m = itoa (host_port m) @ '':'' @ itoa (container_port m)"

record container_spec =
  cs_name :: string
  cs_image :: string
  cs_network :: string
  cs_restart :: string
  cs_labels :: "(string \<times> string) list"
  cs_ports :: "port_mapping list"

definition sorted_keys :: "(string \<times> string) list \<Rightarrow> string list" where
  "sorted_keys values = sort (map fst values)"

definition run_container_args :: "container_spec \<Rightarrow> string list" where
  "run_container_args spec =
     [''run'', ''-d'', ''--name'', cs_name spec] @
     concat (map (\<lambda>k. [''--label'', k @ ''='' @ (case map_of (cs_labels spec) k of None \<Rightarrow> [] | Some v \<Rightarrow> v)])
       (sorted_keys (cs_labels spec))) @
     (if trim_space (cs_restart spec) \<noteq> [] then [''--restart'', cs_restart spec] else []) @
     concat (map (\<lambda>p. [''-p'', port_string p]) (cs_ports spec)) @
     (if trim_space (cs_network spec) \<noteq> [] then [''--network'', cs_network spec] else []) @
     [cs_image spec]"

definition run_container :: "sys \<Rightarrow> container_spec \<Rightarrow> host \<Rightarrow> (string \<times> go_error option) \<times> host" where
  "run_container sys spec h =
     (if trim_space (cs_name spec) = [] then (([], Some (Msg ''container name is required'')), h)
      else if trim_space (cs_image spec) = [] then (([], Some (Msg ''container image is required'')), h)
      else docker_combined sys (run_container_args spec) h)"

definition remove_container :: "sys \<Rightarrow> string \<Rightarrow> host \<Rightarrow> (string \<times> go_error option) \<times> host" where
  "remove_container sys name = docker_combined sys [''rm'', ''-f'', name]"

definition copy_to_container :: "sys \<Rightarrow> path \<Rightarrow> string \<Rightarrow> path \<Rightarrow> host \<Rightarrow> (string \<times> go_error option) \<times> host" where
  "copy_to_container sys host_path name container_path =
     docker_combined sys [''cp'', host_path, name @ '':'' @ container_path]"

definition exec_in_container :: "sys \<Rightarrow> string \<Rightarrow> string list \<Rightarrow> host \<Rightarrow> (string \<times> go_error option) \<times> host" where
  "exec_in_container sys name command = docker_combined sys ([''exec'', name] @ command)"

definition find_by_label :: "sys \<Rightarrow> bool \<Rightarrow> string \<Rightarrow> host \<Rightarrow> (go_error, string) result \<times> host" where
  "find_by_label sys running_only label h =
     (case docker_output sys ([''ps''] @ (if \<not> running_only then [''-a''] else []) @
             [''--filter'', ''label='' @ label, ''--format'', ''{{.Names}}'']) h of
        (Inl e, h1) \<Rightarrow> (Inl e, h1)
      | (Inr names, h1) \<Rightarrow>
          (case find (\<lambda>l. trim_space l \<noteq> []) (split_on newline (trim_space names)) of
             Some l \<Rightarrow> (Inr (trim_space l), h1)
           | None \<Rightarrow> (Inl (Msg (''container with label '' @ label @ '' not found'')), h1)))"

definition find_container_name_by_label :: "sys \<Rightarrow> string \<Rightarrow> host \<Rightarrow> (go_error, string) result \<times> host" where
  "find_container_name_by_label sys label h =
     (case find_by_label sys True label h of
        (Inr name, h1) \<Rightarrow> (Inr name, h1)
      | (Inl _, h1) \<Rightarrow> find_by_label sys False label h1)"

definition restart_daemon :: "sys \<Rightarrow> host \<Rightarrow> outcome \<times> host" where
  "restart_daemon sys h =
     (case run_tracked sys [''Restarting Docker daemon...''] ''cannot restart docker daemon'' [''systemctl'', ''restart'', ''docker''] h of
        ((Some e, ls), h1) \<Rightarrow> ((ls, Some e), h1)
      | ((None, ls), h1) \<Rightarrow> ((ls @ [''Docker daemon restarted.''], None), h1))"

definition schedule_server_reset :: "sys \<Rightarrow> host \<Rightarrow> outcome \<times> host" where
  "schedule_server_reset sys h =
     (case run_tracked sys [''Scheduling VPS reset...'', ''Server reboot will start in a few seconds.'']
             ''cannot schedule server reboot''
             [''sh'', ''-c'', ''nohup sh -c '' @ [CHR 0x27] @ ''sleep 3; systemctl reboot'' @ [CHR 0x27] @ '' >/tmp/tug-reset.log 2>&1 &''] h of
        ((Some e, ls), h1) \<Rightarrow> ((ls, Some e), h1)
      | ((None, ls), h1) \<Rightarrow> ((ls @ [''Reset scheduled.''], None), h1))"

definition split_csv :: "string \<Rightarrow> string list" where
  "split_csv raw =
     (if trim_space raw = [] then []
      else filter (\<lambda>v. v \<noteq> []) (map trim_space (split_on CHR '','' (trim_space raw))))"

section \<open>Networks (networks.go)\<close>

definition ensure_network :: "sys \<Rightarrow> string \<Rightarrow> host \<Rightarrow> go_error option \<times> host" where
  "ensure_network sys raw h =
     (let name = trim_space raw in
      if name = [] then (Some (Msg ''network name is required''), h)
      else (case docker_output sys [''network'', ''inspect'', name] h of
              (Inr _, h1) \<Rightarrow> (None, h1)
            | (Inl _, h1) \<Rightarrow>
                (case docker_combined sys [''network'', ''create'', name] h1 of
                   ((created, Some e), h2) \<Rightarrow> (Some (Wrapf (''cannot create network '' @ name @ '': '' @ created @ '': '') e []), h2)
                 | ((created, None), h2) \<Rightarrow> (None, h2))))"

definition list_networks :: "sys \<Rightarrow> host \<Rightarrow> (go_error, string list) result \<times> host" where
  "list_networks sys h =
     (case docker_output sys [''network'', ''ls'', ''--format'', ''{{.Name}}''] h of
        (Inl e, h1) \<Rightarrow> (Inl e, h1)
      | (Inr listed, h1) \<Rightarrow> (Inr (filter (\<lambda>n. n \<noteq> []) (map trim_space (split_on newline (trim_space listed)))), h1))"

definition create_network :: "sys \<Rightarrow> string \<Rightarrow> host \<Rightarrow> outcome \<times> host" where
  "create_network sys name h =
     (case run_tracked sys [''Creating docker network '' @ name @ ''...''] ''cannot create network''
             [''docker'', ''network'', ''create'', name] h of
        ((Some e, ls), h1) \<Rightarrow> ((ls, Some e), h1)
      | ((None, ls), h1) \<Rightarrow> ((ls @ [''Network created.''], None), h1))"

definition delete_network :: "sys \<Rightarrow> string \<Rightarrow> host \<Rightarrow> outcome \<times> host" where
  "delete_network sys name h =
     (case run_tracked sys [''Removing docker network '' @ name @ ''...''] ''cannot remove network''
             [''docker'', ''network'', ''rm'', name] h of
        ((Some e, ls), h1) \<Rightarrow> ((ls, Some e), h1)
      | ((None, ls), h1) \<Rightarrow> ((ls @ [''Network removed.''], None), h1))"

section \<open>Disk usage (disk\_usage.go)\<close>

record disk_item =
  di_type :: string
  di_total :: int
  di_active :: int
  di_size :: string
  di_reclaimable :: string

record disk_report =
  dr_images :: disk_item
  dr_containers :: disk_item
  dr_volumes :: disk_item
  dr_build :: disk_item
  dr_raw :: string

record raw_disk_item =
  ri_type :: string
  ri_total :: string
  ri_active :: string
  ri_size :: string
  ri_reclaimable :: string

definition no_item :: disk_item where
  "no_item = \<lparr>di_type = [], di_total = 0, di_active = 0, di_size = [], di_reclaimable = []\<rparr>"

definition no_report :: disk_report where
  "no_report = \<lparr>dr_images = no_item, dr_containers = no_item, dr_volumes = no_item, dr_build = no_item, dr_raw = []\<rparr>"

definition docker_prune :: "sys \<Rightarrow> host \<Rightarrow> outcome \<times> host" where
  "docker_prune sys h =
     (case docker_combined sys [''system'', ''prune'', ''-f''] h of
        ((pruned, err), h1) \<Rightarrow>
          ((split_on newline (trim_space pruned),
            map_option (\<lambda>e. Wrapf (''docker system prune failed: '' @ pruned @ '': '') e []) err), h1))"

text \<open>\<open>Sscanf\<close> into a field that is zero: an error leaves the zero.\<close>

definition scanned :: "string \<Rightarrow> int" where
  "scanned s = (case scan_int s of None \<Rightarrow> 0 | Some n \<Rightarrow> n)"

definition put_item :: "disk_item \<Rightarrow> disk_report \<Rightarrow> disk_report" where
  "put_item item rep =
     (let ty = to_lower (di_type item) in
      if contains ty ''image'' then rep\<lparr>dr_images := item\<rparr>
      else if contains ty ''container'' then rep\<lparr>dr_containers := item\<rparr>
      else if contains ty ''volume'' then rep\<lparr>dr_volumes := item\<rparr>
      else if contains ty ''build'' then rep\<lparr>dr_build := item\<rparr>
      else rep)"

text \<open>\<open>dec\<close> decodes one JSON line.\<close>

definition parse_disk_usage_json :: "(string \<Rightarrow> raw_disk_item option) \<Rightarrow> string \<Rightarrow> disk_report" where
  "parse_disk_usage_json dec raw =
     foldl (\<lambda>rep l.
       let line = trim_space l in
       if line = [] \<or> \<not> has_prefix line ''{'' then rep
       else (case dec line of
               None \<Rightarrow> rep
             | Some ri \<Rightarrow>
                 put_item \<lparr>di_type = ri_type ri, di_total = scanned (ri_total ri), di_active = scanned (ri_active ri),
                           di_size = ri_size ri, di_reclaimable = ri_reclaimable ri\<rparr> rep))
       no_report (split_on newline raw)"

definition parse_disk_usage_line :: "string \<Rightarrow> disk_item option" where
  "parse_disk_usage_line raw =
     (let line = trim_space raw in
      if line = [] \<or> has_prefix (to_upper line) ''TYPE'' then None
      else (let fs = Go_Strings.fields line in
            if length fs < 4 then None
            else (case find (\<lambda>i. scan_int (fs ! i) \<noteq> None) [1..<length fs - 2] of
                    None \<Rightarrow> None
                  | Some i \<Rightarrow>
                      (if i + 2 \<ge> length fs then None
                       else Some \<lparr>di_type = join '' '' (take i fs), di_total = scanned (fs ! i), di_active = scanned (fs ! (i + 1)),
                                  di_size = fs ! (i + 2),
                                  di_reclaimable = (if i + 3 < length fs then join '' '' (drop (i + 3) fs) else [])\<rparr>))))"

definition disk_usage :: "sys \<Rightarrow> (string \<Rightarrow> raw_disk_item option) \<Rightarrow> host \<Rightarrow> (go_error, disk_report) result \<times> host" where
  "disk_usage sys dec h =
     (let ((json, json_err), h1) = docker_combined sys [''system'', ''df'', ''--format'', ''{{json .}}''] h;
          rep = parse_disk_usage_json dec json
      in if json_err = None \<and> trim_space json \<noteq> [] \<and> has_prefix (trim_space json) ''{'' \<and>
            (di_size (dr_images rep) \<noteq> [] \<or> di_size (dr_containers rep) \<noteq> [] \<or> di_size (dr_volumes rep) \<noteq> [])
         then (let ((raw, _), h2) = docker_combined sys [''system'', ''df''] h1 in (Inr (rep\<lparr>dr_raw := raw\<rparr>), h2))
         else (case docker_combined sys [''system'', ''df''] h1 of
                 ((usage, Some e), h2) \<Rightarrow> (Inl (Wrapf (''docker system df failed: '' @ usage @ '': '') e []), h2)
               | ((usage, None), h2) \<Rightarrow>
                   (Inr (foldl (\<lambda>rep l. case parse_disk_usage_line l of None \<Rightarrow> rep | Some item \<Rightarrow> put_item item rep)
                           (no_report\<lparr>dr_raw := usage\<rparr>) (split_on newline usage)), h2)))"

section \<open>Containers (containers.go)\<close>

definition default_logs_preview_lines :: int where "default_logs_preview_lines = 20"

definition normalize_container_status :: "string \<Rightarrow> string" where
  "normalize_container_status raw =
     (if has_prefix (to_lower (trim_space raw)) ''up'' then ''running'' else ''stopped'')"

definition get_logs_preview :: "sys \<Rightarrow> string \<Rightarrow> int \<Rightarrow> host \<Rightarrow> outcome \<times> host" where
  "get_logs_preview sys cid limit h =
     (if trim_space cid = [] then (([], None), h)
      else (case docker_combined sys [''logs'', ''--tail'',
                    itoa (if limit \<le> 0 then default_logs_preview_lines else limit), cid] h of
              ((logs, Some e), h1) \<Rightarrow> (([], Some e), h1)
            | ((logs, None), h1) \<Rightarrow> ((output_lines logs, None), h1)))"

definition ps_format :: string where
  "ps_format =
     ''{{.ID}}'' @ [tab] @ ''{{.Names}}'' @ [tab] @ ''{{.Image}}'' @ [tab] @ ''{{.Ports}}'' @ [tab] @ ''{{.Status}}'' @ [tab] @
     ''{{.Networks}}'' @ [tab] @ ''{{.Label '' @ quote @ ''com.docker.compose.project'' @ quote @ ''}}'' @ [tab] @
     ''{{.Label '' @ quote @ ''tug.app'' @ quote @ ''}}''"

definition trim_cr :: "string \<Rightarrow> string" where
  "trim_cr s = trim_right_by (\<lambda>c. c = CHR 0x0D) s"

text \<open>One line of the listing; the log preview is taken by the caller.\<close>

definition parse_container_line :: "string \<Rightarrow> container option" where
  "parse_container_line raw =
     (let line = trim_cr raw; parts = split_on tab line in
      if trim_space line = [] \<or> length parts < 5 then None
      else Some \<lparr>ct_id = trim_space (parts ! 0), ct_name = trim_space (parts ! 1),
                 ct_status = normalize_container_status (parts ! 4),
                 ct_image = trim_space (parts ! 2), ct_ports = trim_space (parts ! 3),
                 ct_app = (if length parts > 7 then trim_space (parts ! 7) else []),
                 ct_networks = (if length parts > 5 then split_csv (parts ! 5) else []),
                 ct_project = (if length parts > 6 then trim_space (parts ! 6) else []),
                 ct_logs = []\<rparr>)"

fun collect_containers :: "sys \<Rightarrow> bool \<Rightarrow> string list \<Rightarrow> host \<Rightarrow> container list \<times> host" where
  "collect_containers sys previews [] h = ([], h)"
| "collect_containers sys previews (l # ls) h =
     (case parse_container_line l of
        None \<Rightarrow> collect_containers sys previews ls h
      | Some c \<Rightarrow>
          (let ((logs, _), h1) = (if previews then get_logs_preview sys (ct_id c) default_logs_preview_lines h else (([], None), h));
               (cs, h2) = collect_containers sys previews ls h1
           in (c\<lparr>ct_logs := logs\<rparr> # cs, h2)))"

definition list_containers_with :: "sys \<Rightarrow> bool \<Rightarrow> host \<Rightarrow> (go_error, container list) result \<times> host" where
  "list_containers_with sys previews h =
     (case docker_output sys [''ps'', ''-a'', ''--format'', ps_format] h of
        (Inl e, h1) \<Rightarrow> (Inl e, h1)
      | (Inr listed, h1) \<Rightarrow>
          (let lines = split_on newline (trim_space listed) in
           if length lines = 1 \<and> trim_space (lines ! 0) = [] then (Inr [], h1)
           else (let (cs, h2) = collect_containers sys previews lines h1 in (Inr cs, h2))))"

definition list_containers :: "sys \<Rightarrow> host \<Rightarrow> (go_error, container list) result \<times> host" where
  "list_containers sys = list_containers_with sys True"

definition list_containers_lite :: "sys \<Rightarrow> host \<Rightarrow> (go_error, container list) result \<times> host" where
  "list_containers_lite sys = list_containers_with sys False"

definition control_container ::
  "sys \<Rightarrow> string \<Rightarrow> string \<Rightarrow> bool \<Rightarrow> bool \<Rightarrow> host \<Rightarrow> go_error option \<times> host" where
  "control_container sys raw_id raw_action remove_volumes remove_image h =
     (let cid = trim_space raw_id; action = trim_space (to_lower raw_action) in
      if cid = [] then (Some (Msg ''container_id is required''), h)
      else if action \<notin> {''start'', ''stop'', ''restart'', ''remove''}
      then (Some (Msg (''unsupported action '' @ action)), h)
      else (let (image, h1) =
                  (if action = ''remove'' \<and> remove_image
                   then (case docker_output sys [''inspect'', ''--format={{.Config.Image}}'', cid] h of
                           (Inr out, h') \<Rightarrow> (trim_space out, h') | (Inl _, h') \<Rightarrow> ([], h'))
                   else ([], h));
                args = (if action = ''remove'' then [''rm'', ''-f''] @ (if remove_volumes then [''-v''] else []) @ [cid]
                        else [action, cid])
            in case docker_combined sys args h1 of
                 ((out, Some e), h2) \<Rightarrow> (Some (Wrapf (''docker '' @ action @ '' failed: '' @ out @ '': '') e []), h2)
               | ((out, None), h2) \<Rightarrow>
                   (None, if action = ''remove'' \<and> remove_image \<and> image \<noteq> []
                          then snd (docker_combined sys [''rmi'', image] h2) else h2)))"

definition rename_container :: "sys \<Rightarrow> string \<Rightarrow> string \<Rightarrow> host \<Rightarrow> go_error option \<times> host" where
  "rename_container sys raw_id raw_name h =
     (let cid = trim_space raw_id; name = trim_space raw_name in
      if cid = [] then (Some (Msg ''container_id is required''), h)
      else if name = [] then (Some (Msg ''new name is required''), h)
      else (case docker_combined sys [''rename'', cid, name] h of
              ((out, Some e), h1) \<Rightarrow> (Some (Wrapf (''docker rename failed: '' @ trim_space out @ '': '') e []), h1)
            | ((out, None), h1) \<Rightarrow> (None, h1)))"

section \<open>Container statistics (containers.go)\<close>

text \<open>
  Sizes arrive as decimal numbers with a unit. \<open>ParseFloat\<close> rounds the number to 53 bits, half to
  even; a positive \<open>float64\<close> is a mantissa and a binary exponent. The text before the first letter
  holds no letter, so neither an exponent nor a special value can occur in it.
\<close>

fun bit_len :: "nat \<Rightarrow> nat" where
  "bit_len n = (if n = 0 then 0 else Suc (bit_len (n div 2)))"

declare bit_len.simps [simp del]

definition half_even :: "nat \<Rightarrow> nat \<Rightarrow> nat" where
  "half_even a b =
     (let q = a div b; r = a mod b in if 2 * r < b \<or> (2 * r = b \<and> even q) then q else q + 1)"

text \<open>The quotient \<open>a / b\<close>, rounded to a mantissa of 53 bits.\<close>

definition to_double :: "nat \<Rightarrow> nat \<Rightarrow> nat \<times> int" where
  "to_double a b =
     (if a = 0 then (0, 0)
      else (let e0 = int (bit_len a) - int (bit_len b) - 53;
                quot = (\<lambda>e. if e \<ge> 0 then a div (b * 2 ^ nat e) else (a * 2 ^ nat (- e)) div b);
                e = (if quot e0 \<ge> 2 ^ 53 then e0 + 1 else e0)
            in (if e \<ge> 0 then half_even a (b * 2 ^ nat e) else half_even (a * 2 ^ nat (- e)) b, e)))"

text \<open>Truncation of a product by a power of two, which is exact.\<close>

definition scale_trunc :: "nat \<times> int \<Rightarrow> nat \<Rightarrow> nat" where
  "scale_trunc d k =
     (case d of (m, e) \<Rightarrow>
        if e + int k \<ge> 0 then m * 2 ^ nat (e + int k) else m div 2 ^ nat (- (e + int k)))"

text \<open>A decimal number without exponent: its sign, its digits, and the number of them after the point.\<close>

definition parse_decimal :: "string \<Rightarrow> (bool \<times> nat \<times> nat) option" where
  "parse_decimal s =
     (let (neg, r) = (case s of [] \<Rightarrow> (False, [])
                       | c # u \<Rightarrow> if c = CHR ''-'' then (True, u) else if c = CHR ''+'' then (False, u) else (False, s));
          ip = takeWhile is_digit r;
          rest = dropWhile is_digit r;
          fp = (case rest of [] \<Rightarrow> [] | c # u \<Rightarrow> if c = CHR ''.'' then u else [])
      in if (rest \<noteq> [] \<and> hd rest \<noteq> CHR ''.'') \<or> \<not> list_all is_digit fp \<or> ip @ fp = [] then None
         else Some (neg, digits_value (ip @ fp), length fp))"

text \<open>\<open>ParseUint\<close>; out of range it returns the largest value together with its error.\<close>

definition parse_uint :: "string \<Rightarrow> uint64" where
  "parse_uint s =
     (if s = [] \<or> \<not> list_all is_digit s then 0
      else if digits_value s \<ge> 2 ^ 64 then - 1 else of_nat (digits_value s))"

definition is_letter :: "char \<Rightarrow> bool" where
  "is_letter c \<longleftrightarrow> is_lower_letter c \<or> is_upper_letter c"

definition unit_bits :: "string \<Rightarrow> nat" where
  "unit_bits u =
     (if u \<in> {''KB'', ''KIB'', ''K''} then 10
      else if u \<in> {''MB'', ''MIB'', ''M''} then 20
      else if u \<in> {''GB'', ''GIB'', ''G''} then 30
      else if u \<in> {''TB'', ''TIB'', ''T''} then 40 else 0)"

text \<open>
  \<open>None\<close> where Go leaves the conversion from \<open>float64\<close> to \<open>uint64\<close> to the implementation: a negative
  number and one of 64 bits or more.
\<close>

definition parse_byte_size :: "string \<Rightarrow> uint64 option" where
  "parse_byte_size raw =
     (let s = trim_space raw in
      if s = [] \<or> s = ''0'' \<or> s = ''--'' then Some 0
      else if \<not> list_ex is_letter s then Some (parse_uint s)
      else (let num = trim_space (takeWhile (\<lambda>c. \<not> is_letter c) s);
                u = to_upper (trim_space (dropWhile (\<lambda>c. \<not> is_letter c) s))
            in case parse_decimal num of
                 None \<Rightarrow> Some 0
               | Some (neg, digits, places) \<Rightarrow>
                   (let v = scale_trunc (to_double digits (10 ^ places)) (unit_bits u)
                    in if neg \<and> digits \<noteq> 0 \<or> v \<ge> 2 ^ 64 then None else Some (of_nat v))))"

definition parse_two_slash_values :: "string \<Rightarrow> uint64 option \<times> uint64 option" where
  "parse_two_slash_values raw =
     (let parts = split_on slash raw in
      if length parts < 2 then (Some 0, Some 0)
      else (parse_byte_size (parts ! 0), parse_byte_size (parts ! 1)))"

definition stats_format :: string where
  "stats_format =
     ''{{.ID}}'' @ [tab] @ ''{{.Name}}'' @ [tab] @ ''{{.CPUPerc}}'' @ [tab] @ ''{{.MemUsage}}'' @ [tab] @ ''{{.NetIO}}'' @ [tab] @ ''{{.BlockIO}}''"

definition parse_stats_line :: "string \<Rightarrow> container_metric option" where
  "parse_stats_line raw =
     (let line = trim_cr raw; parts = split_on tab line in
      if trim_space line = [] \<or> length parts < 6 then None
      else (let (mu, mtot) = parse_two_slash_values (parts ! 3);
                (rx, tx) = parse_two_slash_values (parts ! 4);
                (br, bw) = parse_two_slash_values (parts ! 5)
            in Some \<lparr>mt_id = trim_space (parts ! 0), mt_name = trim_space (parts ! 1), mt_status = ''running'',
                     mt_cpu_text = trim_suffix (trim_space (parts ! 2)) ''%'', mt_ram_used = mu, mt_ram_total = mtot,
                     mt_net_rx = rx, mt_net_tx = tx, mt_block_read = br, mt_block_write = bw\<rparr>))"

definition collect_container_stats :: "sys \<Rightarrow> host \<Rightarrow> (go_error, container_metric list) result \<times> host" where
  "collect_container_stats sys h =
     (case docker_output sys [''stats'', ''--no-stream'', ''--format'', stats_format] h of
        (Inl e, h1) \<Rightarrow> (Inl e, h1)
      | (Inr raw, h1) \<Rightarrow> (Inr (List.map_filter parse_stats_line (split_on newline (trim_space raw))), h1))"

section \<open>What the listings guarantee\<close>

lemma docker_output_ran:
  "docker_output sys args h = (r, h1) \<Longrightarrow> ran h1 = ran h @ [([], ''docker'' # args)]"
  by (auto simp: docker_output_def exec_def exec_in_def Let_def split: prod.splits)

lemma docker_combined_ran:
  "docker_combined sys args h = (r, h1) \<Longrightarrow> ran h1 = ran h @ [([], ''docker'' # args)]"
  by (auto simp: docker_combined_def exec_def exec_in_def Let_def split: prod.splits)

text \<open>
  \<open>ran_since\<close> is the command lines a machine ran since another state of it; \<open>ran_only p\<close> says that all
  of them satisfy \<open>p\<close>, and composes along the steps of an operation.
\<close>

definition ran_since :: "host \<Rightarrow> host \<Rightarrow> string list list" where
  "ran_since h h' = map snd (drop (length (ran h)) (ran h'))"

lemma snd_docker_combined_ran: "ran (snd (docker_combined sys args h)) = ran h @ [([], ''docker'' # args)]"
  using docker_combined_ran[of sys args h] by (cases "docker_combined sys args h") simp

lemma exec_ran: "exec sys argv h = (r, h1) \<Longrightarrow> ran h1 = ran h @ [([], argv)]"
  by (auto simp: exec_def exec_in_def split: prod.splits)

definition ran_only :: "(string list \<Rightarrow> bool) \<Rightarrow> host \<Rightarrow> host \<Rightarrow> bool" where
  "ran_only p h h' \<longleftrightarrow> (\<exists>cs. ran h' = ran h @ map (Pair []) cs \<and> list_all p cs)"

lemma ran_only_trans: "ran_only p a b \<Longrightarrow> ran_only p b c \<Longrightarrow> ran_only p a c"
proof -
  assume "ran_only p a b" "ran_only p b c"
  then obtain xs ys where "ran b = ran a @ map (Pair []) xs" "list_all p xs" "ran c = ran b @ map (Pair []) ys" "list_all p ys"
    unfolding ran_only_def by blast
  then show ?thesis unfolding ran_only_def by (intro exI[of _ "xs @ ys"]) simp
qed

lemma ran_only_one: "ran h' = ran h @ [([], c)] \<Longrightarrow> p c \<Longrightarrow> ran_only p h h'"
  unfolding ran_only_def by (intro exI[of _ "[c]"]) simp

lemma ran_only_refl: "ran h' = ran h \<Longrightarrow> ran_only p h h'"
  unfolding ran_only_def by (intro exI[of _ "[]"]) simp

lemma ran_only_mono: "ran_only p a b \<Longrightarrow> (\<And>c. p c \<Longrightarrow> q c) \<Longrightarrow> ran_only q a b"
  unfolding ran_only_def by (auto simp: list_all_iff)

lemma ran_only_docker: "p (''docker'' # args) \<Longrightarrow> ran_only p h (snd (docker_combined sys args h))"
  by (rule ran_only_one[OF snd_docker_combined_ran])

definition container_ok :: "container \<Rightarrow> bool" where
  "container_ok c \<longleftrightarrow>
     ct_status c \<in> {''running'', ''stopped''} \<and>
     list_all (\<lambda>s. trim_space s = s) [ct_id c, ct_name c, ct_image c, ct_ports c, ct_app c, ct_project c] \<and>
     list_all (\<lambda>n. n \<noteq> [] \<and> trim_space n = n \<and> CHR '','' \<notin> set n) (ct_networks c) \<and>
     list_all (\<lambda>l. newline \<notin> set l) (ct_logs c)"

lemma split_csv_ok: "n \<in> set (split_csv raw) \<Longrightarrow> n \<noteq> [] \<and> trim_space n = n \<and> CHR '','' \<notin> set n"
proof -
  assume "n \<in> set (split_csv raw)"
  then obtain p where p: "p \<in> set (split_on CHR '','' (trim_space raw))" "n = trim_space p" "n \<noteq> []"
    by (auto simp: split_csv_def split: if_splits)
  moreover have "set n \<subseteq> set p" unfolding p(2) trim_space_def by (rule set_trim_by)
  ultimately show ?thesis using split_on_no_sep[OF p(1)] by auto
qed

lemma parse_container_line_ok: "parse_container_line raw = Some c \<Longrightarrow> container_ok c"
  by (auto simp: parse_container_line_def container_ok_def normalize_container_status_def Let_def list_all_iff
      dest: split_csv_ok split: if_splits)

lemma get_logs_preview_ok: "get_logs_preview sys cid n h = ((ls, e), h1) \<Longrightarrow> list_all (\<lambda>l. newline \<notin> set l) ls"
  by (auto simp: get_logs_preview_def list_all_iff dest: output_lines_no_newline split: if_splits prod.splits option.splits)

lemma collect_containers_ok: "collect_containers sys b ls h = (cs, h1) \<Longrightarrow> list_all container_ok cs"
proof (induction ls arbitrary: h cs h1)
  case (Cons l ls)
  show ?case
  proof (cases "parse_container_line l")
    case None
    then show ?thesis using Cons by simp
  next
    case (Some c)
    obtain logs e h2 where g: "(if b then get_logs_preview sys (ct_id c) default_logs_preview_lines h else (([], None), h)) = ((logs, e), h2)"
      using prod_cases3 by (metis surj_pair)
    obtain cs' h3 where r: "collect_containers sys b ls h2 = (cs', h3)" by fastforce
    have "list_all (\<lambda>l. newline \<notin> set l) logs"
      using g get_logs_preview_ok by (cases b) auto
    then have "container_ok (c\<lparr>ct_logs := logs\<rparr>)"
      using parse_container_line_ok[OF Some] by (simp add: container_ok_def)
    moreover have "cs = c\<lparr>ct_logs := logs\<rparr> # cs'" using Cons.prems Some g r by simp
    ultimately show ?thesis using Cons.IH[OF r] by simp
  qed
qed simp

text \<open>Whatever docker prints, a listed container is well formed.\<close>

lemma listed_containers_well_formed:
  assumes "list_containers_with sys previews h = (Inr cs, h1)"
  shows "list_all container_ok cs"
  using assms collect_containers_ok
  by (auto simp: list_containers_with_def Let_def split: prod.splits sum.splits if_splits)

section \<open>What docker prints is what is listed\<close>

lemma length_split_on: "length (split_on d s) = Suc (count_list s d)"
proof (induction s)
  case (Cons c s)
  then show ?case by (cases "split_on d s") auto
qed simp

lemma trim_right_by_id: "s = [] \<or> \<not> p (last s) \<Longrightarrow> trim_right_by p s = s"
  by (cases s rule: rev_cases) (simp_all add: trim_right_by_def)

lemma trim_right_by_snoc: "p c \<Longrightarrow> trim_right_by p (s @ [c]) = trim_right_by p s"
  by (simp add: trim_right_by_def)

lemma trim_right_by_append: "trim_right_by p t \<noteq> [] \<Longrightarrow> trim_right_by p (s @ t) = s @ trim_right_by p t"
  by (auto simp: trim_right_by_def dropWhile_append)

lemma count_trim_right: "count_list (trim_right_by p s) c \<le> count_list s c"
  by (induction s rule: rev_induct) (auto simp: trim_right_by_def)

lemma trimmed_iff: "trim_space s = s \<longleftrightarrow> s = [] \<or> \<not> is_space (hd s) \<and> \<not> is_space (last s)"
proof
  assume t: "trim_space s = s"
  show "s = [] \<or> \<not> is_space (hd s) \<and> \<not> is_space (last s)"
    using t trim_by_hd[of is_space s "hd s" "tl s"] trim_by_last[of is_space s "butlast s" "last s"]
    by (cases "s = []") (simp_all add: trim_space_def)
next
  assume "s = [] \<or> \<not> is_space (hd s) \<and> \<not> is_space (last s)"
  then show "trim_space s = s"
    using trim_right_by_id[of s is_space] by (cases s) (auto simp: trim_space_def trim_by_def)
qed

text \<open>
  A row of \<open>docker ps\<close>, and the line the format asks for. The values docker prints hold no tab and no line
  end and are not padded; the id and the status are never empty, and networks are joined by commas.
\<close>

record docker_row =
  rw_id :: string
  rw_name :: string
  rw_image :: string
  rw_ports :: string
  rw_status :: string
  rw_networks :: "string list"
  rw_project :: string
  rw_app :: string

definition printed_cell :: "string \<Rightarrow> bool" where
  "printed_cell s \<longleftrightarrow> trim_space s = s \<and> tab \<notin> set s \<and> newline \<notin> set s"

definition row_ok :: "docker_row \<Rightarrow> bool" where
  "row_ok r \<longleftrightarrow> list_all printed_cell [rw_id r, rw_name r, rw_image r, rw_ports r, rw_status r, rw_project r, rw_app r] \<and>
     list_all (\<lambda>n. printed_cell n \<and> n \<noteq> [] \<and> CHR '','' \<notin> set n) (rw_networks r) \<and> rw_id r \<noteq> [] \<and> rw_status r \<noteq> []"

definition row_cells :: "docker_row \<Rightarrow> string list" where
  "row_cells r = [rw_id r, rw_name r, rw_image r, rw_ports r, rw_status r, join '','' (rw_networks r), rw_project r, rw_app r]"

definition container_of_row :: "docker_row \<Rightarrow> container" where
  "container_of_row r =
     \<lparr>ct_id = rw_id r, ct_name = rw_name r, ct_status = (if has_prefix (to_lower (rw_status r)) ''up'' then ''running'' else ''stopped''),
      ct_image = rw_image r, ct_ports = rw_ports r, ct_app = rw_app r, ct_networks = rw_networks r, ct_project = rw_project r,
      ct_logs = []\<rparr>"

text \<open>A printed row, or some other line that starts with no white space and has too few columns.\<close>

datatype ps_line = Row docker_row | Other string

fun line_text :: "ps_line \<Rightarrow> string" where
  "line_text (Row r) = join [tab] (row_cells r)"
| "line_text (Other s) = s"

fun line_ok :: "ps_line \<Rightarrow> bool" where
  "line_ok (Row r) = row_ok r"
| "line_ok (Other s) = (s \<noteq> [] \<and> \<not> is_space (hd s) \<and> newline \<notin> set s \<and> length (split_on tab s) < 5)"

fun line_container :: "ps_line \<Rightarrow> container option" where
  "line_container (Row r) = Some (container_of_row r)"
| "line_container (Other s) = None"

lemma join_networks_trimmed:
  assumes "list_all (\<lambda>n. printed_cell n \<and> n \<noteq> [] \<and> CHR '','' \<notin> set n) ns"
  shows "trim_space (join '','' ns) = join '','' ns"
proof (cases "ns = []")
  case False
  have each: "n \<noteq> []" "\<not> is_space (hd n)" "\<not> is_space (last n)" if "n \<in> set ns" for n
    using assms that trimmed_iff[of n] by (auto simp: list_all_iff printed_cell_def)
  have "hd (join '','' ns) = hd (hd ns)" using False each(1) by (cases ns; cases "tl ns") auto
  moreover have "last (join '','' ns) = last (last ns)"
  proof -
    obtain ms m where ns: "ns = ms @ [m]" using False by (cases ns rule: rev_cases) auto
    then show ?thesis using each(1)[of m] join_append[of ms "[m]" "'',''"] by (cases "ms = []") simp_all
  qed
  ultimately show ?thesis using each(2)[of "hd ns"] each(3)[of "last ns"] False trimmed_iff by simp
qed simp

lemma split_csv_networks:
  assumes "list_all (\<lambda>n. printed_cell n \<and> n \<noteq> [] \<and> CHR '','' \<notin> set n) ns"
  shows "split_csv (join '','' ns) = ns"
proof (cases "ns = []")
  case False
  have each: "n \<noteq> []" "CHR '','' \<notin> set n" "trim_space n = n" if "n \<in> set ns" for n
    using assms that by (auto simp: list_all_iff printed_cell_def)
  have "join '','' ns \<noteq> []" using each(1) False join_eq_Nil_iff[of "CHR '',''" ns] by auto
  moreover have "split_on CHR '','' (join '','' ns) = ns" using False each(2) by (intro split_on_join) simp_all
  moreover have "map trim_space ns = ns" using each(3) by (simp add: map_idI)
  ultimately show ?thesis using join_networks_trimmed[OF assms] each(1) by (simp add: split_csv_def filter_id_conv)
qed (simp add: split_csv_def)

text \<open>The empty columns at the end of the last row are trimmed with the output, and read back as empty.\<close>

lemma trim_right_cells:
  assumes "list_all (\<lambda>s. trim_space s = s) cs" and "cs \<noteq> []"
  shows "trim_right_by is_space (join [tab] cs) = join [tab] (rev (dropWhile (\<lambda>s. s = []) (rev cs)))"
  using assms
proof (induction cs rule: rev_induct)
  case (snoc c cs)
  show ?case
  proof (cases "c = []")
    case True
    then show ?thesis using snoc by (cases "cs = []") (simp_all add: join_append trim_right_by_snoc is_space_def trim_right_by_def)
  next
    case False
    then have "\<not> is_space (last c)" using snoc.prems trimmed_iff[of c] by simp
    moreover have "last (join [tab] (cs @ [c])) = last c" using False by (cases "cs = []") (simp_all add: join_append)
    ultimately show ?thesis using False trim_right_by_id[of "join [tab] (cs @ [c])" is_space] by simp
  qed
qed simp

lemma join_no_char: "(\<And>n. n \<in> set ns \<Longrightarrow> c \<notin> set n) \<Longrightarrow> c \<noteq> d \<Longrightarrow> c \<notin> set (join [d] ns)"
  by (induction ns rule: induct_list012) simp_all

lemma parse_cells:
  assumes "row_ok r" and "cs = take n (row_cells r)" and "5 \<le> n" and "list_all (\<lambda>s. s = []) (drop n (row_cells r))"
    and "trim_cr (join [tab] cs) = join [tab] cs"
  shows "parse_container_line (join [tab] cs) = Some (container_of_row r)"
proof -
  have nets: "split_csv (join '','' (rw_networks r)) = rw_networks r" "tab \<notin> set (join '','' (rw_networks r))"
  proof -
    show "split_csv (join '','' (rw_networks r)) = rw_networks r" using assms(1) by (intro split_csv_networks) (simp add: row_ok_def)
    have "tab \<notin> set n" if "n \<in> set (rw_networks r)" for n
      using assms(1) that by (auto simp: row_ok_def list_all_iff printed_cell_def)
    then show "tab \<notin> set (join '','' (rw_networks r))" by (rule join_no_char) simp_all
  qed
  have tabs: "tab \<notin> set s" if "s \<in> set cs" for s
    using that assms(1,2) nets(2) by (auto simp: row_cells_def row_ok_def printed_cell_def dest!: in_set_takeD)
  have ne: "cs \<noteq> []" using assms(2,3) by (auto simp: row_cells_def)
  have sp: "split_on tab (join [tab] cs) = cs" using ne tabs by (intro split_on_join) auto
  have id: "rw_id r \<noteq> []" "trim_space (rw_id r) = rw_id r" using assms(1) by (simp_all add: row_ok_def printed_cell_def)
  obtain k where k: "n = 5 + k" using assms(3) le_Suc_ex by blast
  have "rw_id r \<in> set cs" using assms(3) by (cases n) (simp_all add: assms(2) row_cells_def)
  then have "\<exists>c\<in>set (join [tab] cs). \<not> is_space c"
    using id trimmed_iff[of "rw_id r"] split_line_inside[of "rw_id r" tab "join [tab] cs"] sp by (metis Un_iff hd_in_set set_append)
  then have "trim_space (join [tab] cs) \<noteq> []" unfolding trim_space_def trim_by_empty_iff by blast
  moreover have "k = 0 \<or> k = 1 \<or> k = 2 \<or> k \<ge> 3" by linarith
  ultimately show ?thesis
    using assms(1,4) nets(1) unfolding parse_container_line_def assms(5) sp Let_def
    by (auto simp: assms(2) k row_cells_def container_of_row_def row_ok_def printed_cell_def normalize_container_status_def
        split_csv_def take_Cons' drop_Cons' split: if_splits)
qed


lemma joined_end:
  assumes "list_all (\<lambda>s. trim_space s = s) cs"
  shows "join [tab] cs = [] \<or> last (join [tab] cs) \<noteq> CHR 0x0D"
proof (cases cs rule: rev_cases)
  case (snoc ds c)
  have "trim_space c = c" using assms snoc by simp
  then have "c = [] \<or> \<not> is_space (last c)" unfolding trimmed_iff by blast
  then have "c = [] \<or> last c \<noteq> CHR 0x0D" by (auto simp: is_space_def)
  then show ?thesis using snoc by (cases "c = []"; cases "ds = []") (simp_all add: join_append)
qed simp

lemma listed_line:
  assumes "line_ok l"
  shows "parse_container_line (line_text l) = line_container l"
    and "parse_container_line (trim_right_by is_space (line_text l)) = line_container l"
proof -
  have "parse_container_line (line_text l) = line_container l \<and>
      parse_container_line (trim_right_by is_space (line_text l)) = line_container l"
  proof (cases l)
    case (Other s)
    have "parse_container_line t = None" if "count_list t tab \<le> count_list s tab" for t
    proof -
      have "count_list (trim_cr t) tab \<le> count_list s tab"
        using that count_trim_right[of _ t tab] le_trans unfolding trim_cr_def by blast
      then have "length (split_on tab (trim_cr t)) < 5" using assms Other by (simp add: length_split_on)
      then show ?thesis by (simp add: parse_container_line_def Let_def)
    qed
    then show ?thesis using Other count_trim_right by simp
  next
    case (Row r)
    have ok: "row_ok r" using assms Row by simp
    have cells: "list_all (\<lambda>s. trim_space s = s) (row_cells r)"
    proof -
      have "trim_space (join '','' (rw_networks r)) = join '','' (rw_networks r)"
        using ok by (intro join_networks_trimmed) (simp add: row_ok_def)
      then show ?thesis using ok by (simp add: row_cells_def row_ok_def printed_cell_def)
    qed
    let ?cut = "rev (dropWhile (\<lambda>s. s = []) (rev (row_cells r)))"
    have "parse_container_line (join [tab] (row_cells r)) = Some (container_of_row r)"
    proof (rule parse_cells[OF ok, where n = 8])
      show "trim_cr (join [tab] (row_cells r)) = join [tab] (row_cells r)"
        unfolding trim_cr_def by (rule trim_right_by_id) (use joined_end[OF cells] in auto)
    qed (simp_all add: row_cells_def)
    moreover have "parse_container_line (join [tab] ?cut) = Some (container_of_row r)"
    proof -
      let ?pad = "rev (takeWhile (\<lambda>s. s = []) (rev (row_cells r)))"
      have split: "row_cells r = ?cut @ ?pad" by (metis rev_append rev_rev_ident takeWhile_dropWhile_id)
      then have cut: "?cut = take (length ?cut) (row_cells r)" and pad: "?pad = drop (length ?cut) (row_cells r)"
        by (metis append_eq_conv_conj)+
      have blank: "list_all (\<lambda>s. s = []) ?pad" by (auto simp: list_all_iff dest: set_takeWhileD)
      have "5 \<le> length ?cut"
      proof (rule ccontr)
        assume "\<not> 5 \<le> length ?cut"
        then have "set (drop 4 (row_cells r)) \<subseteq> set ?pad" unfolding pad by (intro set_drop_subset_set_drop) linarith
        moreover have "rw_status r \<in> set (drop 4 (row_cells r))" by (simp add: row_cells_def)
        ultimately have "rw_status r = []" using blank unfolding list_all_iff by blast
        then show False using ok by (simp add: row_ok_def)
      qed
      moreover have "trim_cr (join [tab] ?cut) = join [tab] ?cut"
      proof -
        have "list_all (\<lambda>s. trim_space s = s) ?cut" using cells split by (metis list_all_append)
        then show ?thesis unfolding trim_cr_def by (intro trim_right_by_id) (use joined_end in auto)
      qed
      ultimately show ?thesis using blank pad by (intro parse_cells[OF ok cut]) simp_all
    qed
    ultimately show ?thesis using Row trim_right_cells[OF cells] by (simp add: row_cells_def)
  qed
  then show "parse_container_line (line_text l) = line_container l"
    and "parse_container_line (trim_right_by is_space (line_text l)) = line_container l" by blast+
qed

lemma listing_lines:
  "list_containers_with sys previews h =
     (case docker_output sys [''ps'', ''-a'', ''--format'', ps_format] h of
        (Inl e, h1) \<Rightarrow> (Inl e, h1)
      | (Inr listed, h1) \<Rightarrow>
          (let (cs, h2) = collect_containers sys previews (split_on newline (trim_space listed)) h1 in (Inr cs, h2)))"
proof -
  have "parse_container_line l = None" if "trim_space l = []" for l
  proof -
    have "trim_space (trim_cr l) = []"
      using that unfolding trim_space_def trim_by_empty_iff by (auto simp: trim_cr_def trim_right_by_def dest: set_dropWhileD)
    then show ?thesis by (simp add: parse_container_line_def Let_def)
  qed
  then have "collect_containers sys previews ls k = ([], k)" if "length ls = 1" "trim_space (ls ! 0) = []" for ls k
    using that by (cases ls) auto
  then show ?thesis unfolding list_containers_with_def Let_def by (auto split: prod.splits sum.splits)
qed

lemma collected:
  assumes "collect_containers sys previews ls h = (cs, h1)"
  shows "map (\<lambda>c. c\<lparr>ct_logs := []\<rparr>) cs = List.map_filter parse_container_line ls"
    and "\<not> previews \<Longrightarrow> list_all (\<lambda>c. ct_logs c = []) cs"
    and "list_all (\<lambda>c. trim_space (ct_id c) \<noteq> []) cs \<Longrightarrow>
      ran h1 = ran h @ map (\<lambda>c. ([], [''docker'', ''logs'', ''--tail'', itoa default_logs_preview_lines, ct_id c])) (if previews then cs else [])"
proof -
  show "map (\<lambda>c. c\<lparr>ct_logs := []\<rparr>) cs = List.map_filter parse_container_line ls"
    using assms
  proof (induction ls arbitrary: h cs h1)
    case (Cons l ls)
    then show ?case
      by (auto simp: map_filter_simps parse_container_line_def Let_def split: option.splits prod.splits if_splits)
  qed (simp add: map_filter_simps)
  show "list_all (\<lambda>c. ct_logs c = []) cs" if "\<not> previews"
    using assms that
  proof (induction ls arbitrary: h cs h1)
    case (Cons l ls)
    then show ?case by (fastforce split: option.splits prod.splits)
  qed simp
  show "ran h1 = ran h @ map (\<lambda>c. ([], [''docker'', ''logs'', ''--tail'', itoa default_logs_preview_lines, ct_id c])) (if previews then cs else [])"
    if "list_all (\<lambda>c. trim_space (ct_id c) \<noteq> []) cs"
    using assms that
  proof (induction ls arbitrary: h cs h1)
    case (Cons l ls)
    show ?case
    proof (cases "parse_container_line l")
      case None
      then show ?thesis using Cons by simp
    next
      case (Some c)
      obtain logs e h2 where g: "(if previews then get_logs_preview sys (ct_id c) default_logs_preview_lines h else (([], None), h)) = ((logs, e), h2)"
        by (metis surj_pair)
      obtain cs' h3 where r: "collect_containers sys previews ls h2 = (cs', h3)" by fastforce
      have cs: "cs = c\<lparr>ct_logs := logs\<rparr> # cs'" "h1 = h3" using Cons.prems(1) Some g r by simp_all
      then have id: "trim_space (ct_id c) \<noteq> []" and rest: "list_all (\<lambda>c. trim_space (ct_id c) \<noteq> []) cs'" using Cons.prems(2) by simp_all
      have "ran h2 = ran h @ (if previews then [([], [''docker'', ''logs'', ''--tail'', itoa default_logs_preview_lines, ct_id c])] else [])"
        using g id docker_combined_ran
        by (auto simp: get_logs_preview_def default_logs_preview_lines_def split: if_splits prod.splits option.splits)
      then show ?thesis using Cons.IH[OF r rest] cs by simp
    qed
  qed simp
qed

lemma line_starts:
  assumes "line_ok l"
  shows "line_text l \<noteq> []" and "\<not> is_space (hd (line_text l))" and "newline \<notin> set (line_text l)"
proof -
  have "line_text l \<noteq> [] \<and> \<not> is_space (hd (line_text l)) \<and> newline \<notin> set (line_text l)"
  proof (cases l)
    case (Row r)
    then have ok: "row_ok r" using assms by simp
    have id: "rw_id r \<noteq> []" "\<not> is_space (hd (rw_id r))"
      using ok trimmed_iff[of "rw_id r"] by (auto simp: row_ok_def printed_cell_def)
    have "newline \<notin> set (join '','' (rw_networks r))"
      using ok by (intro join_no_char) (auto simp: row_ok_def list_all_iff printed_cell_def)
    then have "newline \<notin> set (join [tab] (row_cells r))"
      using ok by (intro join_no_char) (auto simp: row_cells_def row_ok_def printed_cell_def)
    then show ?thesis using Row id by (simp add: row_cells_def)
  qed (use assms in simp)
  then show "line_text l \<noteq> []" and "\<not> is_space (hd (line_text l))" and "newline \<notin> set (line_text l)" by blast+
qed

text \<open>The whole output, without its last line end and the empty columns before it.\<close>

lemma printed_lines:
  assumes "list_all line_ok (ls @ [l])"
  shows "split_on newline (trim_space (concat (map (\<lambda>l. line_text l @ [newline]) (ls @ [l])))) =
    map line_text ls @ [trim_right_by is_space (line_text l)]"
proof -
  let ?out = "concat (map (\<lambda>l. line_text l @ [newline]) ls)"
  have l: "line_ok l" using assms by simp
  have last: "trim_right_by is_space (line_text l) \<noteq> []"
    using line_starts[OF l] hd_in_set by (fastforce simp: trim_right_by_def dropWhile_eq_Nil_conv)
  have "hd (?out @ line_text l @ [newline]) = hd (line_text (hd (ls @ [l])))"
    using line_starts(1)[of "hd ls"] line_starts(1)[OF l] assms by (cases ls) auto
  moreover have "line_ok (hd (ls @ [l]))" using assms by (cases ls) simp_all
  ultimately have "\<not> is_space (hd (?out @ line_text l @ [newline]))" using line_starts(2) by simp
  then have "dropWhile is_space (?out @ line_text l @ [newline]) = ?out @ line_text l @ [newline]"
    by (cases "?out @ line_text l @ [newline]") auto
  moreover have "trim_right_by is_space (?out @ line_text l @ [newline]) = ?out @ trim_right_by is_space (line_text l)"
  proof -
    have "trim_right_by is_space (line_text l @ [newline]) = trim_right_by is_space (line_text l)"
      by (rule trim_right_by_snoc) (simp add: is_space_def)
    then show ?thesis using trim_right_by_append[of is_space "line_text l @ [newline]" ?out] last by simp
  qed
  ultimately have out: "trim_space (concat (map (\<lambda>l. line_text l @ [newline]) (ls @ [l]))) = ?out @ trim_right_by is_space (line_text l)"
    by (simp add: trim_space_def trim_by_def)
  have "newline \<notin> set (trim_right_by is_space (line_text l))"
    using line_starts(3)[OF l] by (auto simp: trim_right_by_def dest: set_dropWhileD)
  moreover have "list_all line_ok ls" using assms by simp
  ultimately have "split_on newline (?out @ trim_right_by is_space (line_text l)) = map line_text ls @ [trim_right_by is_space (line_text l)]"
    by (induction ls) (simp_all add: split_on_single split_on_append_sep line_starts(3))
  then show ?thesis unfolding out .
qed

lemma read_lines:
  assumes "list_all line_ok ls"
  shows "List.map_filter parse_container_line (split_on newline (trim_space (concat (map (\<lambda>l. line_text l @ [newline]) ls)))) =
    List.map_filter line_container ls"
proof (cases ls rule: rev_cases)
  case Nil
  have "parse_container_line [] = None" by (simp add: parse_container_line_def trim_cr_def trim_right_by_def Let_def)
  then show ?thesis using Nil by (simp add: map_filter_simps)
next
  case (snoc ks l)
  have ks: "List.map_filter parse_container_line (map line_text ks) = List.map_filter line_container ks" if "list_all line_ok ks" for ks
    using that by (induction ks) (simp_all add: map_filter_simps listed_line(1) split: option.splits)
  have app: "List.map_filter g (as @ [a]) = List.map_filter g as @ List.map_filter g [a]" for g :: "'a \<Rightarrow> container option" and as a
    by (simp add: List.map_filter_def)
  have app': "List.map_filter g (as @ [a]) = List.map_filter g as @ List.map_filter g [a]" for g :: "string \<Rightarrow> container option" and as a
    by (simp add: List.map_filter_def)
  show ?thesis
    using assms ks[of ks] listed_line(2)[of l] unfolding snoc
    by (simp add: printed_lines[of ks l, simplified] app' app map_filter_simps split: option.splits)
qed

text \<open>
  C29: The container listing is what \<open>docker ps\<close> prints. When docker prints rows in the format it is asked for,
  with other lines of fewer than five columns among them, both listings return one container per row, in
  order, each column in its own field: the id, name, image, ports, project and app as printed, the
  state running exactly when the status starts with Up, the networks split at the commas. The other lines
  are left out. The full listing asks docker once for the logs of every container listed, by its id and in order,
  the light one asks nothing and its containers have no preview. A printed column holds no tab, no line
  end and no white space around it, and the id and the status are not empty.
\<close>

theorem listing_reads_what_docker_prints:
  assumes "docker_output sys [''ps'', ''-a'', ''--format'', ps_format] h =
      (Inr (concat (map (\<lambda>l. line_text l @ [newline]) ls)), h1)"
    and "list_all line_ok ls"
  shows "\<exists>cs h2. list_containers_with sys previews h = (Inr cs, h2) \<and>
    map (\<lambda>c. c\<lparr>ct_logs := []\<rparr>) cs = List.map_filter line_container ls \<and>
    (\<not> previews \<longrightarrow> cs = List.map_filter line_container ls) \<and>
    ran h2 = ran h @ [([], [''docker'', ''ps'', ''-a'', ''--format'', ps_format])] @
      (if previews
       then map (\<lambda>c. ([], [''docker'', ''logs'', ''--tail'', ''20'', ct_id c])) (List.map_filter line_container ls) else [])"
proof -
  obtain cs h2 where c: "collect_containers sys previews
      (split_on newline (trim_space (concat (map (\<lambda>l. line_text l @ [newline]) ls)))) h1 = (cs, h2)" by fastforce
  note got = collected[OF c, unfolded read_lines[OF assms(2)]]
  have plain: "cs = List.map_filter line_container ls" if "list_all (\<lambda>c. ct_logs c = []) cs"
  proof -
    have "map (\<lambda>c. c\<lparr>ct_logs := []\<rparr>) cs = map id cs" using that by (intro map_cong) (auto simp: list_all_iff)
    then show ?thesis using got(1) by simp
  qed
  have ids: "map ct_id cs = map ct_id (List.map_filter line_container ls)"
    unfolding got(1)[symmetric] by simp
  have named: "trim_space (ct_id c) \<noteq> []" if c: "c \<in> set (List.map_filter line_container ls)" for c
  proof -
    obtain l where l: "l \<in> set ls" "line_container l = Some c" using c by (auto simp: List.map_filter_def)
    then have "line_ok l" using assms(2) by (simp add: list_all_iff)
    then show ?thesis using l(2) by (cases l) (auto simp: row_ok_def printed_cell_def container_of_row_def)
  qed
  have "list_all (\<lambda>c. trim_space (ct_id c) \<noteq> []) cs"
  proof -
    have "list_all (\<lambda>i. trim_space i \<noteq> []) (map ct_id cs)" unfolding ids using named by (simp add: list_all_iff)
    then show ?thesis by (simp add: list_all_iff)
  qed
  then have "ran h2 = ran h1 @ (if previews then map (\<lambda>i. ([], [''docker'', ''logs'', ''--tail'', ''20'', i])) (map ct_id cs) else [])"
    using got(3) by (simp add: default_logs_preview_lines_def itoa_def nat_dec.simps char_of_def bit_0)
  then show ?thesis
    using c got(1,2) plain docker_output_ran[OF assms(1)] unfolding ids listing_lines assms(1) by (auto simp: comp_def)
qed

text \<open>A docker that prints one container whatever it is asked.\<close>

definition demo_docker :: sys where
  "demo_docker c h =
     (let out = ''c1'' @ [tab] @ ''web'' @ [tab] @ ''nginx'' @ [tab] @ [tab] @ ''Up 2 hours'' @ [tab] @ ''a, b''
      in (\<lparr>p_out = out, p_all = out, p_err = None\<rparr>, h))"

lemma demo_docker_lists:
  "list_containers_lite demo_docker h =
     (Inr [\<lparr>ct_id = ''c1'', ct_name = ''web'', ct_status = ''running'', ct_image = ''nginx'', ct_ports = [], ct_app = [],
            ct_networks = [''a'', ''b''], ct_project = [], ct_logs = []\<rparr>], h\<lparr>ran := ran h @ [([], [''docker'', ''ps'', ''-a'', ''--format'', ps_format])]\<rparr>)"
  by (simp add: list_containers_lite_def list_containers_with_def docker_output_def exec_def exec_in_def demo_docker_def
      parse_container_line_def trim_cr_def normalize_container_status_def split_csv_def model_defs Let_def char_of_def bit_0)

text \<open>A docker with a running container in two networks, a warning, and a stopped container without labels.\<close>

definition demo_rows :: "ps_line list" where
  "demo_rows =
     [Row \<lparr>rw_id = ''c1'', rw_name = ''web'', rw_image = ''nginx'', rw_ports = [], rw_status = ''Up 2 hours'',
           rw_networks = [''a'', ''b''], rw_project = ''p1'', rw_app = []\<rparr>,
      Other ''warning: slow'',
      Row \<lparr>rw_id = ''c2'', rw_name = ''db'', rw_image = ''pg'', rw_ports = ''5432/tcp'', rw_status = ''Exited (0)'',
           rw_networks = [''a''], rw_project = [], rw_app = []\<rparr>]"

definition demo_ps :: sys where
  "demo_ps c h = (let out = concat (map (\<lambda>l. line_text l @ [newline]) demo_rows) in (\<lparr>p_out = out, p_all = out, p_err = None\<rparr>, h))"

theorem listing_reads_what_docker_prints_witness:
  "\<exists>h2. list_containers_with demo_ps False bare_host =
     (Inr [\<lparr>ct_id = ''c1'', ct_name = ''web'', ct_status = ''running'', ct_image = ''nginx'', ct_ports = [], ct_app = [],
            ct_networks = [''a'', ''b''], ct_project = ''p1'', ct_logs = []\<rparr>,
           \<lparr>ct_id = ''c2'', ct_name = ''db'', ct_status = ''stopped'', ct_image = ''pg'', ct_ports = ''5432/tcp'', ct_app = [],
            ct_networks = [''a''], ct_project = [], ct_logs = []\<rparr>], h2)"
proof -
  have o: "docker_output demo_ps [''ps'', ''-a'', ''--format'', ps_format] bare_host =
      (Inr (concat (map (\<lambda>l. line_text l @ [newline]) demo_rows)),
       bare_host\<lparr>ran := ran bare_host @ [([], [''docker'', ''ps'', ''-a'', ''--format'', ps_format])]\<rparr>)"
    by (simp add: docker_output_def exec_def exec_in_def demo_ps_def Let_def)
  have ok: "list_all line_ok demo_rows" by code_simp
  have cs: "List.map_filter line_container demo_rows =
     [\<lparr>ct_id = ''c1'', ct_name = ''web'', ct_status = ''running'', ct_image = ''nginx'', ct_ports = [], ct_app = [],
       ct_networks = [''a'', ''b''], ct_project = ''p1'', ct_logs = []\<rparr>,
      \<lparr>ct_id = ''c2'', ct_name = ''db'', ct_status = ''stopped'', ct_image = ''pg'', ct_ports = ''5432/tcp'', ct_app = [],
       ct_networks = [''a''], ct_project = [], ct_logs = []\<rparr>]" by code_simp
  show ?thesis using listing_reads_what_docker_prints[OF o ok, of False] unfolding cs by auto
qed

end
