(* ===== verification/Machine.thy ===== *)
theory Machine
  imports Sandbox Docker
begin

text \<open>
  \<open>internal/system/metrics.go\<close> and the machine facts of \<open>internal/agent/handshake.go\<close>: what the
  operating system and gopsutil answer is the record \<open>probes\<close>; how the agent combines the answers,
  with its fallbacks, is defined here.
\<close>

section \<open>Answers of the machine\<close>

text \<open>The fields of \<open>statfs\<close> that are read, and an interface address.\<close>

record statfs =
  sf_bavail :: uint64
  sf_blocks :: uint64
  sf_bsize :: uint64

text \<open>\<open>ia_net\<close> says that the address is an \<open>*net.IPNet\<close>, \<open>ia_v4\<close> that \<open>To4\<close> is not nil.\<close>

record iface_addr =
  ia_net :: bool
  ia_loopback :: bool
  ia_v4 :: bool
  ia_text :: string

record probes =
  pb_statfs :: "path \<Rightarrow> (go_error, statfs) result"
  pb_cpu :: "(go_error, float64 list) result"
  pb_mem :: "(go_error, uint64 \<times> uint64 \<times> float64) result"
  pb_addrs :: "(go_error, iface_addr list) result"
  pb_public_ip :: "(go_error, string) result"
  pb_hostname :: string
  pb_goos :: string
  pb_goarch :: string
  pb_num_cpu :: int
  pb_platform :: "(go_error, string \<times> string) result"
  pb_security :: string

section \<open>Resources (metrics.go)\<close>

text \<open>Free and total bytes; the products wrap at 64 bits.\<close>

function disk_stats :: "probes \<Rightarrow> path \<Rightarrow> uint64 \<times> uint64 \<times> go_error option" where
  "disk_stats pb p =
     (case pb_statfs pb p of
        Inl e \<Rightarrow> (if p \<noteq> ''/'' then disk_stats pb ''/''
                  else (0, 0, Some (Wrapf ''cannot read disk stats: '' e [])))
      | Inr st \<Rightarrow> (sf_bavail st * sf_bsize st, sf_blocks st * sf_bsize st, None))"
  by pat_completeness auto
termination by (relation "measure (\<lambda>(pb, p). if p = ''/'' then 0 else 1)") auto

declare disk_stats.simps [simp del]

definition cpu_usage_percent :: "probes \<Rightarrow> float64 \<times> go_error option" where
  "cpu_usage_percent pb =
     (case pb_cpu pb of
        Inl e \<Rightarrow> (0, Some e)
      | Inr [] \<Rightarrow> (0, None)
      | Inr (p # _) \<Rightarrow> (p, None))"

definition ram_usage :: "probes \<Rightarrow> uint64 \<times> uint64 \<times> float64 \<times> go_error option" where
  "ram_usage pb =
     (case pb_mem pb of
        Inl e \<Rightarrow> (0, 0, 0, Some e)
      | Inr (used, ram, percent) \<Rightarrow> (used, ram, percent, None))"

section \<open>Who the machine is (handshake.go)\<close>

definition detect_docker_version :: "sys \<Rightarrow> host \<Rightarrow> (go_error, string) result \<times> host" where
  "detect_docker_version sys h =
     (let (r, h1) = exec sys [''docker'', ''version'', ''--format'', ''{{.Server.Version}}''] h
      in (case p_err r of Some e \<Rightarrow> Inl e | None \<Rightarrow> Inr (trim_space (p_out r)), h1))"

definition detect_local_ip :: "probes \<Rightarrow> string" where
  "detect_local_ip pb =
     (case pb_addrs pb of
        Inl e \<Rightarrow> []
      | Inr addrs \<Rightarrow>
          (case find (\<lambda>a. \<not> (\<not> ia_net a \<or> ia_loopback a \<or> \<not> ia_v4 a)) addrs of
             None \<Rightarrow> [] | Some a \<Rightarrow> ia_text a))"

text \<open>The request itself is the probe; the answer is trimmed.\<close>

definition fetch_public_ip :: "probes \<Rightarrow> (go_error, string) result" where
  "fetch_public_ip pb = (case pb_public_ip pb of Inl e \<Rightarrow> Inl e | Inr body \<Rightarrow> Inr (trim_space body))"

definition trim_quotes :: "string \<Rightarrow> string" where
  "trim_quotes s = trim_by (\<lambda>c. c = CHR 0x22 \<or> c = CHR 0x27) s"

text \<open>The first \<open>PRETTY_NAME\<close> of \<open>os-release\<close> that is not empty.\<close>

fun pretty_name :: "string list \<Rightarrow> string option" where
  "pretty_name [] = None"
| "pretty_name (line # ls) =
     (if has_prefix line ''PRETTY_NAME='' \<and> trim_quotes (trim_prefix line ''PRETTY_NAME='') \<noteq> []
      then Some (trim_quotes (trim_prefix line ''PRETTY_NAME='')) else pretty_name ls)"

definition platform_text :: "probes \<Rightarrow> string" where
  "platform_text pb =
     (case pb_platform pb of
        Inl e \<Rightarrow> pb_goos pb
      | Inr ([], version) \<Rightarrow> pb_goos pb
      | Inr (c # cs, version) \<Rightarrow>
          (if version \<noteq> [] then (upper_char c # cs) @ '' '' @ version else upper_char c # cs))"

definition get_os_display_string :: "probes \<Rightarrow> host \<Rightarrow> string \<times> host" where
  "get_os_display_string pb h =
     (if pb_goos pb = ''linux''
      then (case read_file ''/etc/os-release'' h of
              (Inr content, h1) \<Rightarrow>
                (case pretty_name (split_on newline content) of
                   Some v \<Rightarrow> (v, h1) | None \<Rightarrow> (platform_text pb, h1))
            | (Inl e, h1) \<Rightarrow> (platform_text pb, h1))
      else (platform_text pb, h))"

section \<open>The messages\<close>

definition snapshot_of ::
  "probes \<Rightarrow> sys \<Rightarrow> string \<Rightarrow> host \<Rightarrow> handshake \<times> host" where
  "snapshot_of pb sys version h =
     (let (docker, h1) = detect_docker_version sys h;
          (cs, h2) = list_containers sys h1;
          (nets, h3) = list_networks sys h2;
          (used, ram, _, _) = ram_usage pb;
          (free, disk, _) = disk_stats pb (data_dir h3);
          (os, h4) = get_os_display_string pb h3
      in (\<lparr>hk_host_name = pb_hostname pb, hk_agent_version = version, hk_os = os, hk_arch = pb_goarch pb,
           hk_cpu_cores = pb_num_cpu pb, hk_ram_bytes = ram, hk_ram_used = used, hk_disk_free = free,
           hk_disk_total = disk, hk_local_ip = detect_local_ip pb,
           hk_public_ip = (case fetch_public_ip pb of Inl _ \<Rightarrow> [] | Inr s \<Rightarrow> s),
           hk_docker_version = (case docker of Inl _ \<Rightarrow> [] | Inr s \<Rightarrow> s),
           hk_networks = (case nets of Inl _ \<Rightarrow> [] | Inr ns \<Rightarrow> ns),
           hk_containers = (case cs of Inl _ \<Rightarrow> [] | Inr xs \<Rightarrow> xs)\<rparr>, h4))"

text \<open>The time is in seconds; the figures of the containers are the caller's.\<close>

definition heartbeat_of :: "probes \<Rightarrow> string \<Rightarrow> container_metric list \<Rightarrow> host \<Rightarrow> heartbeat" where
  "heartbeat_of pb version stats h =
     (let (cpu, _) = cpu_usage_percent pb;
          (used, ram, _, _) = ram_usage pb;
          (free, disk, _) = disk_stats pb ''/''
      in \<lparr>hb_agent_version = trim_space version, hb_sent_at = clock h div 1000000000, hb_cpu = cpu,
          hb_ram_used = used, hb_ram_total = ram, hb_disk_free = free, hb_disk_total = disk,
          hb_metrics = stats, hb_security = pb_security pb\<rparr>)"

section \<open>What the fallbacks guarantee\<close>

lemma disk_stats_cases:
  "disk_stats pb p =
     (case pb_statfs pb p of
        Inr st \<Rightarrow> (sf_bavail st * sf_bsize st, sf_blocks st * sf_bsize st, None)
      | Inl _ \<Rightarrow> (case pb_statfs pb ''/'' of
                    Inr st \<Rightarrow> (sf_bavail st * sf_bsize st, sf_blocks st * sf_bsize st, None)
                  | Inl e \<Rightarrow> (0, 0, Some (Wrapf ''cannot read disk stats: '' e []))))"
  by (subst disk_stats.simps, subst disk_stats.simps) (auto split: sum.split)

lemma pretty_name_clean: "pretty_name ls = Some v \<Longrightarrow> v \<noteq> [] \<and> trim_quotes v = v"
  by (induction ls) (auto simp: trim_quotes_def split: if_splits)

end
