(* ===== verification/Transport.thy ===== *)
theory Transport
  imports Outbox_Disk Inbox Machine
begin

text \<open>
  \<open>internal/agent/transport.go\<close> and the parts of \<open>handshake.go\<close> and \<open>runtime.go\<close> that fix what the
  agent is made of: the state of a running agent, the two ways a message leaves it (a fact through
  the queue, a signal straight onto the socket) and the snapshot.
\<close>

section \<open>The state\<close>

text \<open>
  A websocket connection: whether it is open, what its next writes will do (a write past the end of
  the script succeeds), and the frames that were sent.
\<close>

record conn =
  cn_open :: bool
  cn_script :: "go_error option list"
  cn_sent :: "envelope list"

record agent =
  ag_server :: string
  ag_version :: string
  ag_queue :: queue
  ag_inbox :: inbox
  ag_deltas :: "(string \<times> string) list"
  ag_last_ack :: uint64
  ag_ack_at :: int
  ag_reset_at :: "int option"
  ag_conn :: conn
  ag_host :: host

text \<open>
  What is not the agent's own: the protocol, the codecs, the order of map ranges, the JSON of a
  frame, the decoders of incoming frames, the processes it starts and the answers of the machine.
\<close>

record deps =
  dp_proto :: proto
  dp_codec :: codec
  dp_receipts :: receipt_codec
  dp_visit :: visit
  dp_frame :: "envelope \<Rightarrow> string option"
  dp_ack :: "string \<Rightarrow> ack_frame option"
  dp_control :: "string \<Rightarrow> (string \<times> string) option"
  dp_command :: "string \<Rightarrow> command option"
  dp_sys :: sys
  dp_probes :: "host \<Rightarrow> probes"

section \<open>The socket\<close>

definition conn_close :: "conn \<Rightarrow> conn" where
  "conn_close c = c\<lparr>cn_open := False\<rparr>"

definition conn_write :: "envelope \<Rightarrow> conn \<Rightarrow> go_error option \<times> conn" where
  "conn_write e c =
     (if \<not> cn_open c then (Some (IOError ''use of closed network connection''), c)
      else (case cn_script c of
              [] \<Rightarrow> (None, c\<lparr>cn_sent := cn_sent c @ [e]\<rparr>)
            | None # os \<Rightarrow> (None, c\<lparr>cn_script := os, cn_sent := cn_sent c @ [e]\<rparr>)
            | Some er # os \<Rightarrow> (Some er, c\<lparr>cn_script := os\<rparr>)))"

definition write_json :: "deps \<Rightarrow> envelope \<Rightarrow> agent \<Rightarrow> go_error option \<times> agent" where
  "write_json dp e ag =
     (case dp_frame dp e of
        None \<Rightarrow> (Some (Msg ''json: unsupported value''), ag)
      | Some _ \<Rightarrow> (let (r, c) = conn_write e (ag_conn ag) in (r, ag\<lparr>ag_conn := c\<rparr>)))"

section \<open>Envelopes, facts and signals (transport.go)\<close>

definition or_generated :: "string \<Rightarrow> string \<Rightarrow> string \<Rightarrow> host \<Rightarrow> string" where
  "or_generated mid entity action h =
     (if mid \<noteq> [] then mid else entity @ ''-'' @ action @ ''-'' @ itoa (clock h))"

definition make_envelope :: "proto \<Rightarrow> string \<Rightarrow> string \<Rightarrow> string \<Rightarrow> message \<Rightarrow> agent \<Rightarrow> (go_error, envelope) result" where
  "make_envelope pr entity action mid payload ag =
     with_payload pr payload
       ((new_envelope pr entity action)\<lparr>ev_server := ag_server ag,
          ev_message_id := or_generated mid entity action (ag_host ag)\<rparr>)"

definition emit_fact :: "deps \<Rightarrow> string \<Rightarrow> string \<Rightarrow> string \<Rightarrow> message \<Rightarrow> agent \<Rightarrow> go_error option \<times> agent" where
  "emit_fact dp entity action mid payload ag =
     (case make_envelope (dp_proto dp) entity action mid payload ag of
        Inl e \<Rightarrow> (Some e, ag)
      | Inr env \<Rightarrow>
          (let (r, q, h) = enqueue (dp_proto dp) (dp_codec dp) (ag_queue ag) env (ag_host ag);
               ag1 = ag\<lparr>ag_queue := q, ag_host := h\<rparr>
           in case r of
                Inl e \<Rightarrow> (Some (Wrapf (''cannot queue '' @ entity @ '' '' @ action @ '': '') e []), ag1)
              | Inr _ \<Rightarrow> (None, ag1)))"

definition emit_signal :: "deps \<Rightarrow> string \<Rightarrow> string \<Rightarrow> message \<Rightarrow> agent \<Rightarrow> go_error option \<times> agent" where
  "emit_signal dp entity action payload ag =
     (case make_envelope (dp_proto dp) entity action [] payload ag of
        Inl e \<Rightarrow> (Some e, ag)
      | Inr env \<Rightarrow> write_json dp (as_signal (dp_proto dp) env) ag)"

section \<open>Snapshot and heartbeat (handshake.go)\<close>

definition snapshot_backlog_limit :: int where "snapshot_backlog_limit = 24"

definition build_snapshot :: "deps \<Rightarrow> agent \<Rightarrow> message \<times> agent" where
  "build_snapshot dp ag =
     (let (hello, h) = snapshot_of (dp_probes dp (ag_host ag)) (dp_sys dp) (ag_version ag) (ag_host ag)
      in (SnapshotMsg hello, ag\<lparr>ag_host := h\<rparr>))"

definition snapshot_would_pile_up :: "deps \<Rightarrow> agent \<Rightarrow> bool" where
  "snapshot_would_pile_up dp ag \<longleftrightarrow>
     \<not> (pending_count (ag_queue ag) \<le> snapshot_backlog_limit \<and> \<not> has_pending_snapshot (dp_proto dp) (ag_queue ag))"

definition send_snapshot :: "deps \<Rightarrow> agent \<Rightarrow> go_error option \<times> agent" where
  "send_snapshot dp ag =
     (let (hello, ag1) = build_snapshot dp ag in
      if snapshot_would_pile_up dp ag1 then (None, ag1)
      else emit_fact dp (ent_runtime (dp_proto dp)) (act_snapshot (dp_proto dp)) [] hello ag1)"

definition send_heartbeat :: "deps \<Rightarrow> agent \<Rightarrow> go_error option \<times> agent" where
  "send_heartbeat dp ag =
     (let (r, h) = collect_container_stats (dp_sys dp) (ag_host ag);
          beat = heartbeat_of (dp_probes dp h) (ag_version ag) (case r of Inl _ \<Rightarrow> [] | Inr stats \<Rightarrow> stats) h
      in case emit_signal dp (ent_runtime (dp_proto dp)) (act_heartbeat (dp_proto dp)) (HeartbeatMsg beat) (ag\<lparr>ag_host := h\<rparr>) of
        (Some e, ag1) \<Rightarrow> (Some (Wrapf ''cannot write heartbeat: '' e []), ag1)
      | (None, ag1) \<Rightarrow> (None, ag1))"

section \<open>What leaves and what stays\<close>

lemma conn_write_sent:
  "conn_write e c = (r, c') \<Longrightarrow> cn_sent c' = cn_sent c @ (if r = None then [e] else []) \<and> cn_open c' = cn_open c"
  by (auto simp: conn_write_def split: if_splits list.splits option.splits)

lemma write_json_frame:
  "write_json dp e ag = (r, ag') \<Longrightarrow>
   \<exists>c. ag' = ag\<lparr>ag_conn := c\<rparr> \<and> cn_sent c = cn_sent (ag_conn ag) @ (if r = None then [e] else []) \<and> cn_open c = cn_open (ag_conn ag)"
proof (cases "dp_frame dp e")
  case None
  assume "write_json dp e ag = (r, ag')"
  with None show ?thesis by (intro exI[of _ "ag_conn ag"]) (auto simp: write_json_def)
next
  case (Some s)
  assume w: "write_json dp e ag = (r, ag')"
  obtain r0 c where c: "conn_write e (ag_conn ag) = (r0, c)" by fastforce
  with w Some have "r = r0" "ag' = ag\<lparr>ag_conn := c\<rparr>" by (auto simp: write_json_def)
  with conn_write_sent[OF c] show ?thesis by blast
qed

text \<open>A signal touches nothing but the socket; a fact touches nothing but the queue and the disk.\<close>

lemma emit_signal_frame:
  assumes "emit_signal dp en ac m ag = (r, ag')"
  shows "ag_queue ag' = ag_queue ag \<and> ag_inbox ag' = ag_inbox ag \<and> ag_host ag' = ag_host ag \<and>
    ag_deltas ag' = ag_deltas ag \<and> ag_last_ack ag' = ag_last_ack ag \<and> ag_ack_at ag' = ag_ack_at ag \<and>
    ag_reset_at ag' = ag_reset_at ag \<and> ag_server ag' = ag_server ag \<and> cn_open (ag_conn ag') = cn_open (ag_conn ag)"
proof (cases "make_envelope (dp_proto dp) en ac [] m ag")
  case (Inl e)
  then show ?thesis using assms by (simp add: emit_signal_def)
next
  case (Inr env)
  then have "write_json dp (as_signal (dp_proto dp) env) ag = (r, ag')" using assms by (simp add: emit_signal_def)
  from write_json_frame[OF this] show ?thesis by auto
qed

lemma emit_signal_sent:
  assumes "emit_signal dp en ac m ag = (None, ag')"
  shows "\<exists>env. make_envelope (dp_proto dp) en ac [] m ag = Inr env \<and>
    cn_sent (ag_conn ag') = cn_sent (ag_conn ag) @ [as_signal (dp_proto dp) env]"
proof (cases "make_envelope (dp_proto dp) en ac [] m ag")
  case (Inl e)
  then show ?thesis using assms by (simp add: emit_signal_def)
next
  case (Inr env)
  then have "write_json dp (as_signal (dp_proto dp) env) ag = (None, ag')" using assms by (simp add: emit_signal_def)
  from write_json_frame[OF this] Inr show ?thesis by auto
qed

lemma emit_signal_failed:
  assumes "emit_signal dp en ac m ag = (Some e, ag')"
  shows "cn_sent (ag_conn ag') = cn_sent (ag_conn ag)"
proof (cases "make_envelope (dp_proto dp) en ac [] m ag")
  case (Inl er)
  then show ?thesis using assms by (simp add: emit_signal_def)
next
  case (Inr env)
  then have "write_json dp (as_signal (dp_proto dp) env) ag = (Some e, ag')" using assms by (simp add: emit_signal_def)
  from write_json_frame[OF this] show ?thesis by auto
qed

lemma emit_fact_frame:
  assumes "emit_fact dp en ac mid m ag = (r, ag')"
  shows "ag_conn ag' = ag_conn ag \<and> ag_inbox ag' = ag_inbox ag \<and> ag_deltas ag' = ag_deltas ag \<and>
    ag_last_ack ag' = ag_last_ack ag \<and> ag_ack_at ag' = ag_ack_at ag \<and> ag_reset_at ag' = ag_reset_at ag \<and>
    ag_server ag' = ag_server ag"
  using assms by (auto simp: emit_fact_def Let_def split: sum.splits prod.splits)

lemma emit_fact_queued:
  assumes "emit_fact dp en ac mid m ag = (None, ag')"
  shows "\<exists>env. make_envelope (dp_proto dp) en ac mid m ag = Inr env \<and>
    facts (ag_queue ag') (qu_next (ag_queue ag)) = Some (stamp (dp_proto dp) (ag_queue ag) env)"
proof -
  obtain env where env: "make_envelope (dp_proto dp) en ac mid m ag = Inr env"
    using assms by (auto simp: emit_fact_def split: sum.splits)
  then have "ag_queue ag' = fst (snd (enqueue (dp_proto dp) (dp_codec dp) (ag_queue ag) env (ag_host ag)))"
    using assms by (auto simp: emit_fact_def Let_def split: sum.splits prod.splits)
  then show ?thesis using env enqueue_facts by simp
qed

end
