(* ===== verification/Events.thy ===== *)
theory Events
  imports Transport
begin

text \<open>
  \<open>internal/agent/events.go\<close>: what the session does with the queue and the container states. Each
  loop is the step its ticker runs; a step returns whether the loop goes on.
\<close>

section \<open>Acknowledgements\<close>

text \<open>\<open>dp_ack\<close> decodes a frame and is \<open>None\<close> when it is not an acknowledgement.\<close>

definition consume_ack :: "deps \<Rightarrow> string \<Rightarrow> agent \<Rightarrow> bool \<times> agent" where
  "consume_ack dp message ag =
     (case dp_ack dp message of
        None \<Rightarrow> (False, ag)
      | Some ack \<Rightarrow>
          (let (_, q, h) = acknowledge (dp_codec dp) (ag_queue ag) (ak_upto ack) (ag_host ag);
               ag1 = ag\<lparr>ag_queue := q, ag_host := h\<rparr>
           in (True, if ak_upto ack > ag_last_ack ag1
                     then ag1\<lparr>ag_last_ack := ak_upto ack, ag_ack_at := clock (ag_host ag1)\<rparr> else ag1)))"

section \<open>The flush loop\<close>

definition event_flush_batch_size :: int where "event_flush_batch_size = 8"

definition ack_stall_threshold :: int where "ack_stall_threshold = 45000000000"

definition queue_reset_cooldown :: int where "queue_reset_cooldown = 120000000000"

definition queue_reset_min_pending :: int where "queue_reset_min_pending = 8"

definition mark_sent :: "deps \<Rightarrow> uint64 \<Rightarrow> go_error option \<Rightarrow> agent \<Rightarrow> agent" where
  "mark_sent dp s werr ag =
     (let (_, q, h) = mark_attempt (dp_codec dp) (ag_queue ag) s werr (ag_host ag)
      in ag\<lparr>ag_queue := q, ag_host := h\<rparr>)"

definition end_session :: "agent \<Rightarrow> agent" where
  "end_session ag = ag\<lparr>ag_conn := conn_close (ag_conn ag)\<rparr>"

fun flush_items :: "deps \<Rightarrow> queued list \<Rightarrow> agent \<Rightarrow> bool \<times> agent" where
  "flush_items dp [] ag = (True, ag)"
| "flush_items dp (it # its) ag =
     (case write_json dp (qd_env it) ag of
        (Some e, ag1) \<Rightarrow> (False, end_session (mark_sent dp (seq_of it) (Some e) ag1))
      | (None, ag1) \<Rightarrow> flush_items dp its (mark_sent dp (seq_of it) None ag1))"

definition flush_tick :: "deps \<Rightarrow> agent \<Rightarrow> bool \<times> agent" where
  "flush_tick dp ag = flush_items dp (due_items (ag_queue ag) event_flush_batch_size (ag_host ag)) ag"

section \<open>Recovery from a server that stopped acknowledging\<close>

definition ack_progress_stalled :: "agent \<Rightarrow> bool" where
  "ack_progress_stalled ag =
     (if pending_count (ag_queue ag) < queue_reset_min_pending then False
      else if clock (ag_host ag) - ag_ack_at ag < ack_stall_threshold then False
      else (case ag_reset_at ag of None \<Rightarrow> True | Some t \<Rightarrow> clock (ag_host ag) - t \<ge> queue_reset_cooldown))"

definition queue_self_heal_tick :: "deps \<Rightarrow> agent \<Rightarrow> bool \<times> agent" where
  "queue_self_heal_tick dp ag =
     (if \<not> ack_progress_stalled ag then (True, ag)
      else (let ((_, e), q, h) = reset_pending_for_recovery (dp_proto dp) (dp_codec dp) (ag_queue ag) (ag_host ag);
                ag1 = ag\<lparr>ag_queue := q, ag_host := h\<rparr>
            in if e \<noteq> None then (True, ag1)
               else (case send_snapshot dp (ag1\<lparr>ag_reset_at := Some (clock h), ag_ack_at := clock h\<rparr>) of
                       (Some _, ag2) \<Rightarrow> (False, end_session ag2)
                     | (None, ag2) \<Rightarrow> (True, ag2))))"

section \<open>Container deltas\<close>

definition state_key :: "container \<Rightarrow> string" where
  "state_key c =
     join ''|'' [trim_space (ct_status c), trim_space (ct_name c), trim_space (ct_image c),
                 trim_space (ct_ports c), trim_space (ct_app c)]"

definition container_state_changed :: "string \<Rightarrow> container \<Rightarrow> agent \<Rightarrow> bool \<times> agent" where
  "container_state_changed cid c ag =
     (if map_of (ag_deltas ag) cid = Some (state_key c) then (False, ag)
      else (True, ag\<lparr>ag_deltas := AList.update cid (state_key c) (ag_deltas ag)\<rparr>))"

definition forget_container_state :: "string \<Rightarrow> agent \<Rightarrow> agent" where
  "forget_container_state cid ag = ag\<lparr>ag_deltas := filter (\<lambda>(k, _). k \<noteq> cid) (ag_deltas ag)\<rparr>"

definition delta_of :: "string \<Rightarrow> container \<Rightarrow> container_delta" where
  "delta_of cid c =
     \<lparr>dl_id = cid, dl_name = trim_space (ct_name c), dl_status = trim_space (ct_status c),
      dl_image = trim_space (ct_image c), dl_ports = trim_space (ct_ports c), dl_app = trim_space (ct_app c)\<rparr>"

definition publish_container_delta :: "deps \<Rightarrow> container \<Rightarrow> agent \<Rightarrow> agent" where
  "publish_container_delta dp c ag =
     (let cid = trim_space (ct_id c) in
      if cid = [] then ag
      else (case container_state_changed cid c ag of
              (False, ag1) \<Rightarrow> ag1
            | (True, ag1) \<Rightarrow>
                (case emit_signal dp (ent_container (dp_proto dp)) (act_status_changed (dp_proto dp)) (DeltaMsg (delta_of cid c)) ag1 of
                   (Some _, ag2) \<Rightarrow> forget_container_state cid ag2
                 | (None, ag2) \<Rightarrow> ag2)))"

definition publish_container_status :: "deps \<Rightarrow> string \<Rightarrow> agent \<Rightarrow> agent" where
  "publish_container_status dp cid ag =
     (if trim_space cid = [] then ag
      else (case list_containers (dp_sys dp) (ag_host ag) of
              (Inl _, h) \<Rightarrow> ag\<lparr>ag_host := h\<rparr>
            | (Inr cs, h) \<Rightarrow>
                (case find (\<lambda>c. trim_space (ct_id c) = trim_space cid) cs of
                   None \<Rightarrow> ag\<lparr>ag_host := h\<rparr>
                 | Some c \<Rightarrow> publish_container_delta dp c (ag\<lparr>ag_host := h\<rparr>))))"

definition forget_missing_containers :: "string list \<Rightarrow> agent \<Rightarrow> agent" where
  "forget_missing_containers active ag = ag\<lparr>ag_deltas := filter (\<lambda>(k, _). k \<in> set active) (ag_deltas ag)\<rparr>"

definition has_new_container :: "container list \<Rightarrow> agent \<Rightarrow> bool" where
  "has_new_container cs ag = list_ex (\<lambda>c. map_of (ag_deltas ag) (trim_space (ct_id c)) = None) cs"

definition publish_all_container_statuses :: "deps \<Rightarrow> agent \<Rightarrow> agent" where
  "publish_all_container_statuses dp ag =
     (case list_containers_lite (dp_sys dp) (ag_host ag) of
        (Inl _, h) \<Rightarrow> ag\<lparr>ag_host := h\<rparr>
      | (Inr cs, h) \<Rightarrow>
          (let ag1 = ag\<lparr>ag_host := h\<rparr> in
           if has_new_container cs ag1 then snd (send_snapshot dp ag1)
           else forget_missing_containers (map (\<lambda>c. trim_space (ct_id c)) cs)
                  (foldl (\<lambda>a c. publish_container_delta dp c a) ag1 cs)))"

section \<open>Facts leave in order\<close>

lemma mark_sent_facts [simp]:
  "facts (ag_queue (mark_sent dp s w ag)) = facts (ag_queue ag)"
  "ag_conn (mark_sent dp s w ag) = ag_conn ag"
  by (simp_all add: mark_sent_def Let_def split: prod.splits) (metis fst_conv mark_attempt_facts snd_conv)

lemma mark_sent_promise: "promise_of (ag_queue (mark_sent dp s w ag)) = promise_of (ag_queue ag)"
proof -
  have "ag_queue (mark_sent dp s w ag) = fst (snd (mark_attempt (dp_codec dp) (ag_queue ag) s w (ag_host ag)))"
    by (simp add: mark_sent_def Let_def split: prod.splits)
  then show ?thesis by (simp add: promise_of_def mark_attempt_facts mark_attempt_fields)
qed

lemma end_session_fields [simp]:
  "ag_queue (end_session ag) = ag_queue ag" "cn_sent (ag_conn (end_session ag)) = cn_sent (ag_conn ag)"
  "\<not> cn_open (ag_conn (end_session ag))"
  by (simp_all add: end_session_def conn_close_def)

lemma flush_items_spec:
  "flush_items dp its ag = (go, ag') \<Longrightarrow>
   \<exists>k. cn_sent (ag_conn ag') = cn_sent (ag_conn ag) @ map qd_env (take k its) \<and>
       promise_of (ag_queue ag') = promise_of (ag_queue ag) \<and>
       (go \<longrightarrow> k = length its) \<and> (\<not> go \<longrightarrow> k < length its \<and> \<not> cn_open (ag_conn ag'))"
proof (induction its arbitrary: ag)
  case (Cons it its)
  obtain r ag1 where w: "write_json dp (qd_env it) ag = (r, ag1)" by fastforce
  from write_json_frame[OF w] have f: "cn_sent (ag_conn ag1) = cn_sent (ag_conn ag) @ (if r = None then [qd_env it] else [])"
    "ag_queue ag1 = ag_queue ag" by auto
  show ?case
  proof (cases r)
    case None
    let ?ag2 = "mark_sent dp (seq_of it) None ag1"
    have "flush_items dp its ?ag2 = (go, ag')" using Cons.prems w None by simp
    from Cons.IH[OF this] obtain k where
      "cn_sent (ag_conn ag') = cn_sent (ag_conn ?ag2) @ map qd_env (take k its)"
      "promise_of (ag_queue ag') = promise_of (ag_queue ?ag2)"
      "(go \<longrightarrow> k = length its) \<and> (\<not> go \<longrightarrow> k < length its \<and> \<not> cn_open (ag_conn ag'))" by blast
    then show ?thesis using f None by (intro exI[of _ "Suc k"]) (simp add: mark_sent_promise)
  next
    case (Some e)
    have "go = False" "ag' = end_session (mark_sent dp (seq_of it) (Some e) ag1)" using Cons.prems w Some by auto
    then show ?thesis using f Some by (intro exI[of _ 0]) (simp add: mark_sent_promise)
  qed
qed simp

text \<open>
  C11: The flush loop puts facts on the wire in the order of their numbers and drops none. One tick
  sends a prefix of what is due, at most eight, in strictly increasing sequence; when a write fails it stops
  there and closes the socket; and whatever happened to the socket, every fact is still pending
  afterwards, to be removed by an acknowledgement only.
\<close>

theorem flush_sends_in_order:
  assumes "flush_tick dp ag = (go, ag')" and "queue_inv (ag_queue ag)"
  shows "\<exists>sent. cn_sent (ag_conn ag') = cn_sent (ag_conn ag) @ map qd_env sent \<and>
    prefix sent (due_items (ag_queue ag) event_flush_batch_size (ag_host ag)) \<and> length sent \<le> 8 \<and>
    sorted_wrt (<) (map seq_of sent) \<and>
    (go \<longrightarrow> sent = due_items (ag_queue ag) event_flush_batch_size (ag_host ag)) \<and>
    (\<not> go \<longrightarrow> \<not> cn_open (ag_conn ag')) \<and>
    promise_of (ag_queue ag') = promise_of (ag_queue ag)"
proof -
  let ?due = "due_items (ag_queue ag) event_flush_batch_size (ag_host ag)"
  obtain k where k: "cn_sent (ag_conn ag') = cn_sent (ag_conn ag) @ map qd_env (take k ?due)"
    "promise_of (ag_queue ag') = promise_of (ag_queue ag)"
    "go \<longrightarrow> k = length ?due" "\<not> go \<longrightarrow> k < length ?due \<and> \<not> cn_open (ag_conn ag')"
    using flush_items_spec[OF assms(1)[unfolded flush_tick_def]] by blast
  have s: "sorted_wrt (<) (map seq_of ?due)" and l: "int (length ?due) \<le> event_flush_batch_size"
    using due_items_sorted[OF assms(2)] due_items_bounded[of event_flush_batch_size] by (auto simp: event_flush_batch_size_def)
  have "sorted_wrt (<) (map seq_of (take k ?due))"
    using s by (simp add: take_map[symmetric] sorted_wrt_take)
  moreover have "length (take k ?due) \<le> 8" using l by (simp add: event_flush_batch_size_def)
  ultimately show ?thesis using k by (intro exI[of _ "take k ?due"]) (auto simp: take_is_prefix)
qed

section \<open>Deltas\<close>

lemma forget_container_state_fields [simp]:
  "ag_conn (forget_container_state c ag) = ag_conn ag" "ag_queue (forget_container_state c ag) = ag_queue ag"
  "map_of (ag_deltas (forget_container_state c ag)) c = None"
  by (auto simp: forget_container_state_def map_of_eq_None_iff)

text \<open>What a socket does with a frame: it takes it exactly when it is open and its next write is no error.\<close>

definition socket_takes :: "deps \<Rightarrow> envelope \<Rightarrow> agent \<Rightarrow> bool" where
  "socket_takes dp e ag \<longleftrightarrow>
     dp_frame dp e \<noteq> None \<and> cn_open (ag_conn ag) \<and> (\<forall>er os. cn_script (ag_conn ag) \<noteq> Some er # os)"

lemma write_json_taken: "fst (write_json dp e ag) = None \<longleftrightarrow> socket_takes dp e ag"
  by (auto simp: write_json_def socket_takes_def conn_write_def split: option.splits list.splits prod.splits if_splits)

lemma map_of_forgotten: "map_of (ag_deltas (forget_container_state cid ag)) = (map_of (ag_deltas ag))(cid := None)"
  by (auto simp: forget_container_state_def map_of_filter_fst fun_eq_iff)

text \<open>
  C31: A container change is reported once, and reported again until it went out. A state equal to
  the last one reported sends nothing and changes nothing. A changed one is encoded and written: when the frame can be
  encoded and the socket takes it, that one frame is sent and the state remembered, so that the same state
  is not sent again; when the encoding or the write fails, nothing is sent and the state is forgotten, so that
  the next pass tries it again. What is remembered of the other containers stays in both cases.
\<close>

theorem delta_until_sent:
  assumes "trim_space (ct_id c) \<noteq> []"
    and "cid = trim_space (ct_id c)" and "ag' = publish_container_delta dp c ag"
    and "made = make_envelope (dp_proto dp) (ent_container (dp_proto dp)) (act_status_changed (dp_proto dp)) [] (DeltaMsg (delta_of cid c)) ag"
  shows "if map_of (ag_deltas ag) cid = Some (state_key c) then ag' = ag
    else (if \<exists>env. made = Inr env \<and> socket_takes dp (as_signal (dp_proto dp) env) ag
          then (\<exists>env. made = Inr env \<and> cn_sent (ag_conn ag') = cn_sent (ag_conn ag) @ [as_signal (dp_proto dp) env]) \<and>
               map_of (ag_deltas ag') = (map_of (ag_deltas ag))(cid \<mapsto> state_key c)
          else cn_sent (ag_conn ag') = cn_sent (ag_conn ag) \<and>
               map_of (ag_deltas ag') = (map_of (ag_deltas ag))(cid := None))"
proof (cases "map_of (ag_deltas ag) cid = Some (state_key c)")
  case True
  then show ?thesis using assms by (simp add: publish_container_delta_def container_state_changed_def Let_def)
next
  case False
  let ?pr = "dp_proto dp" and ?ag1 = "ag\<lparr>ag_deltas := AList.update cid (state_key c) (ag_deltas ag)\<rparr>"
  obtain r ag2 where e: "emit_signal dp (ent_container ?pr) (act_status_changed ?pr) (DeltaMsg (delta_of cid c)) ?ag1 = (r, ag2)"
    by fastforce
  have p: "ag' = (if r = None then ag2 else forget_container_state cid ag2)"
    using assms(1-3) False e by (simp add: publish_container_delta_def container_state_changed_def Let_def split: option.split)
  have m: "make_envelope ?pr (ent_container ?pr) (act_status_changed ?pr) [] (DeltaMsg (delta_of cid c)) ?ag1 = made"
    by (simp add: make_envelope_def assms(4))
  have d: "map_of (ag_deltas ag2) = (map_of (ag_deltas ag))(cid \<mapsto> state_key c)"
    using emit_signal_frame[OF e] by (simp add: update_conv')
  have "socket_takes dp x ?ag1 = socket_takes dp x ag" for x by (simp add: socket_takes_def)
  then have r: "r = None \<longleftrightarrow> (\<exists>env. made = Inr env \<and> socket_takes dp (as_signal ?pr env) ag)"
    using e write_json_taken[of dp _ ?ag1] by (cases made) (auto simp: emit_signal_def m prod_eq_iff)
  show ?thesis
  proof (cases "r = None")
    case True
    from emit_signal_sent[OF e[unfolded True]] obtain env where "made = Inr env"
      "cn_sent (ag_conn ag2) = cn_sent (ag_conn ag) @ [as_signal ?pr env]" unfolding m by auto
    then show ?thesis using False True r p d by auto
  next
    case failed: False
    then obtain er where "r = Some er" by blast
    from emit_signal_failed[OF e[unfolded this]] have "cn_sent (ag_conn ag') = cn_sent (ag_conn ag)" using p failed by simp
    moreover have "map_of (ag_deltas ag') = (map_of (ag_deltas ag))(cid := None)" using p failed d by (simp add: map_of_forgotten)
    moreover have "\<not> (\<exists>env. made = Inr env \<and> socket_takes dp (as_signal ?pr env) ag)" using failed r by blast
    ultimately show ?thesis using False by (simp only: if_False if_not_P simp_thms)
  qed
qed

definition demo_probes :: probes where
  "demo_probes =
     \<lparr>pb_statfs = (\<lambda>_. Inr \<lparr>sf_bavail = 3, sf_blocks = 10, sf_bsize = 4096\<rparr>), pb_cpu = Inr [], pb_mem = Inr (1, 2, 0),
      pb_addrs = Inr [], pb_public_ip = Inr ''198.51.100.7'', pb_hostname = ''vps'', pb_goos = ''linux'', pb_goarch = ''amd64'',
      pb_num_cpu = 2, pb_platform = Inr (''debian'', ''12''), pb_security = []\<rparr>"

definition demo_deps :: deps where
  "demo_deps =
     \<lparr>dp_proto = demo_proto, dp_codec = demo_codec, dp_receipts = demo_receipt_codec, dp_visit = (\<lambda>xs. xs),
      dp_frame = (\<lambda>_. Some ''{}''), dp_ack = (\<lambda>_. None), dp_control = (\<lambda>_. None), dp_command = (\<lambda>_. None),
      dp_sys = (\<lambda>c h. (\<lparr>p_out = [], p_all = [], p_err = None\<rparr>, h)), dp_probes = (\<lambda>h. demo_probes)\<rparr>"

definition demo_container :: container where
  "demo_container = \<lparr>ct_id = ''c1'', ct_name = ''web'', ct_status = ''running'', ct_image = ''nginx'', ct_ports = [],
     ct_app = [], ct_networks = [], ct_project = [], ct_logs = []\<rparr>"

definition demo_agent :: agent where
  "demo_agent =
     \<lparr>ag_server = ''s1'', ag_version = ''1'', ag_queue = demo_queue, ag_inbox = \<lparr>ib_path = ''/i'', ib_items = []\<rparr>,
      ag_deltas = [], ag_last_ack = 0, ag_ack_at = 0, ag_reset_at = None,
      ag_conn = \<lparr>cn_open = True, cn_script = [], cn_sent = []\<rparr>, ag_host = bare_host\<rparr>"

theorem delta_until_sent_witness:
  "cn_sent (ag_conn (publish_container_delta demo_deps demo_container (demo_agent\<lparr>ag_deltas := [(''c1'', ''running|web|nginx||'')]\<rparr>))) = [] \<and>
   length (cn_sent (ag_conn (publish_container_delta demo_deps demo_container (demo_agent\<lparr>ag_deltas := [(''c1'', ''stopped|web|nginx||'')]\<rparr>)))) = 1 \<and>
   map_of (ag_deltas (publish_container_delta demo_deps demo_container (demo_agent\<lparr>ag_deltas := [(''c1'', ''stopped|web|nginx||'')]\<rparr>))) ''c1''
     = Some ''running|web|nginx||'' \<and>
   map_of (ag_deltas (publish_container_delta demo_deps demo_container (demo_agent\<lparr>ag_deltas := [(''c1'', ''stopped|web|nginx||'')],
     ag_conn := \<lparr>cn_open = True, cn_script = [Some (IOError ''broken pipe'')], cn_sent = []\<rparr>\<rparr>))) ''c1'' = None"
proof -
  have n: "trim_space (ct_id demo_container) \<noteq> []" by (simp add: demo_container_def model_defs)
  have cid: "''c1'' = trim_space (ct_id demo_container)" by (simp add: demo_container_def model_defs)
  have key: "state_key demo_container = ''running|web|nginx||''" by (simp add: demo_container_def state_key_def model_defs)
  have made: "\<exists>env. make_envelope (dp_proto demo_deps) (ent_container (dp_proto demo_deps)) (act_status_changed (dp_proto demo_deps)) []
      (DeltaMsg (delta_of ''c1'' demo_container)) ag = Inr env" for ag
    by (simp add: make_envelope_def with_payload_def demo_deps_def demo_proto_def)
  let ?same = "demo_agent\<lparr>ag_deltas := [(''c1'', ''running|web|nginx||'')]\<rparr>"
  let ?new = "demo_agent\<lparr>ag_deltas := [(''c1'', ''stopped|web|nginx||'')]\<rparr>"
  let ?bad = "?new\<lparr>ag_conn := \<lparr>cn_open = True, cn_script = [Some (IOError ''broken pipe'')], cn_sent = []\<rparr>\<rparr>"
  have t: "socket_takes demo_deps e ?new" "\<not> socket_takes demo_deps e ?bad" for e
    by (simp_all add: socket_takes_def demo_deps_def demo_agent_def)
  note use = delta_until_sent[OF n cid refl refl]
  have "cn_sent (ag_conn (publish_container_delta demo_deps demo_container ?same)) = []"
    using use[of ?same demo_deps] by (simp add: key demo_agent_def)
  moreover have "length (cn_sent (ag_conn (publish_container_delta demo_deps demo_container ?new))) = 1 \<and>
      map_of (ag_deltas (publish_container_delta demo_deps demo_container ?new)) ''c1'' = Some ''running|web|nginx||''"
    using use[of ?new demo_deps] made[of ?new] t(1) by (auto simp: key demo_agent_def)
  moreover have "map_of (ag_deltas (publish_container_delta demo_deps demo_container ?bad)) ''c1'' = None"
    using use[of ?bad demo_deps] t(2) by (simp add: key)
  ultimately show ?thesis by simp
qed

lemma send_snapshot_frame:
  assumes "send_snapshot dp ag = (r, ag')"
  shows "ag_conn ag' = ag_conn ag \<and> ag_inbox ag' = ag_inbox ag \<and> ag_deltas ag' = ag_deltas ag \<and> ag_server ag' = ag_server ag"
proof -
  obtain hello ag1 where b: "build_snapshot dp ag = (hello, ag1)" by fastforce
  have f: "ag_conn ag1 = ag_conn ag" "ag_inbox ag1 = ag_inbox ag" "ag_deltas ag1 = ag_deltas ag" "ag_server ag1 = ag_server ag"
    using b by (auto simp: build_snapshot_def Let_def split: prod.splits)
  show ?thesis
  proof (cases "snapshot_would_pile_up dp ag1")
    case True
    then show ?thesis using assms b f by (simp add: send_snapshot_def)
  next
    case False
    then have "emit_fact dp (ent_runtime (dp_proto dp)) (act_snapshot (dp_proto dp)) [] hello ag1 = (r, ag')"
      using assms b by (simp add: send_snapshot_def)
    from emit_fact_frame[OF this] f show ?thesis by simp
  qed
qed

text \<open>
  C35: The periodic refresh never reports a delta of a container it has not seen. As soon as one
  container of the listing is new it sends a snapshot and returns without recording any container,
  so the same containers are new again at every tick: from the state an agent starts in, no number
  of refreshes on a machine that has containers writes a delta or records a state.
\<close>

theorem refresh_never_reports_new_containers:
  assumes "ag_deltas ag = []"
    and "\<And>h. \<exists>c cs h'. list_containers_lite (dp_sys dp) h = (Inr (c # cs), h')"
  shows "ag_deltas ((publish_all_container_statuses dp ^^ n) ag) = [] \<and>
    ag_conn ((publish_all_container_statuses dp ^^ n) ag) = ag_conn ag"
proof (induction n)
  case (Suc n)
  let ?a = "(publish_all_container_statuses dp ^^ n) ag"
  obtain c cs h' where l: "list_containers_lite (dp_sys dp) (ag_host ?a) = (Inr (c # cs), h')" using assms(2) by blast
  have "has_new_container (c # cs) (?a\<lparr>ag_host := h'\<rparr>)"
    using Suc by (simp add: has_new_container_def)
  then have "publish_all_container_statuses dp ?a = snd (send_snapshot dp (?a\<lparr>ag_host := h'\<rparr>))"
    using l by (simp add: publish_all_container_statuses_def Let_def)
  moreover have "ag_deltas (snd (send_snapshot dp (?a\<lparr>ag_host := h'\<rparr>))) = ag_deltas ?a \<and>
      ag_conn (snd (send_snapshot dp (?a\<lparr>ag_host := h'\<rparr>))) = ag_conn ?a"
    using send_snapshot_frame[of dp "?a\<lparr>ag_host := h'\<rparr>"] by (cases "send_snapshot dp (?a\<lparr>ag_host := h'\<rparr>)") simp
  ultimately show ?case using Suc by simp
qed (use assms in simp)

theorem refresh_never_reports_new_containers_witness:
  "cn_sent (ag_conn ((publish_all_container_statuses (demo_deps\<lparr>dp_sys := demo_docker\<rparr>) ^^ 5) demo_agent)) = []"
proof -
  let ?dp = "demo_deps\<lparr>dp_sys := demo_docker\<rparr>"
  have "ag_deltas demo_agent = []" by (simp add: demo_agent_def)
  moreover have "\<And>h. \<exists>c cs h'. list_containers_lite (dp_sys ?dp) h = (Inr (c # cs), h')"
    by (simp add: demo_docker_lists)
  ultimately have "ag_conn ((publish_all_container_statuses ?dp ^^ 5) demo_agent) = ag_conn demo_agent"
    using refresh_never_reports_new_containers by blast
  then show ?thesis by (simp add: demo_agent_def)
qed

text \<open>One tick with one due fact, for a concrete instance of the flush loop.\<close>

theorem flush_sends_in_order_witness:
  "cn_sent (ag_conn (snd (flush_tick demo_deps (demo_agent\<lparr>ag_queue := demo_queue\<lparr>qu_next := 2, qu_items := [(1, demo_item)]\<rparr>\<rparr>)))) =
     [qd_env demo_item]"
proof -
  let ?q = "demo_queue\<lparr>qu_next := 2, qu_items := [(1, demo_item)]\<rparr>"
  let ?a = "demo_agent\<lparr>ag_queue := ?q\<rparr>"
  have inv: "queue_inv (ag_queue ?a)"
    by (simp add: queue_inv_def queue_wf_def demo_queue_def demo_item_def seq_of_def)
  have due: "due_items (ag_queue ?a) event_flush_batch_size (ag_host ?a) = [demo_item]"
    by (simp add: due_items_def demo_queue_def demo_item_def seq_of_def demo_agent_def unix_milli_def Let_def event_flush_batch_size_def)
  have go: "fst (flush_tick demo_deps ?a)"
    by (simp only: flush_tick_def due) (simp add: write_json_def demo_deps_def demo_agent_def conn_write_def)
  obtain ag' where f: "flush_tick demo_deps ?a = (True, ag')" using go by (cases "flush_tick demo_deps ?a") simp
  from flush_sends_in_order[OF f inv] due have "cn_sent (ag_conn ag') = cn_sent (ag_conn ?a) @ map qd_env [demo_item]"
    by force
  then show ?thesis using f by (simp add: demo_agent_def)
qed

end
