(* ===== verification/Dispatch.thy ===== *)
theory Dispatch
  imports Events
begin

text \<open>
  \<open>internal/agent/command\_dispatch.go\<close> and the frame of \<open>commands.go\<close>: how one command of the
  dashboard is answered from its receipt, or carried out by the handler its type maps to and
  reported. The table of handlers is an argument of the definitions.
\<close>

section \<open>Requests\<close>

text \<open>
  What a handler produces: its log lines, its error and the payload it set (\<open>[]\<close> when none), and
  the agent after it.
\<close>

type_synonym outcome_of = "string list \<times> go_error option \<times> string"

type_synonym handler = "command \<Rightarrow> agent \<Rightarrow> outcome_of \<times> agent"

type_synonym handlers = "string \<Rightarrow> handler option"

definition require :: "string \<Rightarrow> string \<Rightarrow> (go_error, string) result" where
  "require value field =
     (if trim_space value = [] then Inl (Msg (field @ '' is required'')) else Inr (trim_space value))"

definition require_container_id :: "command \<Rightarrow> (go_error, string) result" where
  "require_container_id cmd = require (cm_container cmd) ''container_id''"

definition require_project_id :: "command \<Rightarrow> (go_error, string) result" where
  "require_project_id cmd = require (da_project (cm_deploy cmd)) ''project_id''"

definition require_domain :: "command \<Rightarrow> (go_error, string) result" where
  "require_domain cmd = require (cm_domain cmd) ''domain''"

definition execute_command :: "handlers \<Rightarrow> command \<Rightarrow> agent \<Rightarrow> outcome_of \<times> agent" where
  "execute_command hs cmd ag =
     (case hs (trim_space (cm_type cmd)) of None \<Rightarrow> (([], None, []), ag) | Some f \<Rightarrow> f cmd ag)"

section \<open>Reports\<close>

definition send_progress :: "deps \<Rightarrow> command_progress \<Rightarrow> agent \<Rightarrow> agent" where
  "send_progress dp p ag =
     snd (emit_signal dp (ent_command (dp_proto dp)) (act_progress (dp_proto dp)) (ProgressMsg p) ag)"

definition report_command_progress :: "deps \<Rightarrow> string \<Rightarrow> string \<Rightarrow> agent \<Rightarrow> agent" where
  "report_command_progress dp cid status ag =
     send_progress dp \<lparr>cp_id = cid, cp_status = status, cp_error = [], cp_logs = [], cp_payload = []\<rparr> ag"

definition result_of :: "command \<Rightarrow> outcome_of \<Rightarrow> command_result" where
  "result_of cmd out =
     (case out of (logs, err, payload) \<Rightarrow>
        \<lparr>cr_id = cm_id cmd, cr_success = (err = None),
         cr_error = (case err of None \<Rightarrow> [] | Some e \<Rightarrow> error_text e), cr_logs = logs, cr_payload = payload\<rparr>)"

definition inbox_mark_result :: "deps \<Rightarrow> command_result \<Rightarrow> agent \<Rightarrow> agent" where
  "inbox_mark_result dp res ag =
     (let (ib, h) = mark_result (dp_receipts dp) (dp_visit dp) (ag_inbox ag) res (ag_host ag)
      in ag\<lparr>ag_inbox := ib, ag_host := h\<rparr>)"

definition inbox_mark_running :: "deps \<Rightarrow> string \<Rightarrow> agent \<Rightarrow> agent" where
  "inbox_mark_running dp cid ag =
     (let (ib, h) = mark_running (dp_receipts dp) (dp_visit dp) (ag_inbox ag) cid (ag_host ag)
      in ag\<lparr>ag_inbox := ib, ag_host := h\<rparr>)"

definition publish_command_result :: "deps \<Rightarrow> command \<Rightarrow> outcome_of \<Rightarrow> agent \<Rightarrow> agent" where
  "publish_command_result dp cmd out ag =
     (let pr = dp_proto dp; res = result_of cmd out;
          status = (if cr_success res then st_succeeded pr else st_failed pr);
          ag1 = (if streaming pr (cm_type cmd)
                 then snd (emit_signal dp (ent_command pr) (act_result pr) (ResultMsg res) ag)
                 else snd (emit_fact dp (ent_command pr) (act_result pr) (''result-'' @ cm_id cmd) (ResultMsg res)
                             (inbox_mark_result dp res ag)))
      in send_progress dp \<lparr>cp_id = cm_id cmd, cp_status = status, cp_error = cr_error res, cp_logs = cr_logs res,
                           cp_payload = cr_payload res\<rparr> ag1)"

section \<open>One command\<close>

definition replay_idempotent_command :: "deps \<Rightarrow> command \<Rightarrow> agent \<Rightarrow> bool \<times> agent" where
  "replay_idempotent_command dp cmd ag =
     (let pr = dp_proto dp in
      if cm_id cmd = [] \<or> streaming pr (cm_type cmd) then (False, ag)
      else (case inbox_get (ag_inbox ag) (cm_id cmd) of
              None \<Rightarrow> (False, ag)
            | Some r \<Rightarrow>
                (if rc_status r = st_succeeded pr \<or> rc_status r = st_failed pr
                 then (let ag1 = snd (emit_signal dp (ent_command pr) (act_result pr) (ResultMsg (rc_result r)) ag)
                       in (True, send_progress dp \<lparr>cp_id = cm_id cmd, cp_status = rc_status r,
                                   cp_error = cr_error (rc_result r), cp_logs = cr_logs (rc_result r),
                                   cp_payload = cr_payload (rc_result r)\<rparr> ag1))
                 else if rc_status r = st_running pr
                      then (True, report_command_progress dp (cm_id cmd) (st_running pr) ag)
                      else (False, ag))))"

definition tracked :: "deps \<Rightarrow> command \<Rightarrow> bool" where
  "tracked dp cmd \<longleftrightarrow> cm_id cmd \<noteq> [] \<and> \<not> streaming (dp_proto dp) (cm_type cmd)"

definition begin_command :: "deps \<Rightarrow> command \<Rightarrow> agent \<Rightarrow> agent" where
  "begin_command dp cmd ag =
     (if tracked dp cmd
      then report_command_progress dp (cm_id cmd) (st_running (dp_proto dp))
             (inbox_mark_running dp (cm_id cmd)
               (report_command_progress dp (cm_id cmd) (st_received (dp_proto dp)) ag))
      else ag)"

text \<open>The types after whose success the container states are published.\<close>

definition finish_command :: "deps \<Rightarrow> string list \<Rightarrow> command \<Rightarrow> outcome_of \<Rightarrow> agent \<Rightarrow> agent" where
  "finish_command dp deploying cmd out ag =
     (let ag1 = (if cm_id cmd \<noteq> [] then publish_command_result dp cmd out ag else ag)
      in if fst (snd out) = None \<and> cm_type cmd \<in> set deploying then publish_all_container_statuses dp ag1 else ag1)"

definition run_command :: "deps \<Rightarrow> handlers \<Rightarrow> string list \<Rightarrow> command \<Rightarrow> agent \<Rightarrow> agent" where
  "run_command dp hs deploying cmd ag =
     (case replay_idempotent_command dp cmd ag of
        (True, ag1) \<Rightarrow> ag1
      | (False, ag1) \<Rightarrow>
          (let (out, ag2) = execute_command hs cmd (begin_command dp cmd ag1)
           in finish_command dp deploying cmd out ag2))"

section \<open>The store of receipts\<close>

text \<open>
  What the dispatcher relies on of the inbox: a receipt that was stored while there was room for it
  is the one found under its id, until another is stored for that id.
\<close>

locale receipt_store =
  fixes find_receipt :: "'s \<Rightarrow> string \<Rightarrow> receipt option"
    and store :: "'s \<Rightarrow> receipt \<Rightarrow> 's"
    and room :: "'s \<Rightarrow> string \<Rightarrow> bool"
  assumes find_stored: "room s (rc_id r) \<Longrightarrow> trim_space (rc_id r) = rc_id r \<Longrightarrow> rc_id r \<noteq> [] \<Longrightarrow> find_receipt (store s r) (rc_id r) = Some r"
    and room_again: "room s c \<Longrightarrow> trim_space (rc_id r) = rc_id r \<Longrightarrow> rc_id r \<noteq> [] \<Longrightarrow> rc_id r = c \<Longrightarrow> room (store s r) c"
begin

lemma last_receipt_wins:
  "room s c \<Longrightarrow> rc_id a = c \<Longrightarrow> rc_id b = c \<Longrightarrow> trim_space c = c \<Longrightarrow> c \<noteq> [] \<Longrightarrow>
   find_receipt (store (store s a) b) c = Some b"
  using find_stored[of "store s a" b] room_again[of s c a] by simp

end

definition inbox_room :: "visit \<Rightarrow> inbox \<Rightarrow> string \<Rightarrow> bool" where
  "inbox_room v ib c \<longleftrightarrow> inbox_inv ib \<and> visits v \<and>
     (length (ib_items ib) < command_inbox_cap \<or> c \<in> fst ` set (ib_items ib))"

definition store_receipt :: "receipt_codec \<Rightarrow> visit \<Rightarrow> host \<Rightarrow> inbox \<Rightarrow> receipt \<Rightarrow> inbox" where
  "store_receipt rcd v h ib r = fst (inbox_upsert rcd v ib r h)"

lemma length_AList_update_room:
  "length (AList.update k v xs) = (if k \<in> fst ` set xs then length xs else Suc (length xs))"
  by (induction xs) auto

lemma evict_room:
  assumes "inbox_room v ib (rc_id r)"
  shows "evict v (AList.update (rc_id r) r (ib_items ib)) = AList.update (rc_id r) r (ib_items ib)"
  using assms by (auto simp: evict_def inbox_room_def inbox_inv_def length_AList_update_room)

interpretation receipts: receipt_store inbox_get "store_receipt rcd v h" "inbox_room v"
proof
  fix s :: inbox and r :: receipt
  assume a: "inbox_room v s (rc_id r)" "trim_space (rc_id r) = rc_id r" "rc_id r \<noteq> []"
  then show "inbox_get (store_receipt rcd v h s r) (rc_id r) = Some r"
    by (simp add: store_receipt_def inbox_get_upsert evict_room update_conv')
next
  fix s :: inbox and c and r :: receipt
  assume a: "inbox_room v s c" "trim_space (rc_id r) = rc_id r" "rc_id r \<noteq> []" "rc_id r = c"
  have "inbox_inv (store_receipt rcd v h s r)"
    using a(1) by (simp add: store_receipt_def inbox_room_def inbox_upsert_inv)
  moreover have "ib_items (store_receipt rcd v h s r) = AList.update c r (ib_items s)"
    using a evict_room[of v s r] by (simp add: store_receipt_def inbox_upsert_items)
  moreover have "c \<in> fst ` set (AList.update c r (ib_items s))"
    by (simp add: dom_update[unfolded dom_map_of_conv_image_fst])
  ultimately show "inbox_room v (store_receipt rcd v h s r) c"
    using a(1) by (simp add: inbox_room_def)
qed

section \<open>Frames of the reports\<close>

lemma send_progress_frame [simp]:
  "ag_queue (send_progress dp p ag) = ag_queue ag" "ag_inbox (send_progress dp p ag) = ag_inbox ag"
  "ag_host (send_progress dp p ag) = ag_host ag"
  unfolding send_progress_def
  by (cases "emit_signal dp (ent_command (dp_proto dp)) (act_progress (dp_proto dp)) (ProgressMsg p) ag";
      simp add: emit_signal_frame)+

lemma report_command_progress_frame [simp]:
  "ag_queue (report_command_progress dp c s ag) = ag_queue ag" "ag_inbox (report_command_progress dp c s ag) = ag_inbox ag"
  "ag_host (report_command_progress dp c s ag) = ag_host ag"
  by (simp_all add: report_command_progress_def)

lemma emit_signal_frame_snd [simp]:
  "ag_queue (snd (emit_signal dp en ac m ag)) = ag_queue ag" "ag_inbox (snd (emit_signal dp en ac m ag)) = ag_inbox ag"
  by (cases "emit_signal dp en ac m ag"; simp add: emit_signal_frame)+

lemma inbox_mark_running_frame [simp]:
  "ag_queue (inbox_mark_running dp c ag) = ag_queue ag"
  "ag_inbox (inbox_mark_running dp c ag) =
     store_receipt (dp_receipts dp) (dp_visit dp) (ag_host ag) (ag_inbox ag) (running_receipt c (ag_host ag))"
  by (simp_all add: inbox_mark_running_def mark_running_def store_receipt_def split: prod.splits)

lemma inbox_mark_result_frame [simp]:
  "ag_queue (inbox_mark_result dp r ag) = ag_queue ag"
  "ag_inbox (inbox_mark_result dp r ag) =
     store_receipt (dp_receipts dp) (dp_visit dp) (ag_host ag) (ag_inbox ag) (result_receipt r (ag_host ag))"
  by (simp_all add: inbox_mark_result_def mark_result_def store_receipt_def split: prod.splits)

lemma emit_fact_inbox [simp]: "ag_inbox (snd (emit_fact dp en ac mid m ag)) = ag_inbox ag"
  by (cases "emit_fact dp en ac mid m ag"; simp add: emit_fact_frame)

lemma send_snapshot_inbox [simp]: "ag_inbox (snd (send_snapshot dp ag)) = ag_inbox ag"
  by (cases "send_snapshot dp ag"; simp add: send_snapshot_frame)

lemma publish_container_delta_inbox [simp]: "ag_inbox (publish_container_delta dp c ag) = ag_inbox ag"
  unfolding publish_container_delta_def container_state_changed_def forget_container_state_def Let_def
  by (auto split: prod.splits option.splits if_splits dest!: emit_signal_frame)

lemma publish_all_inbox [simp]: "ag_inbox (publish_all_container_statuses dp ag) = ag_inbox ag"
proof -
  have "ag_inbox (foldl (\<lambda>a c. publish_container_delta dp c a) a cs) = ag_inbox a" for a cs
    by (induction cs arbitrary: a) simp_all
  then show ?thesis
    by (simp add: publish_all_container_statuses_def forget_missing_containers_def Let_def split: prod.split sum.split)
qed

lemma finish_command_inbox:
  assumes "tracked dp cmd"
  shows "ag_inbox (finish_command dp ds cmd out ag) =
    store_receipt (dp_receipts dp) (dp_visit dp) (ag_host ag) (ag_inbox ag) (result_receipt (result_of cmd out) (ag_host ag))"
  using assms by (simp add: finish_command_def publish_command_result_def tracked_def Let_def)

lemma begin_command_inbox:
  assumes "tracked dp cmd"
  shows "ag_inbox (begin_command dp cmd ag) =
    store_receipt (dp_receipts dp) (dp_visit dp) (ag_host ag) (ag_inbox ag) (running_receipt (cm_id cmd) (ag_host ag))"
  using assms by (simp add: begin_command_def)

section \<open>At most once\<close>

text \<open>What the inbox writes and what the dispatcher compares with are the same three words.\<close>

definition statuses_agree :: "proto \<Rightarrow> bool" where
  "statuses_agree pr \<longleftrightarrow> st_running pr = ''running'' \<and> st_succeeded pr = ''succeeded'' \<and> st_failed pr = ''failed''"

lemma replay_answers:
  assumes "tracked dp cmd" and "inbox_get (ag_inbox ag) (cm_id cmd) = Some r"
    and "rc_status r \<in> {st_running (dp_proto dp), st_succeeded (dp_proto dp), st_failed (dp_proto dp)}"
  shows "\<exists>ag'. replay_idempotent_command dp cmd ag = (True, ag') \<and> ag_queue ag' = ag_queue ag \<and>
    ag_inbox ag' = ag_inbox ag \<and> ag_host ag' = ag_host ag"
  using assms by (auto simp: replay_idempotent_command_def tracked_def Let_def) (metis emit_signal_frame prod.collapse)+

lemma replay_run:
  assumes "tracked dp cmd" and "inbox_get (ag_inbox ag) (cm_id cmd) = Some r"
    and "rc_status r \<in> {st_running (dp_proto dp), st_succeeded (dp_proto dp), st_failed (dp_proto dp)}"
  shows "run_command dp hs ds cmd ag = snd (replay_idempotent_command dp cmd ag) \<and>
    ag_queue (run_command dp hs ds cmd ag) = ag_queue ag \<and> ag_inbox (run_command dp hs ds cmd ag) = ag_inbox ag"
  using replay_answers[OF assms] by (auto simp: run_command_def)

lemmas replay_frame = replay_run[THEN conjunct2]

lemma replay_same:
  assumes "tracked dp cmd" and "inbox_get (ag_inbox ag) (cm_id cmd) = Some r"
    and "rc_status r \<in> {st_running (dp_proto dp), st_succeeded (dp_proto dp), st_failed (dp_proto dp)}"
  shows "run_command dp hs' ds' cmd ag = run_command dp hs ds cmd ag"
  using replay_run[OF assms, THEN conjunct1] by simp

definition keeps_inbox :: "handlers \<Rightarrow> bool" where
  "keeps_inbox hs \<longleftrightarrow> (\<forall>t f cmd ag. hs t = Some f \<longrightarrow> ag_inbox (snd (f cmd ag)) = ag_inbox ag)"

lemma execute_command_inbox: "keeps_inbox hs \<Longrightarrow> ag_inbox (snd (execute_command hs cmd ag)) = ag_inbox ag"
  by (auto simp: execute_command_def keeps_inbox_def split: option.split)

text \<open>
  A delivery is carried out when what becomes of the agent depends on what the handlers do. \<open>deliveries\<close> is
  what a list of deliveries, each handled to its end before the next, carries out and with which results, and
  the agent after them.
\<close>

definition carried_out :: "deps \<Rightarrow> string list \<Rightarrow> command \<Rightarrow> agent \<Rightarrow> bool" where
  "carried_out dp ds cmd ag \<longleftrightarrow> (\<exists>hs hs'. run_command dp hs ds cmd ag \<noteq> run_command dp hs' ds cmd ag)"

fun deliveries :: "deps \<Rightarrow> handlers \<Rightarrow> string list \<Rightarrow> command list \<Rightarrow> agent \<Rightarrow> (string \<times> command_result) list \<times> agent" where
  "deliveries dp hs ds [] ag = ([], ag)"
| "deliveries dp hs ds (cmd # cmds) ag =
     (case deliveries dp hs ds cmds (run_command dp hs ds cmd ag) of
        (carried, ag') \<Rightarrow>
          ((if carried_out dp ds cmd ag
            then [(cm_id cmd, result_of cmd (fst (execute_command hs cmd (begin_command dp cmd ag))))] else []) @ carried, ag'))"

text \<open>A receipt from which a delivery is answered.\<close>

definition answered :: "deps \<Rightarrow> inbox \<Rightarrow> string \<Rightarrow> bool" where
  "answered dp ib c \<longleftrightarrow> (\<exists>r. inbox_get ib c = Some r \<and>
     rc_status r \<in> {st_running (dp_proto dp), st_succeeded (dp_proto dp), st_failed (dp_proto dp)})"

definition trimmed_command :: "deps \<Rightarrow> command \<Rightarrow> bool" where
  "trimmed_command dp cmd \<longleftrightarrow> tracked dp cmd \<and> trim_space (cm_id cmd) = cm_id cmd"

lemma answered_delivery:
  assumes "tracked dp cmd" and "answered dp (ag_inbox ag) (cm_id cmd)"
  shows "\<not> carried_out dp ds cmd ag" and "ag_queue (run_command dp hs ds cmd ag) = ag_queue ag"
    and "ag_inbox (run_command dp hs ds cmd ag) = ag_inbox ag"
  using assms replay_frame replay_same unfolding answered_def carried_out_def by blast+

lemma store_receipt_items:
  assumes "inbox_room v ib (rc_id r)" and "trim_space (rc_id r) = rc_id r" and "rc_id r \<noteq> []"
  shows "ib_items (store_receipt rcd v h ib r) = AList.update (rc_id r) r (ib_items ib)"
  using assms evict_room[OF assms(1)] by (simp add: store_receipt_def inbox_upsert_items)

lemma store_receipt_inv:
  assumes "inbox_room v ib c"
  shows "inbox_inv (store_receipt rcd v h ib r)"
  using assms by (simp add: store_receipt_def inbox_room_def inbox_upsert_inv)

lemma first_delivery:
  assumes "trimmed_command dp cmd" and "\<not> answered dp (ag_inbox ag) (cm_id cmd)"
    and "inbox_room (dp_visit dp) (ag_inbox ag) (cm_id cmd)" and "keeps_inbox hs"
    and "res = result_of cmd (fst (execute_command hs cmd (begin_command dp cmd ag)))"
  shows "\<exists>r. rc_result r = res \<and> rc_status r = (if cr_success res then ''succeeded'' else ''failed'') \<and>
      map_of (ib_items (ag_inbox (run_command dp hs ds cmd ag))) = (map_of (ib_items (ag_inbox ag)))(cm_id cmd \<mapsto> r) \<and>
      inbox_inv (ag_inbox (run_command dp hs ds cmd ag))"
proof -
  let ?c = "cm_id cmd" and ?rcd = "dp_receipts dp" and ?v = "dp_visit dp"
  have id: "tracked dp cmd" "trim_space ?c = ?c" "?c \<noteq> []" using assms(1) by (simp_all add: trimmed_command_def tracked_def)
  have no: "replay_idempotent_command dp cmd ag = (False, ag)"
    using assms(2) by (simp add: replay_idempotent_command_def answered_def Let_def split: option.split)
  obtain out ag2 where ex: "execute_command hs cmd (begin_command dp cmd ag) = (out, ag2)" by fastforce
  let ?run = "running_receipt ?c (ag_host ag)" and ?res = "result_receipt res (ag_host ag2)"
  have i2: "ag_inbox ag2 = store_receipt ?rcd ?v (ag_host ag) (ag_inbox ag) ?run"
    using execute_command_inbox[OF assms(4), of cmd "begin_command dp cmd ag"] ex begin_command_inbox[OF id(1)] by simp
  have i3: "ag_inbox (run_command dp hs ds cmd ag) = store_receipt ?rcd ?v (ag_host ag2) (ag_inbox ag2) ?res"
    using no ex finish_command_inbox[OF id(1)] by (simp add: run_command_def assms(5))
  have ids: "rc_id ?run = ?c" "rc_id ?res = ?c"
    using id(2) by (simp_all add: running_receipt_def result_receipt_def assms(5) result_of_def split: prod.split)
  have room: "inbox_room ?v (ag_inbox ag2) ?c"
    unfolding i2 using id assms(3) ids(1) by (intro receipts.room_again) simp_all
  have "ib_items (ag_inbox ag2) = AList.update ?c ?run (ib_items (ag_inbox ag))"
    unfolding i2 using store_receipt_items[of ?v "ag_inbox ag" ?run] ids(1) id assms(3) by simp
  moreover have "ib_items (ag_inbox (run_command dp hs ds cmd ag)) = AList.update ?c ?res (ib_items (ag_inbox ag2))"
    unfolding i3 using store_receipt_items[of ?v "ag_inbox ag2" ?res] ids(2) id room by simp
  ultimately have "map_of (ib_items (ag_inbox (run_command dp hs ds cmd ag))) = (map_of (ib_items (ag_inbox ag)))(?c \<mapsto> ?res)"
    by (simp add: update_conv')
  moreover have "inbox_inv (ag_inbox (run_command dp hs ds cmd ag))" unfolding i3 by (rule store_receipt_inv[OF room])
  ultimately show ?thesis by (intro exI[of _ ?res]) (simp add: result_receipt_def)
qed

lemma unanswered_carried_out:
  assumes "trimmed_command dp cmd" and "\<not> answered dp (ag_inbox ag) (cm_id cmd)"
    and "inbox_room (dp_visit dp) (ag_inbox ag) (cm_id cmd)"
  shows "carried_out dp ds cmd ag"
proof -
  define hs where "hs e = (\<lambda>t :: string. Some (\<lambda>(cmd :: command) (ag :: agent). (([], e, []) :: outcome_of, ag)))" for e
  have keeps: "keeps_inbox (hs e)" for e by (simp add: keeps_inbox_def hs_def)
  have success: "cr_success (result_of cmd (fst (execute_command (hs e) cmd b))) \<longleftrightarrow> e = None" for e b
    by (simp add: execute_command_def hs_def result_of_def)
  have "map_option rc_status (map_of (ib_items (ag_inbox (run_command dp (hs e) ds cmd ag))) (cm_id cmd)) =
      Some (if e = None then ''succeeded'' else ''failed'')" for e
    using first_delivery[OF assms keeps[of e] refl, of ds] success by auto
  from this[of None] this[of "Some (Msg [])"]
  have "run_command dp (hs None) ds cmd ag \<noteq> run_command dp (hs (Some (Msg []))) ds cmd ag" by auto
  then show ?thesis unfolding carried_out_def by blast
qed

lemma room_within:
  assumes "inbox_inv ib" and "visits v" and "fst ` set (ib_items ib) \<subseteq> K" and "c \<in> K" and "finite K" and "card K \<le> command_inbox_cap"
  shows "inbox_room v ib c"
proof -
  let ?D = "fst ` set (ib_items ib)"
  have len: "length (ib_items ib) = card ?D"
    using assms(1) distinct_card[of "map fst (ib_items ib)"] by (simp add: inbox_inv_def)
  have "length (ib_items ib) < command_inbox_cap" if "c \<notin> ?D"
  proof -
    have "insert c ?D \<subseteq> K" using assms(3,4) by simp
    then have "card (insert c ?D) \<le> card K" using assms(5) by (rule card_mono[rotated])
    then show ?thesis using that assms(6) len by simp
  qed
  then show ?thesis using assms(1,2) by (auto simp: inbox_room_def)
qed

lemma deliveries_once:
  assumes "inbox_inv (ag_inbox ag)" and "visits (dp_visit dp)" and "statuses_agree (dp_proto dp)" and "keeps_inbox hs"
    and "list_all (trimmed_command dp) cmds"
    and "fst ` set (ib_items (ag_inbox ag)) \<subseteq> K" and "cm_id ` set cmds \<subseteq> K" and "card K \<le> command_inbox_cap" and "finite K"
    and "deliveries dp hs ds cmds ag = (carried, ag')"
  shows "distinct (map fst carried) \<and>
    set (map fst carried) = {c \<in> cm_id ` set cmds. \<not> answered dp (ag_inbox ag) c} \<and>
    (\<forall>(c, res) \<in> set carried. \<exists>r. inbox_get (ag_inbox ag') c = Some r \<and> rc_result r = res \<and>
       rc_status r = (if cr_success res then ''succeeded'' else ''failed'')) \<and>
    (\<forall>c. answered dp (ag_inbox ag) c \<longrightarrow> inbox_get (ag_inbox ag') c = inbox_get (ag_inbox ag) c)"
  using assms
proof (induction cmds arbitrary: ag carried)
  case (Cons cmd cmds)
  let ?c = "cm_id cmd" and ?a1 = "run_command dp hs ds cmd ag"
  have cmd: "trimmed_command dp cmd" "tracked dp cmd" "trim_space ?c = ?c" "?c \<in> K"
    using Cons.prems(5,7) by (simp_all add: trimmed_command_def)
  obtain more where d: "deliveries dp hs ds cmds ?a1 = (more, ag')" using Cons.prems(10) by (auto split: prod.splits)
  show ?case
  proof (cases "answered dp (ag_inbox ag) ?c")
    case True
    note same = answered_delivery[OF cmd(2) True]
    then have "carried = more" using Cons.prems(10) d by (simp split: prod.splits)
    then show ?thesis using Cons.IH[of ?a1 more] Cons.prems same(3) d True by auto
  next
    case False
    let ?res = "result_of cmd (fst (execute_command hs cmd (begin_command dp cmd ag)))"
    have room: "inbox_room (dp_visit dp) (ag_inbox ag) ?c"
      using Cons.prems(1,2,6,8,9) cmd(4) by (intro room_within)
    obtain r where r: "rc_result r = ?res" "rc_status r = (if cr_success ?res then ''succeeded'' else ''failed'')"
      "map_of (ib_items (ag_inbox ?a1)) = (map_of (ib_items (ag_inbox ag)))(?c \<mapsto> r)" "inbox_inv (ag_inbox ?a1)"
      using first_delivery[OF cmd(1) False room Cons.prems(4) refl, of ds] by blast
    have get: "inbox_get (ag_inbox ?a1) q = (if trim_space q = ?c then Some r else inbox_get (ag_inbox ag) q)" for q
      by (simp add: inbox_get_def r(3))
    have "fst ` set (ib_items (ag_inbox ?a1)) = insert ?c (fst ` set (ib_items (ag_inbox ag)))"
      unfolding dom_map_of_conv_image_fst[symmetric] r(3) by simp
    then have keys: "fst ` set (ib_items (ag_inbox ?a1)) \<subseteq> K" using Cons.prems(6) cmd(4) by simp
    have carried: "carried = (?c, ?res) # more"
      using Cons.prems(10) d unanswered_carried_out[OF cmd(1) False room] by (simp split: prod.splits)
    have now: "answered dp (ag_inbox ?a1) ?c"
      using get[of ?c] cmd(3) r(2) Cons.prems(3) by (simp add: answered_def statuses_agree_def)
    have others: "answered dp (ag_inbox ?a1) q \<longleftrightarrow> answered dp (ag_inbox ag) q" if "trim_space q \<noteq> ?c" for q
      using get[of q] that by (simp add: answered_def)
    have nt: "\<not> answered dp (ag_inbox ag) q" if "trim_space q = ?c" for q
      using False that cmd(3) by (simp add: answered_def inbox_get_def)
    have tr: "trim_space q = q" if "q \<in> cm_id ` set cmds" for q
      using Cons.prems(5) that by (auto simp: list_all_iff trimmed_command_def)
    note ih = Cons.IH[OF r(4) Cons.prems(2-4) _ keys _ Cons.prems(8,9) d]
    have ih: "distinct (map fst more)" "set (map fst more) = {c \<in> cm_id ` set cmds. \<not> answered dp (ag_inbox ?a1) c}"
      "\<forall>(c, res) \<in> set more. \<exists>r. inbox_get (ag_inbox ag') c = Some r \<and> rc_result r = res \<and>
         rc_status r = (if cr_success res then ''succeeded'' else ''failed'')"
      "\<forall>c. answered dp (ag_inbox ?a1) c \<longrightarrow> inbox_get (ag_inbox ag') c = inbox_get (ag_inbox ?a1) c"
      using ih Cons.prems(5,7) by simp_all
    have "set (map fst carried) = {c \<in> cm_id ` set (cmd # cmds). \<not> answered dp (ag_inbox ag) c}"
    proof -
      have "answered dp (ag_inbox ?a1) q \<longleftrightarrow> q = ?c \<or> answered dp (ag_inbox ag) q" if "q \<in> cm_id ` set cmds" for q
        using others[of q] now tr[OF that] by metis
      then have "set (map fst more) = {c \<in> cm_id ` set cmds. c \<noteq> ?c \<and> \<not> answered dp (ag_inbox ag) c}" unfolding ih(2) by blast
      then show ?thesis unfolding carried using False by auto
    qed
    moreover have "distinct (map fst carried)" unfolding carried using ih(1,2) now by auto
    moreover have "inbox_get (ag_inbox ag') ?c = Some r" using ih(4) now get[of ?c] cmd(3) by simp
    moreover have "inbox_get (ag_inbox ag') q = inbox_get (ag_inbox ag) q" if "answered dp (ag_inbox ag) q" for q
      using ih(4) others[of q] nt[of q] get[of q] that by metis
    ultimately show ?thesis using ih(3) r(1,2) unfolding carried by auto
  qed
qed simp

text \<open>
  C15: Deliveries that are handled one after another carry each command out exactly once or not at all: a tracked
  command whose receipt already says running, succeeded or failed is not carried out by any of them, and
  every other command is carried out by the first of its deliveries and by no later one. Its result is the one
  the inbox holds at the end, with the status it calls for; the receipts that were there before keep what they
  said; and a delivery that is not carried out queues nothing and leaves the inbox alone. Needed
  are ids without white space around them, room in the inbox for the ids, and handlers that leave the receipts alone, as
  those of the table do (\<open>from_table_keeps_inbox\<close> in \<open>Answers\<close>). Deliveries side by side are another matter,
  see C37.
\<close>

theorem command_at_most_once:
  assumes "inbox_inv (ag_inbox ag)" and "visits (dp_visit dp)" and "statuses_agree (dp_proto dp)" and "keeps_inbox hs"
    and "list_all (trimmed_command dp) cmds"
    and "card (fst ` set (ib_items (ag_inbox ag)) \<union> cm_id ` set cmds) \<le> command_inbox_cap"
    and "deliveries dp hs ds cmds ag = (carried, ag')"
  shows "distinct (map fst carried) \<and>
    set (map fst carried) = {c \<in> cm_id ` set cmds. \<not> answered dp (ag_inbox ag) c} \<and>
    (\<forall>(c, res) \<in> set carried. \<exists>r. inbox_get (ag_inbox ag') c = Some r \<and> rc_result r = res \<and>
       rc_status r = (if cr_success res then ''succeeded'' else ''failed'')) \<and>
    (\<forall>c. answered dp (ag_inbox ag) c \<longrightarrow> inbox_get (ag_inbox ag') c = inbox_get (ag_inbox ag) c) \<and>
    (\<forall>cmd\<in>set cmds. \<forall>b. answered dp (ag_inbox b) (cm_id cmd) \<longrightarrow> \<not> carried_out dp ds cmd b \<and>
       ag_queue (run_command dp hs ds cmd b) = ag_queue b \<and> ag_inbox (run_command dp hs ds cmd b) = ag_inbox b)"
proof -
  have rest: "\<forall>cmd\<in>set cmds. \<forall>b. answered dp (ag_inbox b) (cm_id cmd) \<longrightarrow> \<not> carried_out dp ds cmd b \<and>
       ag_queue (run_command dp hs ds cmd b) = ag_queue b \<and> ag_inbox (run_command dp hs ds cmd b) = ag_inbox b"
    using assms(5) answered_delivery by (auto simp: list_all_iff trimmed_command_def)
  show ?thesis
    using deliveries_once[OF assms(1-5) _ _ assms(6) _ assms(7)] rest by auto
qed

definition demo_command :: command where
  "demo_command =
     \<lparr>cm_type = ''exec_command'', cm_id = ''c7'', cm_container = [], cm_domain = [], cm_action = [], cm_command = ''true'',
      cm_file_path = [], cm_content = [], cm_target_port = 0, cm_network = [], cm_new_name = [], cm_image = [], cm_tail = 0,
      cm_remove_volumes = False, cm_remove_image = False,
      cm_deploy = \<lparr>da_project = [], da_repo = [], da_branch = [], da_file_type = [], da_compose = []\<rparr>,
      cm_terminal = \<lparr>tm_id = [], tm_target_name = [], tm_target_id = [], tm_rows = 0, tm_cols = 0, tm_payload = []\<rparr>,
      cm_security = \<lparr>sa_disable_root = False, sa_disable_password = False, sa_ssh_port = 0, sa_fail2ban = False,
        sa_fw_port = [], sa_fw_protocol = [], sa_fw_action = [], sa_fw_source = []\<rparr>,
      cm_migration = \<lparr>ma_target_ip = [], ma_ssh_port = 0, ma_ssh_user = [], ma_key = [], ma_move = False\<rparr>,
      cm_agent = \<lparr>aa_binary_url = [], aa_version = [], aa_clean_docker = False, aa_import_source = [], aa_import_payload = []\<rparr>,
      cm_schedules = []\<rparr>"

lemma demo_command_tracked: "tracked demo_deps demo_command"
  by (simp add: tracked_def demo_command_def demo_deps_def demo_proto_def model_defs)

theorem command_at_most_once_witness:
  "map fst (fst (deliveries demo_deps (\<lambda>t. Some (\<lambda>cmd ag. (([''done''], None, []), ag))) []
      [demo_command, demo_command\<lparr>cm_id := ''c8''\<rparr>, demo_command]
      (demo_agent\<lparr>ag_inbox := \<lparr>ib_path = ''/i'', ib_items = [(''c8'', \<lparr>rc_id = ''c8'', rc_status = ''running'', rc_result = no_result, rc_updated = 5\<rparr>)]\<rparr>\<rparr>)))
    = [''c7'']"
proof -
  let ?hs = "\<lambda>t :: string. Some (\<lambda>(cmd :: command) (ag :: agent). (([''done''], None :: go_error option, [] :: string), ag))"
  let ?r = "\<lparr>rc_id = ''c8'', rc_status = ''running'', rc_result = no_result, rc_updated = 5\<rparr>"
  let ?ib = "\<lparr>ib_path = ''/i'', ib_items = [(''c8'', ?r)]\<rparr>" and ?cmds = "[demo_command, demo_command\<lparr>cm_id := ''c8''\<rparr>, demo_command]"
  let ?ag = "demo_agent\<lparr>ag_inbox := ?ib\<rparr>"
  have ids: "cm_id demo_command = ''c7''" by (simp add: demo_command_def)
  have i: "inbox_inv (ag_inbox ?ag)" by (simp add: inbox_inv_def command_inbox_cap_def model_defs)
  have v: "visits (dp_visit demo_deps)" by (simp add: demo_deps_def)
  have s: "statuses_agree (dp_proto demo_deps)" by (simp add: statuses_agree_def demo_deps_def demo_proto_def)
  have k: "keeps_inbox ?hs" by (simp add: keeps_inbox_def)
  have t: "list_all (trimmed_command demo_deps) ?cmds"
    using demo_command_tracked by (simp add: trimmed_command_def tracked_def ids model_defs)
  have c: "card (fst ` set (ib_items (ag_inbox ?ag)) \<union> cm_id ` set ?cmds) \<le> command_inbox_cap"
    by (simp add: ids command_inbox_cap_def card_insert_if)
  have a: "answered demo_deps (ag_inbox ?ag) ''c8''" "\<not> answered demo_deps (ag_inbox ?ag) ''c7''"
    by (simp_all add: answered_def inbox_get_def demo_deps_def demo_proto_def model_defs)
  obtain carried ag' where d: "deliveries demo_deps ?hs [] ?cmds ?ag = (carried, ag')" by fastforce
  have "distinct (map fst carried)" "set (map fst carried) = {''c7''}"
    using command_at_most_once[OF i v s k t c d] a by (auto simp: ids)
  then have "map fst carried = [''c7'']" by (cases carried; cases "tl carried") auto
  then show ?thesis using d by simp
qed

section \<open>A running receipt\<close>

text \<open>The answer a running receipt gives, and what it puts on a connection that takes it.\<close>

definition running_progress :: "deps \<Rightarrow> command \<Rightarrow> command_progress" where
  "running_progress dp cmd =
     \<lparr>cp_id = cm_id cmd, cp_status = st_running (dp_proto dp), cp_error = [], cp_logs = [], cp_payload = []\<rparr>"

lemma running_answer:
  assumes "statuses_agree (dp_proto dp)" and "tracked dp cmd"
    and "inbox_get (ag_inbox ag) (cm_id cmd) = Some r" and "rc_status r = st_running (dp_proto dp)"
  shows "run_command dp hs ds cmd ag = send_progress dp (running_progress dp cmd) ag"
  using assms
  by (simp add: run_command_def replay_idempotent_command_def statuses_agree_def tracked_def Let_def report_command_progress_def running_progress_def)

lemma make_envelope_conn [simp]: "make_envelope pr en ac mid m (ag\<lparr>ag_conn := c\<rparr>) = make_envelope pr en ac mid m ag"
  by (simp add: make_envelope_def)

lemma progress_sent:
  assumes "cn_open c" and "cn_script c = []"
    and "make_envelope (dp_proto dp) (ent_command (dp_proto dp)) (act_progress (dp_proto dp)) [] (ProgressMsg p) ag = Inr env"
    and "dp_frame dp (as_signal (dp_proto dp) env) \<noteq> None"
  shows "send_progress dp p (ag\<lparr>ag_conn := c\<rparr>) = ag\<lparr>ag_conn := c\<lparr>cn_sent := cn_sent c @ [as_signal (dp_proto dp) env]\<rparr>\<rparr>"
  using assms by (auto simp: send_progress_def emit_signal_def write_json_def conn_write_def)

lemma answered_running:
  assumes "statuses_agree (dp_proto dp)" and "tracked dp cmd"
    and "inbox_get (ag_inbox ag) (cm_id cmd) = Some r" and "rc_status r = st_running (dp_proto dp)"
    and "cn_open c" and "cn_script c = []"
    and "make_envelope (dp_proto dp) (ent_command (dp_proto dp)) (act_progress (dp_proto dp)) [] (ProgressMsg (running_progress dp cmd)) ag = Inr env"
    and "dp_frame dp (as_signal (dp_proto dp) env) \<noteq> None"
  shows "(run_command dp hs ds cmd ^^ n) (ag\<lparr>ag_conn := c\<rparr>) =
    ag\<lparr>ag_conn := c\<lparr>cn_sent := cn_sent c @ replicate n (as_signal (dp_proto dp) env)\<rparr>\<rparr>"
proof (induction n)
  case (Suc n)
  let ?c = "c\<lparr>cn_sent := cn_sent c @ replicate n (as_signal (dp_proto dp) env)\<rparr>"
  have "run_command dp hs ds cmd (ag\<lparr>ag_conn := ?c\<rparr>) = send_progress dp (running_progress dp cmd) (ag\<lparr>ag_conn := ?c\<rparr>)"
    using assms(1-4) by (intro running_answer) simp_all
  also have "\<dots> = ag\<lparr>ag_conn := ?c\<lparr>cn_sent := cn_sent ?c @ [as_signal (dp_proto dp) env]\<rparr>\<rparr>"
    by (rule progress_sent) (simp_all add: assms)
  finally show ?case using Suc by (simp add: replicate_append_same)
qed simp

section \<open>Deliveries side by side\<close>

text \<open>
  The read loop starts every command in a goroutine of its own. A goroutine looks at the inbox,
  marks the command running, calls the handler and stores the result, and the inbox is locked for
  each of these alone, so another goroutine may run between any two of them.
\<close>

datatype phase = Delivered | Accepted | Executing | Executed outcome_of | Ended

type_synonym commands = "(command \<times> phase) list"

inductive cstep :: "deps \<Rightarrow> handlers \<Rightarrow> agent \<times> commands \<times> string list \<Rightarrow> agent \<times> commands \<times> string list \<Rightarrow> bool"
  for dp hs where
  Check: "replay_idempotent_command dp cmd ag = (b, ag') \<Longrightarrow>
    cstep dp hs (ag, as @ (cmd, Delivered) # bs, log) (ag', as @ (cmd, if b then Ended else Accepted) # bs, log)"
| Begin: "cstep dp hs (ag, as @ (cmd, Accepted) # bs, log) (begin_command dp cmd ag, as @ (cmd, Executing) # bs, log)"
| Execute: "execute_command hs cmd ag = (out, ag') \<Longrightarrow>
    cstep dp hs (ag, as @ (cmd, Executing) # bs, log) (ag', as @ (cmd, Executed out) # bs, log @ [cm_id cmd])"
| Finish: "cstep dp hs (ag, as @ (cmd, Executed out) # bs, log)
    (finish_command dp [] cmd out ag, as @ (cmd, Ended) # bs, log)"

inductive_cases cstepE: "cstep dp hs (ag, cs, log) t"

text \<open>Past its check a goroutine runs to its end whatever the inbox says.\<close>

lemma accepted_runs:
  "\<exists>ag' out. (cstep dp hs)\<^sup>*\<^sup>* (ag, as @ (cmd, Accepted) # bs, log) (ag', as @ (cmd, Ended) # bs, log @ [cm_id cmd])"
proof -
  obtain out ag2 where e: "execute_command hs cmd (begin_command dp cmd ag) = (out, ag2)" by fastforce
  have "cstep dp hs (ag, as @ (cmd, Accepted) # bs, log) (begin_command dp cmd ag, as @ (cmd, Executing) # bs, log)"
    by (rule Begin)
  moreover have "cstep dp hs (begin_command dp cmd ag, as @ (cmd, Executing) # bs, log) (ag2, as @ (cmd, Executed out) # bs, log @ [cm_id cmd])"
    by (rule Execute[OF e])
  moreover have "cstep dp hs (ag2, as @ (cmd, Executed out) # bs, log @ [cm_id cmd])
      (finish_command dp [] cmd out ag2, as @ (cmd, Ended) # bs, log @ [cm_id cmd])"
    by (rule Finish)
  ultimately show ?thesis by (meson converse_rtranclp_into_rtranclp rtranclp.rtrancl_refl)
qed

text \<open>
  C37: The check and the mark are not one step. Two deliveries of the same command whose goroutines
  both look at the inbox before either has marked it running are both carried out.
\<close>

theorem duplicate_delivery_runs_twice:
  assumes "inbox_get (ag_inbox ag) (cm_id cmd) = None"
  shows "\<exists>ag'. (cstep dp hs)\<^sup>*\<^sup>* (ag, [(cmd, Delivered), (cmd, Delivered)], [])
    (ag', [(cmd, Ended), (cmd, Ended)], [cm_id cmd, cm_id cmd])"
proof -
  have no: "replay_idempotent_command dp cmd ag = (False, ag)"
    using assms by (simp add: replay_idempotent_command_def Let_def)
  have 1: "cstep dp hs (ag, [(cmd, Delivered), (cmd, Delivered)], []) (ag, [(cmd, Accepted), (cmd, Delivered)], [])"
    using Check[OF no, of hs "[]" "[(cmd, Delivered)]" "[]"] by simp
  have 2: "cstep dp hs (ag, [(cmd, Accepted), (cmd, Delivered)], []) (ag, [(cmd, Accepted), (cmd, Accepted)], [])"
    using Check[OF no, of hs "[(cmd, Accepted)]" "[]" "[]"] by simp
  obtain ag1 where 3: "(cstep dp hs)\<^sup>*\<^sup>* (ag, [(cmd, Accepted), (cmd, Accepted)], []) (ag1, [(cmd, Ended), (cmd, Accepted)], [cm_id cmd])"
    using accepted_runs[of dp hs ag "[]" cmd "[(cmd, Accepted)]" "[]"] by auto
  obtain ag2 where 4: "(cstep dp hs)\<^sup>*\<^sup>* (ag1, [(cmd, Ended), (cmd, Accepted)], [cm_id cmd]) (ag2, [(cmd, Ended), (cmd, Ended)], [cm_id cmd, cm_id cmd])"
    using accepted_runs[of dp hs ag1 "[(cmd, Ended)]" cmd "[]" "[cm_id cmd]"] by auto
  show ?thesis
    using converse_rtranclp_into_rtranclp[OF 1 converse_rtranclp_into_rtranclp[OF 2 rtranclp_trans[OF 3 4]]] by blast
qed

theorem duplicate_delivery_runs_twice_witness:
  "\<exists>ag'. (cstep demo_deps (\<lambda>_. None))\<^sup>*\<^sup>* (demo_agent, [(demo_command, Delivered), (demo_command, Delivered)], [])
    (ag', [(demo_command, Ended), (demo_command, Ended)], [''c7'', ''c7''])"
proof -
  have "inbox_get (ag_inbox demo_agent) (cm_id demo_command) = None" by (simp add: demo_agent_def inbox_get_def)
  moreover have "cm_id demo_command = ''c7''" by (simp add: demo_command_def)
  ultimately show ?thesis using duplicate_delivery_runs_twice[of demo_agent demo_command] by simp
qed

end
