(* ===== verification/Terminal.thy ===== *)
theory Terminal
  imports Dispatch
begin

text \<open>
  \<open>internal/agent/terminal.go\<close>: the shells the dashboard opens inside containers. A session is known by
  its handle, the number of its shell in the order they were started; the table maps the
  dashboard's ids to handles. Every shell has a reader that runs until its terminal closes; the
  order in which readers get to act is the order of the steps. What the pseudo terminals answer and
  the base64 codec are parameters.
\<close>

section \<open>Sessions\<close>

record shell_session =
  sh_id :: string
  sh_target :: string
  sh_running :: bool
  sh_closed :: bool
  sh_reading :: bool

record terminals =
  tt_open :: "(string \<times> nat) list"
  tt_shells :: "shell_session list"
  tt_agent :: agent

text \<open>Starting a shell on a pseudo terminal, resizing and writing to it, and the codec of its bytes.\<close>

record pty_env =
  pe_start :: "string list \<Rightarrow> go_error option"
  pe_resize :: "nat \<Rightarrow> int \<Rightarrow> int \<Rightarrow> go_error option"
  pe_write :: "nat \<Rightarrow> string \<Rightarrow> go_error option"
  pe_encode :: "string \<Rightarrow> string"
  pe_decode :: "string \<Rightarrow> (go_error, string) result"

definition open_at :: "terminals \<Rightarrow> string \<Rightarrow> nat option" where
  "open_at t i = map_of (tt_open t) i"

definition forget :: "string \<Rightarrow> terminals \<Rightarrow> terminals" where
  "forget i t = t\<lparr>tt_open := filter (\<lambda>(j, _). j \<noteq> i) (tt_open t)\<rparr>"

definition change_shell :: "nat \<Rightarrow> (shell_session \<Rightarrow> shell_session) \<Rightarrow> terminals \<Rightarrow> terminals" where
  "change_shell n f t = t\<lparr>tt_shells := (tt_shells t)[n := f (tt_shells t ! n)]\<rparr>"

text \<open>Closing the terminal and killing the shell; safe to call again.\<close>

definition session_close :: "nat \<Rightarrow> terminals \<Rightarrow> terminals" where
  "session_close n t =
     (if sh_closed (tt_shells t ! n) then t
      else change_shell n (\<lambda>s. s\<lparr>sh_closed := True, sh_running := False\<rparr>) t)"

section \<open>The commands\<close>

definition terminal_target :: "terminal_args \<Rightarrow> string" where
  "terminal_target a = (if tm_target_name a = [] then tm_target_id a else tm_target_name a)"

definition choose_shell :: "sys \<Rightarrow> string \<Rightarrow> host \<Rightarrow> string \<times> host" where
  "choose_shell sys target h =
     (let (r, h1) = exec sys [''docker'', ''exec'', target, ''/bin/bash'', ''-c'', ''exit 0''] h in
      (if p_err r = None then ''/bin/bash'' else ''/bin/sh'', h1))"

definition terminal_start :: "pty_env \<Rightarrow> sys \<Rightarrow> terminal_args \<Rightarrow> terminals \<Rightarrow> go_error option \<times> terminals" where
  "terminal_start pe sys a t =
     (let target = terminal_target a in
      if tm_id a = [] \<or> target = []
      then (Some (Msg ''terminal_id and target_container_name/target_container_id are required''), t)
      else if open_at t (tm_id a) \<noteq> None then (Some (Msg ''terminal session already exists''), t)
      else (let (shell, h) = choose_shell sys target (ag_host (tt_agent t));
                t1 = t\<lparr>tt_agent := (tt_agent t)\<lparr>ag_host := h\<rparr>\<rparr>
            in case pe_start pe [''docker'', ''exec'', ''-it'', ''-e'', ''TERM=xterm-256color'', ''-e'', ''COLORTERM=truecolor'', target, shell] of
                 Some e \<Rightarrow> (Some (Wrapf ''failed to start pty: '' e []), t1)
               | None \<Rightarrow>
                   (None, t1\<lparr>tt_shells := tt_shells t @ [\<lparr>sh_id = tm_id a, sh_target = target, sh_running = True, sh_closed = False, sh_reading = True\<rparr>],
                             tt_open := (tm_id a, length (tt_shells t)) # tt_open t\<rparr>)))"

definition terminal_input :: "pty_env \<Rightarrow> terminal_args \<Rightarrow> terminals \<Rightarrow> go_error option" where
  "terminal_input pe a t =
     (case open_at t (tm_id a) of
        None \<Rightarrow> Some (Msg ''terminal session not found'')
      | Some n \<Rightarrow>
          (case pe_decode pe (tm_payload a) of
             Inl e \<Rightarrow> Some (Wrapf ''invalid base64 payload: '' e [])
           | Inr bytes \<Rightarrow> pe_write pe n bytes))"

definition terminal_resize :: "pty_env \<Rightarrow> terminal_args \<Rightarrow> terminals \<Rightarrow> go_error option" where
  "terminal_resize pe a t =
     (case open_at t (tm_id a) of
        None \<Rightarrow> Some (Msg ''terminal session not found'')
      | Some n \<Rightarrow>
          (if tm_rows a > 0 \<and> tm_cols a > 0
           then map_option (\<lambda>e. Wrapf ''failed to resize pty: '' e []) (pe_resize pe n (tm_rows a) (tm_cols a)) else None))"

definition terminal_stop :: "terminal_args \<Rightarrow> terminals \<Rightarrow> terminals" where
  "terminal_stop a t =
     (case open_at t (tm_id a) of None \<Rightarrow> t | Some n \<Rightarrow> session_close n (forget (tm_id a) t))"

definition handle_terminal_command :: "pty_env \<Rightarrow> sys \<Rightarrow> command \<Rightarrow> terminals \<Rightarrow> go_error option \<times> terminals" where
  "handle_terminal_command pe sys cmd t =
     (let a = cm_terminal cmd in
      if cm_type cmd = ''terminal_start'' then terminal_start pe sys a t
      else if cm_type cmd = ''terminal_input'' then (terminal_input pe a t, t)
      else if cm_type cmd = ''terminal_resize'' then (terminal_resize pe a t, t)
      else if cm_type cmd = ''terminal_stop'' then (None, terminal_stop a t)
      else (Some (Msg (''unknown terminal command '' @ cm_type cmd)), t))"

section \<open>The readers\<close>

definition emit_output :: "deps \<Rightarrow> string \<Rightarrow> string \<Rightarrow> bool \<Rightarrow> terminals \<Rightarrow> terminals" where
  "emit_output dp i data closed t =
     t\<lparr>tt_agent := snd (emit_signal dp (ent_terminal (dp_proto dp)) (act_output (dp_proto dp)) (TerminalMsg i data closed) (tt_agent t))\<rparr>"

text \<open>The reader of a shell got some bytes, at most 4096.\<close>

definition reader_output :: "deps \<Rightarrow> pty_env \<Rightarrow> nat \<Rightarrow> string \<Rightarrow> terminals \<Rightarrow> terminals" where
  "reader_output dp pe n bytes t =
     (if bytes = [] then t else emit_output dp (sh_id (tt_shells t ! n)) (pe_encode pe bytes) False t)"

text \<open>
  The reader got an error: the shell is gone. It says so, and takes the id out of the table,
  whatever handle the id stands for by now.
\<close>

definition reader_end :: "deps \<Rightarrow> nat \<Rightarrow> terminals \<Rightarrow> terminals" where
  "reader_end dp n t =
     (let i = sh_id (tt_shells t ! n);
          t1 = emit_output dp i [] True t;
          t2 = (if open_at t1 i \<noteq> None then forget i t1 else t1)
      in change_shell n (\<lambda>s. s\<lparr>sh_running := False, sh_reading := False\<rparr>) t2)"

text \<open>The session is over: every open shell is closed.\<close>

definition close_all_terminals :: "terminals \<Rightarrow> terminals" where
  "close_all_terminals t = fold session_close (map snd (tt_open t)) (t\<lparr>tt_open := []\<rparr>)"

section \<open>Runs\<close>

datatype terminal_event =
    Asked command
  | Output nat string
  | Ended nat
  | SessionOver

definition terminal_step :: "deps \<Rightarrow> pty_env \<Rightarrow> terminals \<Rightarrow> terminal_event \<Rightarrow> terminals" where
  "terminal_step dp pe t e =
     (case e of
        Asked cmd \<Rightarrow> snd (handle_terminal_command pe (dp_sys dp) cmd t)
      | Output n bytes \<Rightarrow> reader_output dp pe n bytes t
      | Ended n \<Rightarrow> reader_end dp n t
      | SessionOver \<Rightarrow> close_all_terminals t)"

text \<open>
  A reader acts while it runs. \<open>prompt\<close>: when it ends, its id has not been given to another shell in
  the meantime.
\<close>

definition prompt :: "terminals \<Rightarrow> terminal_event \<Rightarrow> bool" where
  "prompt t e \<longleftrightarrow>
     (case e of
        Ended n \<Rightarrow> n < length (tt_shells t) \<and> sh_reading (tt_shells t ! n) \<and> open_at t (sh_id (tt_shells t ! n)) \<in> {None, Some n}
      | Output n _ \<Rightarrow> n < length (tt_shells t) \<and> sh_reading (tt_shells t ! n)
      | _ \<Rightarrow> True)"

text \<open>Every running shell is in the table under its id, and the table holds nothing else.\<close>

definition terminals_inv :: "terminals \<Rightarrow> bool" where
  "terminals_inv t \<longleftrightarrow>
     distinct (map fst (tt_open t)) \<and>
     (\<forall>n < length (tt_shells t). sh_running (tt_shells t ! n) \<longrightarrow>
        open_at t (sh_id (tt_shells t ! n)) = Some n \<and> \<not> sh_closed (tt_shells t ! n) \<and> sh_reading (tt_shells t ! n)) \<and>
     (\<forall>i n. open_at t i = Some n \<longrightarrow> n < length (tt_shells t) \<and> sh_id (tt_shells t ! n) = i)"

section \<open>No shell outlives its session\<close>

lemma open_at_forget: "open_at (forget i t) j = (if j = i then None else open_at t j)"
proof -
  have "map_of (filter (\<lambda>(j, _). j \<noteq> i) xs) j = (if j = i then None else map_of xs j)" for xs :: "(string \<times> nat) list"
    by (induction xs) auto
  then show ?thesis by (simp add: open_at_def forget_def)
qed

lemma forget_fields [simp]: "tt_shells (forget i t) = tt_shells t" "tt_agent (forget i t) = tt_agent t"
  "distinct (map fst (tt_open t)) \<Longrightarrow> distinct (map fst (tt_open (forget i t)))"
  by (simp_all add: forget_def distinct_map_filter)

lemma emit_output_fields [simp]: "tt_open (emit_output dp i d c t) = tt_open t" "tt_shells (emit_output dp i d c t) = tt_shells t"
  "open_at (emit_output dp i d c t) = open_at t"
  by (simp_all add: emit_output_def open_at_def fun_eq_iff)

lemma change_shell_fields [simp]: "tt_open (change_shell n f t) = tt_open t" "open_at (change_shell n f t) = open_at t"
  "length (tt_shells (change_shell n f t)) = length (tt_shells t)"
  by (simp_all add: change_shell_def open_at_def fun_eq_iff)

lemma change_shell_nth: "m < length (tt_shells t) \<Longrightarrow> tt_shells (change_shell n f t) ! m = (if m = n then f (tt_shells t ! n) else tt_shells t ! m)"
  by (simp add: change_shell_def)

lemma session_close_fields [simp]: "tt_open (session_close n t) = tt_open t" "open_at (session_close n t) = open_at t"
  "length (tt_shells (session_close n t)) = length (tt_shells t)"
  by (simp_all add: session_close_def)

lemma session_close_nth:
  "m < length (tt_shells t) \<Longrightarrow> (sh_running (tt_shells t ! n) \<longrightarrow> \<not> sh_closed (tt_shells t ! n)) \<Longrightarrow>
   sh_id (tt_shells (session_close n t) ! m) = sh_id (tt_shells t ! m) \<and>
   sh_reading (tt_shells (session_close n t) ! m) = sh_reading (tt_shells t ! m) \<and>
   sh_running (tt_shells (session_close n t) ! m) = (m \<noteq> n \<and> sh_running (tt_shells t ! m)) \<and>
   (m \<noteq> n \<longrightarrow> sh_closed (tt_shells (session_close n t) ! m) = sh_closed (tt_shells t ! m))"
  by (auto simp: session_close_def change_shell_nth)

lemma terminals_invI:
  assumes "distinct (map fst (tt_open t))"
    and "\<And>n. n < length (tt_shells t) \<Longrightarrow> sh_running (tt_shells t ! n) \<Longrightarrow>
      open_at t (sh_id (tt_shells t ! n)) = Some n \<and> \<not> sh_closed (tt_shells t ! n) \<and> sh_reading (tt_shells t ! n)"
    and "\<And>i n. open_at t i = Some n \<Longrightarrow> n < length (tt_shells t) \<and> sh_id (tt_shells t ! n) = i"
  shows "terminals_inv t"
  using assms by (simp add: terminals_inv_def)

lemma terminals_invD:
  assumes "terminals_inv t"
  shows "distinct (map fst (tt_open t))"
    and "n < length (tt_shells t) \<Longrightarrow> sh_running (tt_shells t ! n) \<Longrightarrow>
      open_at t (sh_id (tt_shells t ! n)) = Some n \<and> \<not> sh_closed (tt_shells t ! n) \<and> sh_reading (tt_shells t ! n)"
    and "open_at t i = Some n \<Longrightarrow> n < length (tt_shells t) \<and> sh_id (tt_shells t ! n) = i"
  using assms by (simp_all add: terminals_inv_def)

lemma start_keeps_inv:
  assumes "terminals_inv t" and "terminal_start pe sys a t = (r, t')"
  shows "terminals_inv t'"
proof -
  obtain shell h where c: "choose_shell sys (terminal_target a) (ag_host (tt_agent t)) = (shell, h)" by fastforce
  show ?thesis
  proof (cases "r = None")
    case False
    then have "tt_open t' = tt_open t" "tt_shells t' = tt_shells t"
      using assms(2) c by (auto simp: terminal_start_def Let_def split: if_splits option.splits)
    then show ?thesis using assms(1) by (simp add: terminals_inv_def open_at_def)
  next
    case True
    let ?new = "\<lparr>sh_id = tm_id a, sh_target = terminal_target a, sh_running = True, sh_closed = False, sh_reading = True\<rparr>"
    have t': "tt_shells t' = tt_shells t @ [?new]" "tt_open t' = (tm_id a, length (tt_shells t)) # tt_open t" "open_at t (tm_id a) = None"
      using assms(2) c True by (auto simp: terminal_start_def Let_def split: if_splits option.splits)
    have o: "open_at t' i = (if i = tm_id a then Some (length (tt_shells t)) else open_at t i)" for i
      using t'(2) by (simp add: open_at_def)
    have free: "sh_id (tt_shells t ! n) \<noteq> tm_id a" if "n < length (tt_shells t)" "sh_running (tt_shells t ! n)" for n
      using terminals_invD(2)[OF assms(1) that] t'(3) by auto
    show ?thesis
    proof (rule terminals_invI)
      show "distinct (map fst (tt_open t'))"
        using terminals_invD(1)[OF assms(1)] t' by (simp add: open_at_def map_of_eq_None_iff)
    next
      fix n assume n: "n < length (tt_shells t')" "sh_running (tt_shells t' ! n)"
      show "open_at t' (sh_id (tt_shells t' ! n)) = Some n \<and> \<not> sh_closed (tt_shells t' ! n) \<and> sh_reading (tt_shells t' ! n)"
      proof (cases "n < length (tt_shells t)")
        case True
        then show ?thesis using terminals_invD(2)[OF assms(1) True] free[OF True] n o t'(1) by (simp add: nth_append)
      next
        case False
        then have "n = length (tt_shells t)" using n t'(1) by simp
        then show ?thesis using o t'(1) by simp
      qed
    next
      fix i n assume i: "open_at t' i = Some n"
      show "n < length (tt_shells t') \<and> sh_id (tt_shells t' ! n) = i"
      proof (cases "i = tm_id a")
        case True
        then show ?thesis using i o t'(1) by (auto simp: nth_append)
      next
        case False
        then have "open_at t i = Some n" using i o by simp
        from terminals_invD(3)[OF assms(1) this] show ?thesis using t'(1) by (simp add: nth_append)
      qed
    qed
  qed
qed

lemma stop_keeps_inv:
  assumes "terminals_inv t"
  shows "terminals_inv (terminal_stop a t)"
proof (cases "open_at t (tm_id a)")
  case (Some n)
  let ?f = "forget (tm_id a) t"
  have n: "n < length (tt_shells t)" "sh_id (tt_shells t ! n) = tm_id a" using assms Some by (auto simp: terminals_inv_def)
  have open': "sh_running (tt_shells ?f ! n) \<longrightarrow> \<not> sh_closed (tt_shells ?f ! n)" using assms n by (auto simp: terminals_inv_def)
  note nth = session_close_nth[of _ ?f n, OF _ open']
  have eq: "terminal_stop a t = session_close n ?f" using Some by (simp add: terminal_stop_def)
  show ?thesis
    unfolding eq
  proof (rule terminals_invI)
    show "distinct (map fst (tt_open (session_close n ?f)))" using terminals_invD(1)[OF assms] by simp
  next
    fix m assume m: "m < length (tt_shells (session_close n ?f))" "sh_running (tt_shells (session_close n ?f) ! m)"
    then have run: "m \<noteq> n" "m < length (tt_shells t)" "sh_running (tt_shells t ! m)" using nth[of m] by simp_all
    have "sh_id (tt_shells t ! m) \<noteq> tm_id a" using terminals_invD(2)[OF assms run(2,3)] run(1) Some by auto
    then show "open_at (session_close n ?f) (sh_id (tt_shells (session_close n ?f) ! m)) = Some m \<and>
        \<not> sh_closed (tt_shells (session_close n ?f) ! m) \<and> sh_reading (tt_shells (session_close n ?f) ! m)"
      using nth[of m] run terminals_invD(2)[OF assms run(2,3)] by (simp add: open_at_forget)
  next
    fix i m assume "open_at (session_close n ?f) i = Some m"
    then have "open_at t i = Some m" by (simp add: open_at_forget split: if_splits)
    from terminals_invD(3)[OF assms this] show "m < length (tt_shells (session_close n ?f)) \<and> sh_id (tt_shells (session_close n ?f) ! m) = i"
      using nth[of m] by simp
  qed
qed (use assms in \<open>simp add: terminal_stop_def\<close>)

lemma reader_end_keeps_inv:
  assumes "terminals_inv t" and "prompt t (Ended n)"
  shows "terminals_inv (reader_end dp n t)"
proof -
  let ?i = "sh_id (tt_shells t ! n)"
  have n: "n < length (tt_shells t)" "open_at t ?i \<in> {None, Some n}" using assms(2) by (auto simp: prompt_def)
  have op: "open_at (reader_end dp n t) j = (if j = ?i then None else open_at t j)" for j
    using n(2) by (auto simp: reader_end_def Let_def open_at_forget)
  have sh: "m < length (tt_shells t) \<Longrightarrow> tt_shells (reader_end dp n t) ! m =
      (if m = n then (tt_shells t ! n)\<lparr>sh_running := False, sh_reading := False\<rparr> else tt_shells t ! m)" for m
    by (simp add: reader_end_def Let_def change_shell_nth)
  have len: "length (tt_shells (reader_end dp n t)) = length (tt_shells t)" by (simp add: reader_end_def Let_def)
  have dist: "distinct (map fst (tt_open (reader_end dp n t)))"
    using assms(1) by (simp add: reader_end_def Let_def terminals_inv_def)
  show ?thesis
  proof (rule terminals_invI[OF dist])
    fix m assume m: "m < length (tt_shells (reader_end dp n t))" "sh_running (tt_shells (reader_end dp n t) ! m)"
    then have run: "m \<noteq> n" "m < length (tt_shells t)" "sh_running (tt_shells t ! m)" using sh[of m] len by (auto split: if_splits)
    have "sh_id (tt_shells t ! m) \<noteq> ?i" using terminals_invD(2)[OF assms(1) run(2,3)] run(1) n(2) by auto
    then show "open_at (reader_end dp n t) (sh_id (tt_shells (reader_end dp n t) ! m)) = Some m \<and>
        \<not> sh_closed (tt_shells (reader_end dp n t) ! m) \<and> sh_reading (tt_shells (reader_end dp n t) ! m)"
      using sh[of m] run op terminals_invD(2)[OF assms(1) run(2,3)] by simp
  next
    fix i m assume "open_at (reader_end dp n t) i = Some m"
    then have "open_at t i = Some m" using op by (simp split: if_splits)
    from terminals_invD(3)[OF assms(1) this]
    show "m < length (tt_shells (reader_end dp n t)) \<and> sh_id (tt_shells (reader_end dp n t) ! m) = i"
      using sh[of m] len by auto
  qed
qed

lemma close_fold_shells:
  assumes "\<And>n. n < length (tt_shells t) \<Longrightarrow> sh_running (tt_shells t ! n) \<Longrightarrow> \<not> sh_closed (tt_shells t ! n)"
    and "m < length (tt_shells t)" and "set ns \<subseteq> {..<length (tt_shells t)}"
  shows "tt_open (fold session_close ns t) = tt_open t \<and> length (tt_shells (fold session_close ns t)) = length (tt_shells t) \<and>
    (sh_running (tt_shells (fold session_close ns t) ! m) \<longleftrightarrow> m \<notin> set ns \<and> sh_running (tt_shells t ! m))"
  using assms
proof (induction ns arbitrary: t)
  case (Cons n ns)
  let ?t = "session_close n t"
  have n: "n < length (tt_shells t)" using Cons.prems(3) by simp
  have nth: "k < length (tt_shells t) \<Longrightarrow> sh_running (tt_shells ?t ! k) = (k \<noteq> n \<and> sh_running (tt_shells t ! k)) \<and>
      (k \<noteq> n \<longrightarrow> sh_closed (tt_shells ?t ! k) = sh_closed (tt_shells t ! k))" for k
    using session_close_nth[of k t n] Cons.prems(1)[OF n] by simp
  have "k < length (tt_shells ?t) \<Longrightarrow> sh_running (tt_shells ?t ! k) \<Longrightarrow> \<not> sh_closed (tt_shells ?t ! k)" for k
    using nth[of k] Cons.prems(1)[of k] by simp
  from Cons.IH[OF this] show ?case using nth[of m] Cons.prems(2,3) by auto
qed simp

lemma close_all_ends_all:
  assumes "terminals_inv t" and "m < length (tt_shells t)"
  shows "tt_open (close_all_terminals t) = [] \<and> length (tt_shells (close_all_terminals t)) = length (tt_shells t) \<and>
    \<not> sh_running (tt_shells (close_all_terminals t) ! m)"
proof -
  let ?t = "t\<lparr>tt_open := []\<rparr>" and ?ns = "map snd (tt_open t)"
  have ns: "set ?ns \<subseteq> {..<length (tt_shells ?t)}"
  proof
    fix n assume "n \<in> set ?ns"
    then obtain i where "(i, n) \<in> set (tt_open t)" by auto
    then have "open_at t i = Some n" using terminals_invD(1)[OF assms(1)] by (simp add: open_at_def)
    then show "n \<in> {..<length (tt_shells ?t)}" using terminals_invD(3)[OF assms(1)] by simp
  qed
  have "m \<in> set ?ns" if "sh_running (tt_shells t ! m)"
  proof -
    have "open_at t (sh_id (tt_shells t ! m)) = Some m" using terminals_invD(2)[OF assms that] by simp
    then show ?thesis by (auto simp: open_at_def dest!: map_of_SomeD intro: image_eqI[rotated])
  qed
  then show ?thesis
    using close_fold_shells[of ?t m ?ns] terminals_invD(2)[OF assms(1)] assms(2) ns by (auto simp: close_all_terminals_def)
qed

lemma close_all_length: "length (tt_shells (close_all_terminals t)) = length (tt_shells t) \<and> tt_open (close_all_terminals t) = []"
proof -
  have "length (tt_shells (fold session_close ns s)) = length (tt_shells s) \<and> tt_open (fold session_close ns s) = tt_open s" for ns s
    by (induction ns arbitrary: s) simp_all
  then show ?thesis by (simp add: close_all_terminals_def)
qed

lemma terminal_step_keeps_inv:
  assumes "terminals_inv t" and "prompt t e"
  shows "terminals_inv (terminal_step dp pe t e)"
proof (cases e)
  case (Asked cmd)
  obtain r t' where s: "terminal_start pe (dp_sys dp) (cm_terminal cmd) t = (r, t')" by fastforce
  show ?thesis
    using Asked assms(1) start_keeps_inv[OF assms(1) s] stop_keeps_inv[OF assms(1)] s
    by (simp add: terminal_step_def handle_terminal_command_def Let_def)
next
  case (Output n bytes)
  have "terminals_inv (emit_output dp i d c t)" for i d c using assms(1) by (simp add: terminals_inv_def)
  then show ?thesis using Output assms(1) by (simp add: terminal_step_def reader_output_def)
next
  case (Ended n)
  then show ?thesis using reader_end_keeps_inv[OF assms(1)] assms(2) by (simp add: terminal_step_def)
next
  case SessionOver
  then show ?thesis
    using close_all_ends_all[OF assms(1)] close_all_length[of t] by (auto simp: terminal_step_def open_at_def intro!: terminals_invI)
qed

interpretation shells: machine "terminal_step dp pe" prompt terminals_inv
  by unfold_locales (rule terminal_step_keeps_inv)

definition no_terminals :: "agent \<Rightarrow> terminals" where
  "no_terminals ag = \<lparr>tt_open = [], tt_shells = [], tt_agent = ag\<rparr>"

text \<open>
  C16: No shell outlives the session that started it: after any sequence of terminal commands, output and ends
  of readers, in which a reader ends before its id is given to another shell, closing all terminals leaves
  no shell running, and at every moment before at most one shell runs for an id.
\<close>

theorem no_shell_outlives_session:
  assumes "run_ok (terminal_step dp pe) prompt (no_terminals ag) es"
  defines "t \<equiv> foldl (terminal_step dp pe) (no_terminals ag) es"
  shows "list_all (\<lambda>s. \<not> sh_running s) (tt_shells (close_all_terminals t)) \<and>
    distinct (map sh_id (filter sh_running (tt_shells t)))"
proof -
  have "terminals_inv (no_terminals ag)" by (simp add: terminals_inv_def no_terminals_def open_at_def)
  from shells.run_keeps[OF this assms(1)] have inv: "terminals_inv t" by (simp add: t_def)
  have "distinct (map sh_id (filter sh_running (take k (tt_shells t))))" for k
  proof (induction k)
    case (Suc k)
    show ?case
    proof (cases "k < length (tt_shells t) \<and> sh_running (tt_shells t ! k)")
      case True
      have "sh_id (tt_shells t ! k) \<noteq> sh_id (tt_shells t ! j)" if "j < k" "sh_running (tt_shells t ! j)" for j
      proof -
        have "j < length (tt_shells t)" using that True by simp
        then show ?thesis using terminals_invD(2)[OF inv, of k] terminals_invD(2)[OF inv _ that(2)] True that(1) by auto
      qed
      then have "sh_id (tt_shells t ! k) \<notin> sh_id ` set (filter sh_running (take k (tt_shells t)))"
        using True by (auto simp: in_set_conv_nth) blast
      then show ?thesis using Suc True by (simp add: take_Suc_conv_app_nth)
    next
      case False
      then show ?thesis using Suc by (cases "k < length (tt_shells t)") (simp_all add: take_Suc_conv_app_nth)
    qed
  qed simp
  from this[of "length (tt_shells t)"] show ?thesis
    using close_all_ends_all[OF inv] close_all_length[of t] by (simp add: list_all_length)
qed

definition demo_pty :: pty_env where
  "demo_pty = \<lparr>pe_start = (\<lambda>_. None), pe_resize = (\<lambda>_ _ _. None), pe_write = (\<lambda>_ _. None), pe_encode = (\<lambda>s. s), pe_decode = (\<lambda>s. Inr s)\<rparr>"

definition terminal_command :: "string \<Rightarrow> command" where
  "terminal_command ty = demo_command\<lparr>cm_type := ty,
     cm_terminal := \<lparr>tm_id = ''t'', tm_target_name = ''web'', tm_target_id = [], tm_rows = 0, tm_cols = 0, tm_payload = []\<rparr>\<rparr>"

definition demo_shell :: shell_session where
  "demo_shell = \<lparr>sh_id = ''t'', sh_target = ''web'', sh_running = True, sh_closed = False, sh_reading = True\<rparr>"

lemma demo_start:
  "open_at t ''t'' = None \<Longrightarrow> \<exists>t'. terminal_step demo_deps demo_pty t (Asked (terminal_command ''terminal_start'')) = t' \<and>
     tt_open t' = (''t'', length (tt_shells t)) # tt_open t \<and> tt_shells t' = tt_shells t @ [demo_shell]"
  by (auto simp: terminal_step_def handle_terminal_command_def terminal_start_def terminal_command_def terminal_target_def
      choose_shell_def demo_deps_def exec_def exec_in_def demo_pty_def Let_def demo_shell_def)

lemma demo_stop:
  "open_at t ''t'' = Some n \<Longrightarrow>
   terminal_step demo_deps demo_pty t (Asked (terminal_command ''terminal_stop'')) = session_close n (forget ''t'' t)"
  by (simp add: terminal_step_def handle_terminal_command_def terminal_stop_def terminal_command_def)

theorem no_shell_outlives_session_witness:
  "let t = terminal_step demo_deps demo_pty (no_terminals demo_agent) (Asked (terminal_command ''terminal_start''))
   in map sh_running (tt_shells t) = [True] \<and> list_all (\<lambda>s. \<not> sh_running s) (tt_shells (close_all_terminals t))"
proof -
  have "map sh_running (tt_shells (terminal_step demo_deps demo_pty (no_terminals demo_agent) (Asked (terminal_command ''terminal_start'')))) = [True]"
    using demo_start[of "no_terminals demo_agent"] by (simp add: no_terminals_def open_at_def demo_shell_def)
  then show ?thesis
    using no_shell_outlives_session[of demo_deps demo_pty demo_agent "[Asked (terminal_command ''terminal_start'')]"]
    by (simp add: prompt_def Let_def)
qed

text \<open>
  Without promptness it fails: stopping a terminal and starting it again before the reader of the first shell
  ended takes the second out of the table. Its shell runs on, unknown, and closing all terminals does not reach it.
\<close>

lemma restarted_shell_is_lost:
  "\<exists>t. foldl (terminal_step demo_deps demo_pty) (no_terminals demo_agent)
        [Asked (terminal_command ''terminal_start''), Asked (terminal_command ''terminal_stop''),
         Asked (terminal_command ''terminal_start''), Ended 0] = t \<and>
     tt_open t = [] \<and> tt_shells (close_all_terminals t) ! 1 = demo_shell"
proof -
  let ?s = "terminal_step demo_deps demo_pty"
  let ?t1 = "?s (no_terminals demo_agent) (Asked (terminal_command ''terminal_start''))"
  have t1: "tt_open ?t1 = [(''t'', 0)]" "tt_shells ?t1 = [demo_shell]"
    using demo_start[of "no_terminals demo_agent"] by (simp_all add: no_terminals_def open_at_def)
  let ?t2 = "?s ?t1 (Asked (terminal_command ''terminal_stop''))"
  have t2: "tt_open ?t2 = []" "tt_shells ?t2 = [demo_shell\<lparr>sh_closed := True, sh_running := False\<rparr>]"
    using t1 demo_stop[of ?t1 0] by (simp_all add: session_close_def open_at_def forget_def change_shell_def) (simp add: demo_shell_def)
  let ?t3 = "?s ?t2 (Asked (terminal_command ''terminal_start''))"
  have t3: "tt_open ?t3 = [(''t'', 1)]" "tt_shells ?t3 = [demo_shell\<lparr>sh_closed := True, sh_running := False\<rparr>, demo_shell]"
    using demo_start[of ?t2] t2 by (simp_all add: open_at_def)
  let ?t4 = "?s ?t3 (Ended 0)"
  have t4: "tt_open ?t4 = []" "tt_shells ?t4 ! 1 = demo_shell"
    using t3 by (simp_all add: terminal_step_def[of _ _ _ "Ended 0"] reader_end_def Let_def open_at_def forget_def change_shell_def)
      (simp add: demo_shell_def)
  then show ?thesis by (simp add: close_all_terminals_def)
qed

end
