(* ===== verification/Reconnect.thy ===== *)
theory Reconnect
  imports Host
begin

text \<open>
  \<open>internal/agent/errors.go\<close> and the reconnect loop of \<open>runtime.go\<close>: the markers that classify a
  failed session, the jittered exponential backoff, and the loop that keeps a session to the API
  alive. Durations are Go's \<open>int64\<close> nanoseconds, with the wrap-around written out.
\<close>

section \<open>Error markers (errors.go)\<close>

text \<open>Each marker wraps its cause, keeps a nil error nil, and is found anywhere in a chain.\<close>

definition mark_non_retriable :: "go_error option \<Rightarrow> go_error option" where
  "mark_non_retriable cause = map_option NonRetriableError cause"

definition is_non_retriable :: "go_error option \<Rightarrow> bool" where
  "is_non_retriable err =
     (case err of None \<Rightarrow> False | Some e \<Rightarrow> errors_as (\<lambda>x. case x of NonRetriableError _ \<Rightarrow> True | _ \<Rightarrow> False) e)"

definition mark_pending_auth :: "go_error option \<Rightarrow> go_error option" where
  "mark_pending_auth cause = map_option PendingAuthError cause"

definition is_pending_auth_error :: "go_error option \<Rightarrow> bool" where
  "is_pending_auth_error err =
     (case err of None \<Rightarrow> False | Some e \<Rightarrow> errors_as (\<lambda>x. case x of PendingAuthError _ \<Rightarrow> True | _ \<Rightarrow> False) e)"

definition mark_duplicate_connection :: "go_error option \<Rightarrow> go_error option" where
  "mark_duplicate_connection cause = map_option DuplicateConnectionError cause"

definition is_duplicate_connection :: "go_error option \<Rightarrow> bool" where
  "is_duplicate_connection err =
     (case err of None \<Rightarrow> False | Some e \<Rightarrow> errors_as (\<lambda>x. case x of DuplicateConnectionError _ \<Rightarrow> True | _ \<Rightarrow> False) e)"

text \<open>An error with any number of \<open>fmt.Errorf\<close> contexts around it.\<close>

fun wrapped :: "(string \<times> string) list \<Rightarrow> go_error \<Rightarrow> go_error" where
  "wrapped [] e = e"
| "wrapped ((pre, post) # ws) e = Wrapf pre (wrapped ws e) post"

text \<open>
  The contract of a marker: nil stays nil, a marked error is recognised and still is under any
  \<open>fmt.Errorf\<close> around it, the text is that of the cause, and marking adds no other mark.
\<close>

locale error_marker =
  fixes mark :: "go_error option \<Rightarrow> go_error option" and is_marked :: "go_error option \<Rightarrow> bool"
  assumes mark_nil: "mark None = None"
    and mark_some: "\<exists>m. mark (Some e) = Some m \<and> error_text m = error_text e"
    and marked: "is_marked (mark (Some e))"
    and nil_unmarked: "\<not> is_marked None"
    and under_wrap: "is_marked (Some (Wrapf pre e post)) = is_marked (Some e)"
begin

lemma marked_iff: "is_marked (mark err) \<longleftrightarrow> err \<noteq> None"
  by (cases err) (simp_all add: mark_nil nil_unmarked marked)

lemma wrapped_marked: "mark (Some e) = Some m \<Longrightarrow> is_marked (Some (wrapped ws m))"
  using marked[of e] by (induction ws) (auto simp: under_wrap)

end

interpretation non_retriable: error_marker mark_non_retriable is_non_retriable
  by unfold_locales (auto simp: mark_non_retriable_def is_non_retriable_def)

interpretation pending_auth: error_marker mark_pending_auth is_pending_auth_error
  by unfold_locales (auto simp: mark_pending_auth_def is_pending_auth_error_def)

interpretation duplicate_connection: error_marker mark_duplicate_connection is_duplicate_connection
  by unfold_locales (auto simp: mark_duplicate_connection_def is_duplicate_connection_def)

section \<open>Backoff (runtime.go)\<close>

definition wrap64 :: "int \<Rightarrow> int" where
  "wrap64 x = (x + 2 ^ 63) mod 2 ^ 64 - 2 ^ 63"

definition auth_cooldown :: int where "auth_cooldown = 300000000000"

definition pending_auth_delay :: int where "pending_auth_delay = 3000000000"

definition min_backoff_delay :: int where "min_backoff_delay = 100000000"

definition positive_or_default :: "int \<Rightarrow> int \<Rightarrow> int" where
  "positive_or_default value fallback = (if value \<le> 0 then fallback else value)"

fun double_up :: "int \<Rightarrow> nat \<Rightarrow> int \<Rightarrow> int" where
  "double_up mx 0 delay = delay"
| "double_up mx (Suc n) delay =
     (if delay < mx then double_up mx n (let d = wrap64 (delay * 2) in if d > mx then mx else d) else delay)"

text \<open>
  The random offset is an argument: \<open>None\<close> where the generator fails, a number in
  \<open>[0, 2 * jitterMax]\<close> otherwise. Division truncates toward zero as Go's does; it is only applied to
  numbers that are not negative.
\<close>

definition jitter_max :: "int \<Rightarrow> int \<Rightarrow> int" where
  "jitter_max delay pct = (let p = wrap64 (delay * pct) in if p < 0 then - ((- p) div 100) else p div 100)"

definition backoff_base :: "int \<Rightarrow> int" where
  "backoff_base base = (if base \<le> 0 then 1000000000 else base)"

definition backoff_max :: "int \<Rightarrow> int \<Rightarrow> int" where
  "backoff_max base mx = (if mx < backoff_base base then backoff_base base else mx)"

definition backoff_delay :: "int \<Rightarrow> int \<Rightarrow> int \<Rightarrow> int" where
  "backoff_delay base mx step =
     double_up (backoff_max base mx) (if step < 0 then 0 else nat step) (backoff_base base)"

definition jittered_backoff :: "int \<Rightarrow> int \<Rightarrow> int \<Rightarrow> int \<Rightarrow> int option \<Rightarrow> int" where
  "jittered_backoff base0 mx0 step pct rnd =
     (let mx = backoff_max base0 mx0; delay = backoff_delay base0 mx0 step in
      if pct \<le> 0 then delay
      else (let jm = jitter_max delay pct in
            if jm \<le> 0 then delay
            else (case rnd of
                    None \<Rightarrow> delay
                  | Some off \<Rightarrow>
                      (let adjusted = wrap64 (wrap64 (delay + off) - jm)
                       in if adjusted < min_backoff_delay then min_backoff_delay
                          else if adjusted > mx then mx else adjusted))))"

section \<open>The loop (runtime.go, Run)\<close>

record backoff_config =
  bo_base :: int
  bo_max :: int
  bo_jitter :: int

text \<open>How one session ended: \<open>connectAndServe\<close>'s stable flag and error, and the draw used for it.\<close>

record session_end =
  se_stable :: bool
  se_error :: "go_error option"
  se_draw :: "int option"

text \<open>How long the loop sleeps before the next attempt (\<open>None\<close>: at once), and the new streak.\<close>

definition reconnect_step :: "backoff_config \<Rightarrow> int \<Rightarrow> session_end \<Rightarrow> int option \<times> int" where
  "reconnect_step cfg streak s =
     (if se_error s \<noteq> None \<and> is_duplicate_connection (se_error s) then (Some auth_cooldown, 0)
      else if se_error s \<noteq> None \<and> is_non_retriable (se_error s) then (Some auth_cooldown, 0)
      else if se_stable s then (None, 0)
      else if is_pending_auth_error (se_error s) then (Some pending_auth_delay, 0)
      else (Some (jittered_backoff (bo_base cfg) (bo_max cfg) streak (bo_jitter cfg) (se_draw s)), streak + 1))"

text \<open>The sleeps of a run; the context ends when the sessions run out.\<close>

fun run_waits :: "backoff_config \<Rightarrow> int \<Rightarrow> session_end list \<Rightarrow> int option list" where
  "run_waits cfg streak [] = []"
| "run_waits cfg streak (s # ss) = (let (w, k) = reconnect_step cfg streak s in w # run_waits cfg k ss)"

definition agent_run :: "backoff_config \<Rightarrow> string \<Rightarrow> string \<Rightarrow> session_end list \<Rightarrow> int option list" where
  "agent_run cfg token server ss =
     (if trim_space token = [] \<or> trim_space server = [] then [] else run_waits cfg 0 ss)"

section \<open>What the backoff is\<close>

lemma wrap64_id: "- (2 ^ 63) \<le> x \<Longrightarrow> x < 2 ^ 63 \<Longrightarrow> wrap64 x = x"
  by (simp add: wrap64_def)

lemma double_up_eq:
  assumes "0 < d" and "d \<le> mx" and "mx < 2 ^ 62"
  shows "double_up mx n d = min (d * 2 ^ n) mx"
  using assms
proof (induction n arbitrary: d)
  case (Suc n)
  show ?case
  proof (cases "d < mx")
    case True
    have w: "wrap64 (d * 2) = d * 2" using Suc.prems True by (intro wrap64_id) auto
    show ?thesis
    proof (cases "d * 2 > mx")
      case big: True
      have "mx \<le> d * 2 ^ Suc n"
      proof -
        have "d * 2 * 1 \<le> d * 2 * 2 ^ n" using Suc.prems(1) by (intro mult_left_mono) auto
        then show ?thesis using big by (simp add: ac_simps)
      qed
      moreover have "double_up mx n mx = mx" by (cases n) simp_all
      ultimately show ?thesis using True w big by (simp add: Let_def min_def)
    next
      case False
      then show ?thesis using True w Suc.IH[of "d * 2"] Suc.prems by (simp add: Let_def ac_simps)
    qed
  next
    case False
    then have "mx = d" using Suc.prems by simp
    moreover have "d * 1 \<le> d * 2 ^ Suc n"
      using Suc.prems(1) one_le_power[of "2 :: int" "Suc n"] by (intro mult_left_mono) simp_all
    ultimately have "mx \<le> d * 2 ^ Suc n" by simp
    then show ?thesis using False Suc.prems by (simp add: min_def)
  qed
qed (simp add: min_def)

lemma backoff_delay_eq:
  assumes "base < 2 ^ 62" and "mx < 2 ^ 62"
  shows "backoff_delay base mx step = min (backoff_base base * 2 ^ nat step) (backoff_max base mx)"
proof -
  have "(if step < 0 then 0 else nat step) = nat step" by simp
  moreover have "0 < backoff_base base" "backoff_base base \<le> backoff_max base mx" "backoff_max base mx < 2 ^ 62"
    using assms by (auto simp: backoff_base_def backoff_max_def)
  ultimately show ?thesis using double_up_eq unfolding backoff_delay_def by presburger
qed

lemma jitter_max_eq:
  assumes "0 \<le> delay" and "delay \<le> 2 ^ 55" and "0 \<le> pct" and "pct \<le> 100"
  shows "jitter_max delay pct = delay * pct div 100 \<and> jitter_max delay pct \<le> delay \<and> 0 \<le> jitter_max delay pct"
proof -
  have le: "delay * pct \<le> delay * 100" using assms by (intro mult_left_mono) auto
  have nn: "0 \<le> delay * pct" using assms by simp
  have "wrap64 (delay * pct) = delay * pct" using le nn assms(2) by (intro wrap64_id) auto
  moreover have "delay * pct div 100 \<le> delay" using le by linarith
  ultimately show ?thesis using nn by (simp add: jitter_max_def Let_def)
qed

lemma clamp_jitter:
  fixes d :: int
  assumes "0 \<le> off" and "off \<le> 2 * j" and "d \<le> mx"
  shows "((if d + off - j < fl then fl else if d + off - j > mx then mx else d + off - j) = fl \<or>
      \<bar>(if d + off - j < fl then fl else if d + off - j > mx then mx else d + off - j) - d\<bar> \<le> j) \<and>
    (if d + off - j < fl then fl else if d + off - j > mx then mx else d + off - j) \<le> max mx fl \<and>
    min d fl \<le> (if d + off - j < fl then fl else if d + off - j > mx then mx else d + off - j)"
  using assms by (auto simp: abs_le_iff)

lemma jitter_bounds:
  assumes "base \<le> 2 ^ 55" and "mx \<le> 2 ^ 55" and "pct \<le> 100"
    and "\<And>off. rnd = Some off \<Longrightarrow> 0 \<le> off \<and> off \<le> 2 * jitter_max (backoff_delay base mx step) pct"
  shows "backoff_delay base mx step = min (backoff_base base * 2 ^ nat step) (backoff_max base mx) \<and>
    (jittered_backoff base mx step pct rnd = min_backoff_delay \<or>
     \<bar>jittered_backoff base mx step pct rnd - backoff_delay base mx step\<bar> \<le> backoff_delay base mx step * max 0 pct div 100) \<and>
    jittered_backoff base mx step pct rnd \<le> max (backoff_max base mx) min_backoff_delay \<and>
    min (backoff_delay base mx step) min_backoff_delay \<le> jittered_backoff base mx step pct rnd"
proof -
  let ?d = "backoff_delay base mx step" and ?mx = "backoff_max base mx"
  have d: "?d = min (backoff_base base * 2 ^ nat step) ?mx"
    using assms(1,2) by (intro backoff_delay_eq) simp_all
  have bb: "0 < backoff_base base" by (simp add: backoff_base_def)
  have bm: "backoff_base base \<le> ?mx" "?mx \<le> 2 ^ 55"
    using assms(1,2) by (auto simp: backoff_base_def backoff_max_def)
  have "0 < backoff_base base * 2 ^ nat step" using bb by simp
  then have dpos: "0 < ?d" and dle: "?d \<le> ?mx" using d bb bm by auto
  show ?thesis
  proof (cases "pct \<le> 0 \<or> jitter_max ?d pct \<le> 0 \<or> rnd = None")
    case True
    have "0 \<le> ?d * max 0 pct div 100" using dpos by (simp add: pos_imp_zdiv_nonneg_iff)
    moreover have "jittered_backoff base mx step pct rnd = ?d"
      using True by (auto simp: jittered_backoff_def Let_def)
    moreover have "?d \<le> max ?mx min_backoff_delay" "min ?d min_backoff_delay \<le> ?d" using dle by simp_all
    ultimately show ?thesis using d by (simp only: diff_self abs_zero simp_thms)
  next
    case False
    then obtain off where off: "rnd = Some off" by blast
    have jm: "jitter_max ?d pct = ?d * pct div 100" "jitter_max ?d pct \<le> ?d"
      using jitter_max_eq[of ?d pct] dpos dle bm(2) assms(3) False by auto
    let ?j = "jitter_max ?d pct"
    have o: "0 \<le> off" "off \<le> 2 * ?j" using assms(4)[OF off] by auto
    have w: "wrap64 (wrap64 (?d + off) - ?j) = ?d + off - ?j"
    proof -
      have "wrap64 (?d + off) = ?d + off" using o dpos dle bm(2) jm(2) by (intro wrap64_id) auto
      moreover have "wrap64 (?d + off - ?j) = ?d + off - ?j" using o dpos dle bm(2) jm(2) by (intro wrap64_id) auto
      ultimately show ?thesis by simp
    qed
    have r: "jittered_backoff base mx step pct rnd =
        (if ?d + off - ?j < min_backoff_delay then min_backoff_delay else if ?d + off - ?j > ?mx then ?mx else ?d + off - ?j)"
      using False off w by (simp add: jittered_backoff_def Let_def)
    have mp: "max 0 pct = pct" using False by simp
    show ?thesis
      unfolding r mp jm(1)[symmetric] using clamp_jitter[OF o dle, of min_backoff_delay] d by blast
  qed
qed



section \<open>What the loop does\<close>

text \<open>A failure that is none of the classified ones and came before the session was stable.\<close>

definition plain_failure :: "session_end \<Rightarrow> bool" where
  "plain_failure s \<longleftrightarrow> \<not> se_stable s \<and> \<not> is_duplicate_connection (se_error s) \<and>
     \<not> is_non_retriable (se_error s) \<and> \<not> is_pending_auth_error (se_error s)"

lemma run_waits_plain:
  "list_all plain_failure ss \<Longrightarrow> n < length ss \<Longrightarrow>
   run_waits cfg k ss ! n = Some (jittered_backoff (bo_base cfg) (bo_max cfg) (k + int n) (bo_jitter cfg) (se_draw (ss ! n)))"
proof (induction ss arbitrary: k n)
  case (Cons s ss)
  have "reconnect_step cfg k s = (Some (jittered_backoff (bo_base cfg) (bo_max cfg) k (bo_jitter cfg) (se_draw s)), k + 1)"
    using Cons.prems(1) by (simp add: reconnect_step_def plain_failure_def)
  then show ?case using Cons.IH[of "n - 1" "k + 1"] Cons.prems by (cases n) (simp_all add: ac_simps)
qed simp

lemma run_waits_append_reset:
  assumes "snd (reconnect_step cfg k s) = 0"
  shows "run_waits cfg k (s # ss) = fst (reconnect_step cfg k s) # run_waits cfg 0 ss"
  using assms by (cases "reconnect_step cfg k s") simp



end
