(* ===== verification/Config.thy ===== *)
theory Config
  imports Reconnect
begin

text \<open>
  \<open>internal/config/config.go\<close>: the settings of the agent as the environment gives them, with their
  defaults and bounds. The text of the embedded version file and \<open>time.ParseDuration\<close> are arguments;
  durations are 64 bit numbers of nanoseconds.
\<close>

record config =
  cf_version :: string
  cf_server :: string
  cf_token :: string
  cf_ws_url :: string
  cf_api_url :: string
  cf_dashboard :: string
  cf_env_path :: path
  cf_verbose :: bool
  cf_log_level :: string
  cf_traffic :: string
  cf_heartbeat :: int
  cf_self_heal :: int
  cf_base_delay :: int
  cf_max_delay :: int
  cf_jitter :: int
  cf_outbox :: path
  cf_inbox :: path
  cf_router_image :: string
  cf_router_network :: string
  cf_http_port :: int
  cf_https_port :: int
  cf_router_config :: path

section \<open>Reading one variable\<close>

definition env_or_default :: "host \<Rightarrow> string \<Rightarrow> string \<Rightarrow> string" where
  "env_or_default h key fallback = (if getenv h key = [] then fallback else getenv h key)"

definition env_bool_or_default :: "host \<Rightarrow> string \<Rightarrow> bool \<Rightarrow> bool" where
  "env_bool_or_default h key fallback =
     (let v = getenv h key in
      if v \<in> {''1'', ''true'', ''TRUE'', ''yes'', ''YES'', ''on'', ''ON''} then True
      else if v \<in> {''0'', ''false'', ''FALSE'', ''no'', ''NO'', ''off'', ''OFF''} then False
      else fallback)"

type_synonym durations = "string \<Rightarrow> int option"

definition env_duration_or_default :: "durations \<Rightarrow> host \<Rightarrow> string \<Rightarrow> int \<Rightarrow> int" where
  "env_duration_or_default dur h key fallback =
     (let v = trim_space (getenv h key) in
      if v = [] then fallback
      else (case dur v of None \<Rightarrow> fallback | Some d \<Rightarrow> if d \<le> 0 then fallback else d))"

definition env_int_or_default :: "host \<Rightarrow> string \<Rightarrow> int \<Rightarrow> int" where
  "env_int_or_default h key fallback =
     (let v = trim_space (getenv h key) in
      if v = [] then fallback else (case atoi v of None \<Rightarrow> fallback | Some n \<Rightarrow> n))"

definition env_duration_at_least :: "durations \<Rightarrow> host \<Rightarrow> string \<Rightarrow> int \<Rightarrow> int \<Rightarrow> int" where
  "env_duration_at_least dur h key fallback minimum =
     (let v = env_duration_or_default dur h key fallback in if v < minimum then minimum else v)"

definition env_int_clamped :: "host \<Rightarrow> string \<Rightarrow> int \<Rightarrow> int \<Rightarrow> int \<Rightarrow> int" where
  "env_int_clamped h key fallback minimum maximum =
     (let v = env_int_or_default h key fallback in
      if v < minimum then minimum else if v > maximum then maximum else v)"

definition min_port_number :: int where "min_port_number = 1"
definition max_port_number :: int where "max_port_number = 65535"

definition env_port_or_default :: "host \<Rightarrow> string \<Rightarrow> int \<Rightarrow> int" where
  "env_port_or_default h key fallback =
     (let v = env_int_or_default h key fallback in
      if v < min_port_number \<or> v > max_port_number then fallback else v)"

definition normalize_traffic_profile :: "string \<Rightarrow> string" where
  "normalize_traffic_profile v = (if to_lower (trim_space v) = ''debug'' then ''debug'' else ''default'')"

definition http_address_of :: "string \<Rightarrow> string" where
  "http_address_of ws =
     (let a = trim_space ws;
          a = (if has_prefix a ''wss://'' then ''https://'' @ trim_prefix a ''wss://''
               else if has_prefix a ''ws://'' then ''http://'' @ trim_prefix a ''ws://'' else a)
      in case cut a ''/ws/agents'' of
           Some (root, _) \<Rightarrow> root
         | None \<Rightarrow> trim_right_by (\<lambda>c. c = slash) a)"

section \<open>The whole configuration\<close>

definition second :: int where "second = 1000000000"

definition min_heartbeat :: int where "min_heartbeat = 5 * second"
definition min_base_delay :: int where "min_base_delay = 250000000"
definition max_jitter_pct :: int where "max_jitter_pct = 50"

definition with_consistent_intervals :: "config \<Rightarrow> config" where
  "with_consistent_intervals c =
     (let c1 = (if cf_self_heal c < cf_heartbeat c then c\<lparr>cf_self_heal := wrap64 (cf_heartbeat c * 2)\<rparr> else c)
      in if cf_max_delay c1 < cf_base_delay c1 then c1\<lparr>cf_max_delay := cf_base_delay c1\<rparr> else c1)"

definition load_config :: "string \<Rightarrow> durations \<Rightarrow> host \<Rightarrow> config" where
  "load_config embedded dur h =
     (let profile = (if env_bool_or_default h ''TUG_AGENT_DEBUG_PROFILE'' False then ''debug''
                     else normalize_traffic_profile (env_or_default h ''TUG_AGENT_TRAFFIC_PROFILE'' ''default''));
          self_heal = (if profile = ''debug'' then 300 * second else 900 * second);
          ws = env_or_default h ''TUG_API_WS_URL'' ''wss://api.tug.sh/ws/agents''
      in with_consistent_intervals
        \<lparr>cf_version = env_or_default h ''TUG_AGENT_VERSION'' (trim_space embedded),
         cf_server = trim_space (env_or_default h ''TUG_SERVER_ID'' []),
         cf_token = env_or_default h ''TUG_AGENT_TOKEN'' [],
         cf_ws_url = ws,
         cf_api_url = env_or_default h ''TUG_API_URL'' (http_address_of ws),
         cf_dashboard = env_or_default h ''TUG_DASHBOARD_URL'' ''https://app.tug.sh'',
         cf_env_path = env_or_default h ''TUG_AGENT_ENV_PATH'' ''/etc/tug/agent.env'',
         cf_verbose = env_bool_or_default h ''TUG_VERBOSE'' True,
         cf_log_level = env_or_default h ''TUG_LOG_LEVEL'' [],
         cf_traffic = profile,
         cf_heartbeat = env_duration_at_least dur h ''TUG_AGENT_HEARTBEAT_INTERVAL'' (15 * second) min_heartbeat,
         cf_self_heal = env_duration_at_least dur h ''TUG_AGENT_SELF_HEAL_INTERVAL'' self_heal min_heartbeat,
         cf_base_delay = env_duration_at_least dur h ''TUG_AGENT_RECONNECT_BASE_DELAY'' second min_base_delay,
         cf_max_delay = env_duration_at_least dur h ''TUG_AGENT_RECONNECT_MAX_DELAY'' (30 * second) min_base_delay,
         cf_jitter = env_int_clamped h ''TUG_AGENT_RECONNECT_JITTER_PCT'' 20 0 max_jitter_pct,
         cf_outbox = env_or_default h ''TUG_AGENT_OUTBOX_PATH'' [],
         cf_inbox = env_or_default h ''TUG_AGENT_COMMAND_INBOX_PATH'' [],
         cf_router_image = env_or_default h ''TUG_ROUTER_IMAGE'' ''caddy:2'',
         cf_router_network = env_or_default h ''TUG_ROUTER_NETWORK'' [],
         cf_http_port = env_port_or_default h ''TUG_ROUTER_HTTP_PORT'' 80,
         cf_https_port = env_port_or_default h ''TUG_ROUTER_HTTPS_PORT'' 443,
         cf_router_config = env_or_default h ''TUG_ROUTER_CONFIG_PATH'' ''/etc/caddy/Caddyfile''\<rparr>)"

section \<open>What the configuration guarantees\<close>

lemma env_duration_at_least_ge: "minimum \<le> env_duration_at_least dur h key fallback minimum"
  by (simp add: env_duration_at_least_def Let_def)

lemma env_int_clamped_range: "lo \<le> hi \<Longrightarrow> lo \<le> env_int_clamped h key f lo hi \<and> env_int_clamped h key f lo hi \<le> hi"
  by (simp add: env_int_clamped_def Let_def)

lemma env_port_range: "1 \<le> f \<Longrightarrow> f \<le> 65535 \<Longrightarrow> 1 \<le> env_port_or_default h key f \<and> env_port_or_default h key f \<le> 65535"
  by (auto simp: env_port_or_default_def Let_def min_port_number_def max_port_number_def)

text \<open>
  What a consistent configuration is; the periods and delays the runtime works with. Doubling the heartbeat
  wraps to a negative period when it is 146 years or more; the worker takes its own default of 15
  minutes then (\<open>positiveOrDefault\<close> in \<open>session.go\<close>).
\<close>

definition config_ok :: "config \<Rightarrow> bool" where
  "config_ok c \<longleftrightarrow>
     min_heartbeat \<le> cf_heartbeat c \<and>
     (cf_heartbeat c \<le> cf_self_heal c \<or> 2 ^ 62 \<le> cf_heartbeat c \<and> cf_self_heal c < 0) \<and>
     min_base_delay \<le> cf_base_delay c \<and> cf_base_delay c \<le> cf_max_delay c \<and>
     0 \<le> cf_jitter c \<and> cf_jitter c \<le> 50 \<and>
     1 \<le> cf_http_port c \<and> cf_http_port c \<le> 65535 \<and> 1 \<le> cf_https_port c \<and> cf_https_port c \<le> 65535 \<and>
     cf_traffic c \<in> {''debug'', ''default''}"

lemma wrapped_double: "2 ^ 62 \<le> x \<Longrightarrow> x < 2 ^ 63 \<Longrightarrow> wrap64 (x * 2) < 0"
proof -
  assume x: "2 ^ 62 \<le> x" "x < 2 ^ 63"
  have "(x * 2 + 2 ^ 63) mod 2 ^ 64 = x * 2 + 2 ^ 63 - 2 ^ 64"
    by (rule int_mod_pos_eq[where q = 1]) (use x in simp_all)
  then show ?thesis using x by (simp add: wrap64_def)
qed

text \<open>
  C27: No environment gives a configuration that hammers the API, never backs off, or binds a port
  that does not exist. Whatever the variables hold, the heartbeat is at least five seconds, the
  reconnect delay starts at 250 ms or more and never has a cap below its start, the jitter is 0 to
  50 percent and the router's ports are valid; and self-healing never runs more often than the
  heartbeat, but for one case: a heartbeat of 146 years or more with a shorter self-healing period makes that period
  negative, for which the worker has a default. All that is assumed is that a parsed duration is a
  64 bit number.
\<close>

theorem loaded_config_consistent:
  assumes "\<And>s d. dur s = Some d \<Longrightarrow> d < 2 ^ 63"
  shows "config_ok (load_config embedded dur h)"
proof -
  let ?hb = "env_duration_at_least dur h ''TUG_AGENT_HEARTBEAT_INTERVAL'' (15 * second) min_heartbeat"
  have hb: "min_heartbeat \<le> ?hb" by (rule env_duration_at_least_ge)
  have range: "?hb < 2 ^ 63"
    using assms by (auto simp: env_duration_at_least_def env_duration_or_default_def Let_def second_def min_heartbeat_def split: option.splits)
  have pos: "0 < min_heartbeat" by (simp add: min_heartbeat_def second_def)
  have tw: "?hb \<le> wrap64 (?hb * 2) \<or> 2 ^ 62 \<le> ?hb \<and> wrap64 (?hb * 2) < 0"
  proof (cases "?hb < 2 ^ 62")
    case True
    then have "wrap64 (?hb * 2) = ?hb * 2" using hb pos by (intro wrap64_id) simp_all
    then show ?thesis using hb pos by linarith
  next
    case False
    then show ?thesis using range wrapped_double[of ?hb] by simp
  qed
  have tr: "normalize_traffic_profile s \<in> {''debug'', ''default''}" for s by (simp add: normalize_traffic_profile_def)
  show ?thesis
    using hb tw pos tr env_int_clamped_range[of 0 50 h "''TUG_AGENT_RECONNECT_JITTER_PCT''" 20]
      env_port_range[of 80 h "''TUG_ROUTER_HTTP_PORT''"] env_port_range[of 443 h "''TUG_ROUTER_HTTPS_PORT''"]
      env_duration_at_least_ge[of min_base_delay dur h "''TUG_AGENT_RECONNECT_BASE_DELAY''" second]
    by (simp add: load_config_def with_consistent_intervals_def config_ok_def Let_def max_jitter_pct_def)
qed

theorem loaded_config_consistent_witness:
  "config_ok (load_config ''1.1.35'' (\<lambda>s. if s = ''1ms'' then Some 1000000 else if s = ''2000000h'' then Some 7200000000000000000 else None)
     (bare_host\<lparr>environ := [(''TUG_AGENT_HEARTBEAT_INTERVAL'', ''2000000h''), (''TUG_AGENT_RECONNECT_BASE_DELAY'', ''1ms'')]\<rparr>))"
  by (rule loaded_config_consistent) (simp split: if_splits)

text \<open>The exception does occur: 228 years of heartbeat leave a negative self-healing period.\<close>

lemma doubled_heartbeat_wraps:
  "cf_self_heal (load_config [] (\<lambda>s. if s = ''2000000h'' then Some 7200000000000000000 else None)
     (bare_host\<lparr>environ := [(''TUG_AGENT_HEARTBEAT_INTERVAL'', ''2000000h'')]\<rparr>)) < 0"
  by code_simp

end
