(* ===== verification/Lifecycle.thy ===== *)
theory Lifecycle
  imports Config
begin

text \<open>
  \<open>internal/lifecycle\<close>: the update of the agent's own binary and the detached uninstall. The
  download is a parameter: its status, its announced length, the bytes that were read, how the reads cut
  them and when, and the error that ended them.
\<close>

section \<open>Progress of a download (updater.go)\<close>

definition report_interval :: int where "report_interval = 250000000"

record progress =
  pg_total :: uint64
  pg_downloaded :: uint64
  pg_last_report :: int
  pg_last_pct :: int
  pg_reports :: "(uint64 \<times> uint64 \<times> int) list"

text \<open>One read of \<open>n\<close> bytes at time \<open>now\<close>; the reader exists only when there is somebody to report to.\<close>

definition progress_read :: "progress \<Rightarrow> nat \<times> int \<Rightarrow> progress" where
  "progress_read p r =
     (let (n, now) = r in
      if n = 0 then p
      else (let p1 = p\<lparr>pg_downloaded := pg_downloaded p + word_of_nat n\<rparr> in
            if pg_total p1 = 0 then p1
            else (let pct = sint ((pg_downloaded p1 * 100) div pg_total p1) in
                  if pct = pg_last_pct p1 \<and> now - pg_last_report p1 \<le> report_interval then p1
                  else p1\<lparr>pg_last_pct := pct, pg_last_report := now,
                          pg_reports := pg_reports p1 @ [(pg_downloaded p1, pg_total p1, pct)]\<rparr>)))"

definition new_progress :: "uint64 \<Rightarrow> progress" where
  "new_progress n = \<lparr>pg_total = n, pg_downloaded = 0, pg_last_report = - 62135596800000000000, pg_last_pct = 0, pg_reports = []\<rparr>"

section \<open>The update (updater.go)\<close>

record download =
  dn_status :: int
  dn_length :: int
  dn_body :: string
  dn_err :: "go_error option"
  dn_reads :: "(nat \<times> int) list"

record update_env =
  ue_build :: "string \<Rightarrow> go_error option"
  ue_fetch :: "string \<Rightarrow> (go_error, download) result"
  ue_self :: "path option"

definition normalize_reported_version :: "string \<Rightarrow> string" where
  "normalize_reported_version value =
     (let v = trim_prefix (trim_space value) ''v'' in if equal_fold v ''latest'' then [] else v)"

definition binary_version :: "sys \<Rightarrow> path \<Rightarrow> host \<Rightarrow> (go_error, string) result \<times> host" where
  "binary_version sys p h =
     (let (r, h1) = exec sys [p, ''version''] h in
      (case p_err r of
         Some e \<Rightarrow> Inl e
       | None \<Rightarrow>
           (let fs = Go_Strings.fields (trim_space (p_out r)) in
            if fs = [] then Inl (Msg ''empty version output'') else Inr (normalize_reported_version (last fs))), h1))"

definition current_binary :: "update_env \<Rightarrow> path" where
  "current_binary ue =
     (case ue_self ue of
        Some p \<Rightarrow> trim_space (trim_suffix p '' (deleted)'')
      | None \<Rightarrow> ''/usr/local/bin/tug-agent'')"

definition give_up :: "path \<Rightarrow> go_error \<Rightarrow> host \<Rightarrow> go_error option \<times> host" where
  "give_up p e h = (Some e, snd (remove_file p h))"

definition reports_of :: "bool \<Rightarrow> download \<Rightarrow> (uint64 \<times> uint64 \<times> int) list" where
  "reports_of watched d =
     (if watched
      then pg_reports (foldl progress_read (new_progress (if dn_length d > 0 then word_of_int (dn_length d) else 0)) (dn_reads d))
      else [])"

text \<open>
  Creating the next binary, copying into it and closing it take a fault each. \<open>dn_reads\<close> are the
  reads that took place, also where the copy ended early.
\<close>

definition save_next :: "path \<Rightarrow> download \<Rightarrow> host \<Rightarrow> go_error option \<times> host" where
  "save_next p d h =
     (let (write_err, h1) = append_file p (dn_body d) h;
          copy_err = (case write_err of Some e \<Rightarrow> Some e | None \<Rightarrow> dn_err d);
          close_err = (if fault_of h1 \<noteq> Fine then Some (IOError p) else None);
          h2 = pop_fault h1
      in case copy_err of
           Some e \<Rightarrow> give_up p (Wrapf ''failed to read binary payload: '' e []) h2
         | None \<Rightarrow>
             (case close_err of
                Some e \<Rightarrow> give_up p (Wrapf ''failed to save temporary binary: '' e []) h2
              | None \<Rightarrow>
                  (if length (dn_body d) < 1000
                   then give_up p (Msg (''invalid binary size ('' @ nat_dec (length (dn_body d)) @ '' bytes)'')) h2
                   else (None, h2))))"

text \<open>A process that runs and fails is an \<open>ExitError\<close>; any other error kept it from starting.\<close>

definition test_next :: "sys \<Rightarrow> path \<Rightarrow> host \<Rightarrow> go_error option \<times> host" where
  "test_next sys p h =
     (let (r, h1) = exec sys [p, ''--test-mode''] h in
      case p_err r of
        None \<Rightarrow> (None, h1)
      | Some e \<Rightarrow>
          give_up p (Wrapf (case e of ExitError _ \<Rightarrow> ''new binary failed health test: ''
                            | _ \<Rightarrow> ''new binary execution test failed: '') e []) h1)"

definition check_version :: "sys \<Rightarrow> path \<Rightarrow> string \<Rightarrow> host \<Rightarrow> go_error option \<times> host" where
  "check_version sys p expected_version h =
     (let expected = normalize_reported_version expected_version in
      if expected = [] then (None, h)
      else (case binary_version sys p h of
              (Inl e, h1) \<Rightarrow> give_up p (Wrapf (''could not read the downloaded binary'' @ [CHR 0x27] @ ''s version: '') e []) h1
            | (Inr got, h1) \<Rightarrow>
                (if got \<noteq> expected
                 then give_up p (Msg (''the release host served agent v'' @ got @ '', not the requested v'' @ expected @
                        ''. The requested release is probably not published yet'')) h1
                 else (None, h1))))"

text \<open>From the saved file to the running one.\<close>

definition install_next :: "sys \<Rightarrow> path \<Rightarrow> path \<Rightarrow> string \<Rightarrow> host \<Rightarrow> go_error option \<times> host" where
  "install_next sys nxt cur expected h =
     (case test_next sys nxt h of
        (Some e, h1) \<Rightarrow> (Some e, h1)
      | (None, h1) \<Rightarrow>
          (case check_version sys nxt expected h1 of
             (Some e, h2) \<Rightarrow> (Some e, h2)
           | (None, h2) \<Rightarrow>
               (case rename nxt cur h2 of
                  (Some e, h3) \<Rightarrow> (Some (Wrapf ''failed to replace agent binary: '' e []), h3)
                | (None, h3) \<Rightarrow> (None, h3))))"

type_synonym update_report = "(uint64 \<times> uint64 \<times> int) list"

definition safe_update_with_progress ::
  "update_env \<Rightarrow> sys \<Rightarrow> string \<Rightarrow> string \<Rightarrow> bool \<Rightarrow> host \<Rightarrow> (go_error option \<times> update_report) \<times> host" where
  "safe_update_with_progress ue sys url expected watched h =
     (case ue_build ue url of
        Some e \<Rightarrow> ((Some (Wrapf ''failed to create update request: '' e []), []), h)
      | None \<Rightarrow>
          (case ue_fetch ue url of
             Inl e \<Rightarrow> ((Some (Wrapf ''failed to download update binary: '' e []), []), h)
           | Inr d \<Rightarrow>
               (if dn_status d \<noteq> 200
                then ((Some (Msg (''download server returned HTTP status '' @ itoa (dn_status d))), []), h)
                else (let cur = current_binary ue; nxt = cur @ ''.next''; n = word_of_nat (length (dn_body d))
                      in case write_file nxt [] h of
                           (Some e, h1) \<Rightarrow> ((Some (Wrapf ''failed to create temporary binary: '' e []), []), h1)
                         | (None, h1) \<Rightarrow>
                             (case save_next nxt d h1 of
                                (Some e, h2) \<Rightarrow> ((Some e, reports_of watched d), h2)
                              | (None, h2) \<Rightarrow>
                                  (let (r, h3) = install_next sys nxt cur expected h2 in
                                   ((r, reports_of watched d @ (if watched \<and> dn_length d > 0 then [(n, n, 100)] else [])), h3)))))))"

definition safe_update :: "update_env \<Rightarrow> sys \<Rightarrow> string \<Rightarrow> host \<Rightarrow> go_error option \<times> host" where
  "safe_update ue sys url h =
     (let ((r, _), h1) = safe_update_with_progress ue sys url [] False h in (r, h1))"

section \<open>Uninstall (uninstall.go)\<close>

definition uninstall_path :: path where "uninstall_path = ''/tmp/tug-uninstall.sh''"

definition uninstall_script :: "bool \<Rightarrow> string" where
  "uninstall_script clean_docker =
     join [newline]
       [''#!/usr/bin/env sh'', ''set -eu'', [], ''systemctl stop tug-agent.service || true'',
        ''systemctl disable tug-agent.service || true'', ''rm -f /etc/systemd/system/tug-agent.service'',
        ''systemctl daemon-reload || true'', ''rm -rf /etc/tug /var/lib/tug'', [],
        ''if [ '' @ quote @ (if clean_docker then ''clean'' else ''keep'') @ quote @ '' = '' @ quote @ ''clean'' @ quote @ '' ]; then'',
        ''  docker ps -aq | xargs -r docker rm -f'', ''fi'', [],
        ''rm -f /usr/local/bin/tug-agent /usr/local/bin/tug /usr/local/bin/tug-agent.next /usr/local/bin/tug.next'',
        ''rm -f '' @ quote @ ''$0'' @ quote, []]"

definition run_detached_uninstall :: "sys \<Rightarrow> bool \<Rightarrow> host \<Rightarrow> go_error option \<times> host" where
  "run_detached_uninstall sys clean_docker h =
     (case write_file uninstall_path (uninstall_script clean_docker) h of
        (Some e, h1) \<Rightarrow> (Some e, h1)
      | (None, h1) \<Rightarrow> (let (r, h2) = exec sys [''nohup'', uninstall_path] h1 in (start_error r, h2)))"

section \<open>What an update may install\<close>

text \<open>A process that leaves the files as they are.\<close>

definition files_kept :: "sys \<Rightarrow> bool" where
  "files_kept sys \<longleftrightarrow> (\<forall>c h. file_at (snd (sys c h)) = file_at h \<and> cwd (snd (sys c h)) = cwd h)"

lemma exec_files_kept: "files_kept sys \<Longrightarrow> exec sys argv h = (r, h1) \<Longrightarrow> file_at h1 = file_at h \<and> cwd h1 = cwd h"
  by (auto simp: files_kept_def exec_def exec_in_def file_at_def node_at_def fun_eq_iff split: prod.splits) (metis snd_conv)+

lemma remove_file_frame: "q \<noteq> loc h p \<Longrightarrow> file_at (snd (remove_file p h)) q = file_at h q" "cwd (snd (remove_file p h)) = cwd h"
  by (auto simp: remove_file_def file_at_def Let_def split: option.splits node.splits)

definition others_kept :: "key \<Rightarrow> host \<Rightarrow> host \<Rightarrow> bool" where
  "others_kept k h h' \<longleftrightarrow> (\<forall>q. q \<noteq> k \<longrightarrow> file_at h' q = file_at h q) \<and> cwd h' = cwd h"

lemma others_kept_trans: "others_kept k h h1 \<Longrightarrow> others_kept k h1 h2 \<Longrightarrow> others_kept k h h2"
  by (simp add: others_kept_def)

lemma others_kept_loc: "others_kept k h h1 \<Longrightarrow> loc h1 p = loc h p"
  by (simp add: others_kept_def loc_def)

lemma give_up_D: "give_up p e h = (r, h') \<Longrightarrow> r = Some e \<and> others_kept (loc h p) h h'"
  using remove_file_frame by (auto simp: give_up_def others_kept_def)

lemma write_with_others: "write_with f p s h = (r, h1) \<Longrightarrow> others_kept (loc h p) h h1"
  using write_with_frame by (auto simp: others_kept_def)

lemma save_next_D:
  assumes "save_next p d h = (r, h')" and "file_at h (loc h p) = Some []"
  shows "others_kept (loc h p) h h'" and
    "r = None \<Longrightarrow> dn_err d = None \<and> 1000 \<le> length (dn_body d) \<and> file_at h' (loc h p) = Some (dn_body d)"
proof -
  obtain we h1 where w: "append_file p (dn_body d) h = (we, h1)" by fastforce
  have k: "others_kept (loc h p) h h1" using write_with_others w by (simp add: append_file_def)
  have l: "loc (pop_fault h1) p = loc h p" using k by (simp add: loc_def others_kept_def)
  have pk: "others_kept (loc h p) h (pop_fault h1)" using k by (simp add: others_kept_def)
  have up: "give_up p e (pop_fault h1) = (r, h') \<Longrightarrow> r \<noteq> None \<and> others_kept (loc h p) h h'" for e
    using give_up_D[of p e "pop_fault h1" r h'] l pk others_kept_trans by auto
  show "others_kept (loc h p) h h'"
    using assms(1) w up pk by (auto simp: save_next_def Let_def split: option.splits if_splits)
  show "dn_err d = None \<and> 1000 \<le> length (dn_body d) \<and> file_at h' (loc h p) = Some (dn_body d)" if "r = None"
  proof -
    have none: "we = None" "h' = pop_fault h1" "dn_err d = None" "1000 \<le> length (dn_body d)"
      using assms(1) w up that by (auto simp: save_next_def Let_def split: option.splits if_splits)
    then show ?thesis using write_with_NoneD[OF w[unfolded append_file_def none(1)]] assms(2) by simp
  qed
qed

lemma test_next_D:
  assumes "files_kept sys" and "test_next sys p h = (r, h')"
  shows "others_kept (loc h p) h h'" and "r = None \<Longrightarrow> p_err (fst (exec sys [p, ''--test-mode''] h)) = None \<and> file_at h' = file_at h"
proof -
  obtain x h1 where e: "exec sys [p, ''--test-mode''] h = (x, h1)" by fastforce
  have k: "file_at h1 = file_at h" "cwd h1 = cwd h" using exec_files_kept[OF assms(1) e] by auto
  then have "others_kept (loc h p) h h1" "loc h1 p = loc h p" by (simp_all add: others_kept_def loc_def)
  then show "others_kept (loc h p) h h'"
    using assms(2) e give_up_D others_kept_trans by (fastforce simp: test_next_def split: option.splits)
  show "p_err (fst (exec sys [p, ''--test-mode''] h)) = None \<and> file_at h' = file_at h" if "r = None"
    using assms(2) e k that by (auto simp: test_next_def give_up_def split: option.splits)
qed

lemma check_version_D:
  assumes "files_kept sys" and "check_version sys p expected h = (r, h')"
  shows "others_kept (loc h p) h h'"
    and "r = None \<Longrightarrow> file_at h' = file_at h \<and>
      (normalize_reported_version expected = [] \<or> fst (binary_version sys p h) = Inr (normalize_reported_version expected))"
proof -
  obtain x h1 where e: "binary_version sys p h = (x, h1)" by fastforce
  have k: "file_at h1 = file_at h" "cwd h1 = cwd h"
    using e exec_files_kept[OF assms(1)] by (auto simp: binary_version_def Let_def split: prod.splits)
  then have o1: "others_kept (loc h p) h h1" "loc h1 p = loc h p" by (simp_all add: others_kept_def loc_def)
  have up: "give_up p er h1 = (r, h') \<Longrightarrow> r \<noteq> None \<and> others_kept (loc h p) h h'" for er
    using give_up_D[of p er h1 r h'] o1 others_kept_trans by auto
  show "others_kept (loc h p) h h'"
    using assms(2) e up o1 by (auto simp: check_version_def Let_def others_kept_def split: if_splits sum.splits)
  show "file_at h' = file_at h \<and> (normalize_reported_version expected = [] \<or> fst (binary_version sys p h) = Inr (normalize_reported_version expected))"
    if "r = None"
    using assms(2) e up k that by (auto simp: check_version_def Let_def split: if_splits sum.splits)
qed

lemma rename_failed: "rename a b h = (Some e, h1) \<Longrightarrow> file_at h1 = file_at h \<and> cwd h1 = cwd h"
  by (auto simp: rename_def Let_def split: option.splits node.splits if_splits)

lemma install_next_D:
  assumes "files_kept sys" and "install_next sys nxt cur expected h = (r, h')" and "loc h nxt \<noteq> loc h cur"
    and "file_at h (loc h nxt) = Some body"
  shows "r \<noteq> None \<Longrightarrow> others_kept (loc h nxt) h h'"
    and "r = None \<Longrightarrow> file_at h' (loc h cur) = Some body \<and> p_err (fst (exec sys [nxt, ''--test-mode''] h)) = None \<and>
      (normalize_reported_version expected = [] \<or>
       (\<exists>hv. file_at hv = file_at h \<and> fst (binary_version sys nxt hv) = Inr (normalize_reported_version expected)))"
proof -
  obtain t h1 where t: "test_next sys nxt h = (t, h1)" by fastforce
  note T = test_next_D[OF assms(1) t]
  have l1: "loc h1 p = loc h p" for p using others_kept_loc[OF T(1)] .
  obtain v h2 where v: "check_version sys nxt expected h1 = (v, h2)" by fastforce
  note C = check_version_D[OF assms(1) v]
  have o2: "others_kept (loc h nxt) h h2" using others_kept_trans[OF T(1)] C(1) l1 by simp
  have l2: "loc h2 p = loc h p" for p using others_kept_loc[OF o2] .
  obtain m h3 where m: "rename nxt cur h2 = (m, h3)" by fastforce
  have o3: "m \<noteq> None \<Longrightarrow> others_kept (loc h nxt) h h3"
    using rename_failed[of nxt cur h2 _ h3] m o2 by (auto simp: others_kept_def)
  show "others_kept (loc h nxt) h h'" if "r \<noteq> None"
    using assms(2) t T(1) v o2 m o3 that by (auto simp: install_next_def split: option.splits)
  show "file_at h' (loc h cur) = Some body \<and> p_err (fst (exec sys [nxt, ''--test-mode''] h)) = None \<and>
      (normalize_reported_version expected = [] \<or>
       (\<exists>hv. file_at hv = file_at h \<and> fst (binary_version sys nxt hv) = Inr (normalize_reported_version expected)))"
    if "r = None"
  proof -
    have n: "t = None" "v = None" "m = None" "h' = h3"
      using assms(2) t v m that by (auto simp: install_next_def split: option.splits)
    have "file_at h3 (loc h cur) = file_at h (loc h nxt)"
      using rename_NoneD[OF m[unfolded n(3)]] assms(3) l2 C(2)[OF n(2)] T(2)[OF n(1)] by simp
    then show ?thesis using n T(2) C(2) assms(4) by auto
  qed
qed

lemma created_and_saved:
  assumes "write_file p [] h = (None, h1)" and "save_next p d h1 = (r, h2)"
  shows "others_kept (loc h p) h h2 \<and>
    (r = None \<longrightarrow> dn_err d = None \<and> 1000 \<le> length (dn_body d) \<and> file_at h2 (loc h p) = Some (dn_body d))"
proof -
  have o1: "others_kept (loc h p) h h1" using write_with_others assms(1) by (simp add: write_file_def)
  have l1: "loc h1 p = loc h p" using others_kept_loc[OF o1] .
  have "file_at h1 (loc h1 p) = Some []"
    using write_with_NoneD[OF assms(1)[unfolded write_file_def]] l1 by (auto split: option.splits)
  note D = save_next_D[OF assms(2) this]
  then show ?thesis using others_kept_trans[OF o1] l1 by simp
qed

text \<open>An update gives up before it comes to install anything, or installs a download that was saved whole.\<close>

lemma update_reaches_install:
  assumes run: "safe_update_with_progress ue sys url expected watched h = ((r, rep), h')"
  obtains (gave_up) "r \<noteq> None" "others_kept (loc h (current_binary ue @ ''.next'')) h h'"
    | (installs) d h2 where "ue_fetch ue url = Inr d" "dn_status d = 200" "dn_err d = None" "1000 \<le> length (dn_body d)"
        "others_kept (loc h (current_binary ue @ ''.next'')) h h2"
        "file_at h2 (loc h (current_binary ue @ ''.next'')) = Some (dn_body d)"
        "install_next sys (current_binary ue @ ''.next'') (current_binary ue) expected h2 = (r, h')"
proof -
  let ?nxt = "current_binary ue @ ''.next''"
  have same: "others_kept k h h" for k by (simp add: others_kept_def)
  show thesis
  proof (cases "ue_build ue url = None \<and> (\<exists>d. ue_fetch ue url = Inr d \<and> dn_status d = 200)")
    case False
    then have "r \<noteq> None \<and> h' = h"
      using run by (auto simp: safe_update_with_progress_def split: option.splits sum.splits if_splits)
    then show thesis using gave_up same by blast
  next
    case True
    then obtain d where d: "ue_build ue url = None" "ue_fetch ue url = Inr d" "dn_status d = 200" by blast
    obtain c h1 where c: "write_file ?nxt [] h = (c, h1)" by fastforce
    obtain s h2 where s: "save_next ?nxt d h1 = (s, h2)" by fastforce
    obtain m h3 where m: "install_next sys ?nxt (current_binary ue) expected h2 = (m, h3)" by fastforce
    note run' = run[unfolded safe_update_with_progress_def d option.case sum.case Let_def c]
    show thesis
    proof (cases c)
      case Some
      moreover have "others_kept (loc h ?nxt) h h1" using write_with_others c by (simp add: write_file_def)
      ultimately show thesis using run' d(3) by (intro gave_up) auto
    next
      case None
      note saved = created_and_saved[OF c[unfolded None] s]
      show thesis
      proof (cases s)
        case Some
        then show thesis using run' None d(3) s saved by (intro gave_up) auto
      next
        case whole: None
        then show thesis using run' None d s m saved by (intro installs[of d h2]) auto
      qed
    qed
  qed
qed

text \<open>
  C7: An update replaces the running binary only by a download that is whole, at least 1000 bytes, was
  started once and passed its own health test, and, where a version was asked for, reports exactly
  that version; in every other case, whatever step failed, all files but the temporary one beside
  the binary are as they were. The processes it starts are assumed not to write files themselves.
\<close>

theorem update_installs_only_tested:
  assumes kept: "files_kept sys"
    and apart: "loc h (current_binary ue @ ''.next'') \<noteq> loc h (current_binary ue)"
    and run: "safe_update_with_progress ue sys url expected watched h = ((r, rep), h')"
  shows "(r \<noteq> None \<longrightarrow> others_kept (loc h (current_binary ue @ ''.next'')) h h') \<and>
    (r = None \<longrightarrow> (\<exists>d ht. ue_fetch ue url = Inr d \<and> dn_status d = 200 \<and> dn_err d = None \<and> 1000 \<le> length (dn_body d) \<and>
       file_at h' (loc h (current_binary ue)) = Some (dn_body d) \<and>
       file_at ht (loc h (current_binary ue @ ''.next'')) = Some (dn_body d) \<and>
       p_err (fst (exec sys [current_binary ue @ ''.next'', ''--test-mode''] ht)) = None \<and>
       (normalize_reported_version expected = [] \<or>
        (\<exists>hv. file_at hv = file_at ht \<and>
           fst (binary_version sys (current_binary ue @ ''.next'') hv) = Inr (normalize_reported_version expected)))))"
  using run
proof (cases rule: update_reaches_install)
  case gave_up
  then show ?thesis by auto
next
  case (installs d h2)
  have l2: "loc h2 p = loc h p" for p using others_kept_loc[OF installs(5)] .
  note I = install_next_D[OF kept installs(7) apart[folded l2], unfolded l2, OF installs(6)]
  show ?thesis
  proof (cases r)
    case None
    from I(2)[OF None] installs None show ?thesis by fast
  next
    case (Some e)
    from I(1) Some others_kept_trans[OF installs(5)] show ?thesis by simp
  qed
qed

definition demo_body :: string where "demo_body = replicate 1000 CHR ''x''"

definition demo_update :: update_env where
  "demo_update = \<lparr>ue_build = (\<lambda>_. None),
     ue_fetch = (\<lambda>_. Inr \<lparr>dn_status = 200, dn_length = 1000, dn_body = demo_body, dn_err = None, dn_reads = [(1000, 0)]\<rparr>),
     ue_self = Some ''/tug''\<rparr>"

definition demo_sys :: sys where
  "demo_sys c h = (\<lparr>p_out = ''tug-agent v2.0'', p_all = [], p_err = None\<rparr>, h)"

theorem update_installs_only_tested_witness:
  "file_at (snd (safe_update_with_progress demo_update demo_sys ''u'' ''v2.0'' False bare_host)) (loc bare_host ''/tug'') = Some demo_body"
proof -
  have cur: "current_binary demo_update = ''/tug''" by (simp add: current_binary_def demo_update_def model_defs)
  have kept: "files_kept demo_sys" by (simp add: files_kept_def demo_sys_def)
  have apart: "loc bare_host (current_binary demo_update @ ''.next'') \<noteq> loc bare_host (current_binary demo_update)"
    by (simp add: cur model_defs)
  have len: "length demo_body = 1000" by (simp add: demo_body_def)
  have "fst (fst (safe_update_with_progress demo_update demo_sys ''u'' ''v2.0'' False bare_host)) = None"
    unfolding safe_update_with_progress_def cur Let_def
    by (simp add: demo_update_def save_next_def install_next_def test_next_def check_version_def binary_version_def reports_of_def
        normalize_reported_version_def demo_sys_def model_defs len)
  then obtain rep h' where run: "safe_update_with_progress demo_update demo_sys ''u'' ''v2.0'' False bare_host = ((None, rep), h')"
    by (metis prod.collapse)
  from update_installs_only_tested[OF kept apart run] show ?thesis
    by (auto simp: run cur) (simp_all add: demo_update_def, auto)
qed

text \<open>The reports of a download count what was read, and their order is that of the reads.\<close>

lemma progress_read_monotone:
  "\<exists>more. pg_reports (progress_read p r) = pg_reports p @ more \<and> pg_total (progress_read p r) = pg_total p \<and>
     pg_downloaded (progress_read p r) = pg_downloaded p + word_of_nat (fst r)"
  by (auto simp: progress_read_def Let_def split: prod.splits)

lemma progress_counts: "pg_downloaded (foldl progress_read p rs) = pg_downloaded p + word_of_nat (sum_list (map fst rs))"
proof (induction rs arbitrary: p)
  case (Cons r rs)
  then show ?case using progress_read_monotone[of p r] by (auto simp: add.assoc)
qed simp

end
