(* ===== verification/Security.thy ===== *)
theory Security
  imports Lifecycle
begin

text \<open>
  \<open>internal/security\<close>: the hardening of the ssh daemon, fail2ban, the firewall, and what the heartbeat
  reports of them. The programs of the machine (sshd, systemctl, ufw, the package managers) are the
  parameter \<open>sys\<close>; the environment variable given to \<open>apt-get\<close> is not part of a command line here.
\<close>

section \<open>Hardening ssh (ssh.go)\<close>

record ssh_options =
  so_disable_root :: bool
  so_disable_password :: bool
  so_port :: int

definition hardening_lines :: "ssh_options \<Rightarrow> string list" where
  "hardening_lines o' =
     [''# Managed by tug.sh TugShield''] @
     (if so_disable_root o' then [''PermitRootLogin no''] else [''PermitRootLogin prohibit-password'']) @
     (if so_disable_password o' then [''PasswordAuthentication no'', ''KbdInteractiveAuthentication no'']
      else [''PasswordAuthentication yes'']) @
     (if so_port o' > 0 \<and> so_port o' \<le> 65535 \<and> so_port o' \<noteq> 22 then [''Port '' @ itoa (so_port o')] else [])"

definition hardening_text :: "ssh_options \<Rightarrow> string" where
  "hardening_text o' = join [newline] (hardening_lines o') @ [newline]"

definition hardening_file :: path where "hardening_file = ''/etc/ssh/sshd_config.d/99-tug.conf''"
definition main_ssh_config :: path where "main_ssh_config = ''/etc/ssh/sshd_config''"
definition ssh_config_dir :: path where "ssh_config_dir = ''/etc/ssh/sshd_config.d''"

text \<open>The main file is made to include the directory.\<close>

definition include_directory :: "host \<Rightarrow> host" where
  "include_directory h =
     (case read_file main_ssh_config h of
        (Inl _, h1) \<Rightarrow> h1
      | (Inr content, h1) \<Rightarrow>
          (if contains content ''sshd_config.d'' then h1
           else snd (write_file main_ssh_config (''Include /etc/ssh/sshd_config.d/*.conf'' @ [newline] @ content) h1)))"

definition apply_ssh_hardening :: "sys \<Rightarrow> ssh_options \<Rightarrow> host \<Rightarrow> go_error option \<times> host" where
  "apply_ssh_hardening sys o' h =
     (let h1 = include_directory (snd (mkdir_all ssh_config_dir h)) in
      case write_file hardening_file (hardening_text o') h1 of
        (Some e, h2) \<Rightarrow> (Some (Wrapf (''failed to write '' @ hardening_file @ '': '') e []), h2)
      | (None, h2) \<Rightarrow>
          (let (t, h3) = exec sys [''sshd'', ''-t''] h2 in
           case p_err t of
             Some e \<Rightarrow> (Some (Wrapf (''sshd syntax test failed: '' @ p_all t @ '': '') e []), snd (remove_file hardening_file h3))
           | None \<Rightarrow>
               (let (r, h4) = exec sys [''systemctl'', ''reload'', ''ssh''] h3 in
                (None, if p_err r = None then h4 else snd (exec sys [''systemctl'', ''reload'', ''sshd''] h4)))))"

section \<open>Packages and fail2ban (ssh.go)\<close>

text \<open>The package managers in their order: the program, what runs before, the installation and the name of its failure.\<close>

definition install_plans :: "string \<Rightarrow> (string \<times> string list option \<times> string list \<times> string) list" where
  "install_plans pkg =
     [(''apt-get'', Some [''apt-get'', ''update'', ''-qq''], [''apt-get'', ''install'', ''-y'', ''-qq'', pkg], ''apt-get install ''),
      (''dnf'', Some [''dnf'', ''install'', ''-y'', ''epel-release''], [''dnf'', ''install'', ''-y'', pkg], ''dnf install ''),
      (''yum'', Some [''yum'', ''install'', ''-y'', ''epel-release''], [''yum'', ''install'', ''-y'', pkg], ''yum install ''),
      (''apk'', None, [''apk'', ''add'', pkg], ''apk add ''),
      (''pacman'', None, [''pacman'', ''-Sy'', ''--noconfirm'', pkg], ''pacman install '')]"

definition install_package :: "sys \<Rightarrow> string \<Rightarrow> host \<Rightarrow> go_error option \<times> host" where
  "install_package sys pkg h =
     (case find (\<lambda>(name, _). look_path h name \<noteq> None) (install_plans pkg) of
        None \<Rightarrow> (Some (Msg (''no supported package manager found to install '' @ pkg)), h)
      | Some (_, before, argv, failure) \<Rightarrow>
          (let h1 = (case before of None \<Rightarrow> h | Some b \<Rightarrow> snd (exec sys b h));
               (r, h2) = exec sys argv h1
           in (map_option (\<lambda>e. Wrapf (failure @ pkg @ '': '' @ trim_space (p_all r) @ '': '') e []) (p_err r), h2)))"

fun any_present :: "path list \<Rightarrow> host \<Rightarrow> bool \<times> host" where
  "any_present [] h = (False, h)"
| "any_present (p # ps) h =
     (case Host.stat p h of (Inr _, h1) \<Rightarrow> (True, h1) | (Inl _, h1) \<Rightarrow> any_present ps h1)"

definition is_fail2ban_installed :: "sys \<Rightarrow> host \<Rightarrow> bool \<times> host" where
  "is_fail2ban_installed sys h =
     (if look_path h ''fail2ban-client'' \<noteq> None \<or> look_path h ''fail2ban-server'' \<noteq> None then (True, h)
      else (case any_present [''/usr/bin/fail2ban-client'', ''/usr/sbin/fail2ban-client'', ''/usr/local/bin/fail2ban-client''] h of
              (True, h1) \<Rightarrow> (True, h1)
            | (False, h1) \<Rightarrow>
                (let (r, h2) = exec sys [''systemctl'', ''cat'', ''fail2ban.service''] h1 in (p_err r = None, h2))))"

definition is_fail2ban_running :: "sys \<Rightarrow> host \<Rightarrow> bool \<times> host" where
  "is_fail2ban_running sys h =
     (let (r, h1) = exec sys [''systemctl'', ''is-active'', ''--quiet'', ''fail2ban''] h in (p_err r = None, h1))"

definition jail_file :: path where "jail_file = ''/etc/fail2ban/jail.d/tug-sshd.local''"

definition jail_text :: string where
  "jail_text = join [newline] [''[sshd]'', ''enabled = true'', ''maxretry = 5'', ''findtime = 600'', ''bantime = 3600'', []]"

definition ensure_jail :: "host \<Rightarrow> host" where
  "ensure_jail h =
     (case mkdir_all ''/etc/fail2ban/jail.d'' h of
        (Some _, h1) \<Rightarrow> h1
      | (None, h1) \<Rightarrow>
          (case Host.stat jail_file h1 of
             (Inl e, h2) \<Rightarrow> (if is_not_exist e then snd (write_file jail_file jail_text h2) else h2)
           | (Inr _, h2) \<Rightarrow> h2))"

definition start_fail2ban :: "sys \<Rightarrow> host \<Rightarrow> go_error option \<times> host" where
  "start_fail2ban sys h =
     (let (_, h1) = exec sys [''systemctl'', ''enable'', ''fail2ban''] h;
          (r, h2) = exec sys [''systemctl'', ''restart'', ''fail2ban''] h1;
          (failed, h3) = (if p_err r = None then (None, h2)
                          else (let (s, h3) = exec sys [''systemctl'', ''start'', ''fail2ban''] h2
                                in (map_option (\<lambda>e. Wrapf (''failed to start fail2ban service: '' @ trim_space (p_all s) @ '': '') e []) (p_err s), h3)))
      in case failed of
           Some e \<Rightarrow> (Some e, h3)
         | None \<Rightarrow>
             (case is_fail2ban_running sys h3 of
                (True, h4) \<Rightarrow> (None, h4)
              | (False, h4) \<Rightarrow> (Some (Msg ''fail2ban service was started but is not active (check journalctl -u fail2ban)''), h4)))"

definition apply_fail2ban :: "sys \<Rightarrow> bool \<Rightarrow> host \<Rightarrow> go_error option \<times> host" where
  "apply_fail2ban sys enable h =
     (if enable
      then (let (installed, h1) = is_fail2ban_installed sys h;
                (failed, h2) = (if installed then (None, h1) else install_package sys ''fail2ban'' h1)
            in case failed of
                 Some e \<Rightarrow> (Some (Wrapf ''fail2ban is not installed and auto-installation failed: '' e []), h2)
               | None \<Rightarrow> start_fail2ban sys (ensure_jail h2))
      else (let (_, h1) = exec sys [''systemctl'', ''stop'', ''fail2ban''] h;
                (r, h2) = exec sys [''systemctl'', ''disable'', ''fail2ban''] h1
            in (p_err r, h2)))"

section \<open>The status (ssh.go)\<close>

record security_status =
  ss_disable_root :: bool
  ss_disable_password :: bool
  ss_port :: int
  ss_fail2ban_installed :: bool
  ss_fail2ban_running :: bool
  ss_ufw :: bool

definition new_status :: security_status where
  "new_status = \<lparr>ss_disable_root = False, ss_disable_password = False, ss_port = 22, ss_fail2ban_installed = False,
     ss_fail2ban_running = False, ss_ufw = False\<rparr>"

definition note_setting :: "string \<Rightarrow> string \<Rightarrow> security_status \<Rightarrow> security_status" where
  "note_setting key val st =
     (if key = ''permitrootlogin'' then st\<lparr>ss_disable_root := (val \<noteq> ''yes'')\<rparr>
      else if key = ''passwordauthentication'' then st\<lparr>ss_disable_password := (val = ''no'')\<rparr>
      else if key = ''port'' then (case scan_int val of Some p \<Rightarrow> if p > 0 then st\<lparr>ss_port := p\<rparr> else st | None \<Rightarrow> st)
      else st)"

text \<open>A line of \<open>sshd -T\<close>, and a line of a configuration file.\<close>

definition runtime_line :: "security_status \<Rightarrow> string \<Rightarrow> security_status" where
  "runtime_line st raw =
     (case cut (trim_space raw) '' '' of
        None \<Rightarrow> st
      | Some (k, v) \<Rightarrow> note_setting (to_lower (trim_space k)) (to_lower (trim_space v)) st)"

definition config_line :: "security_status \<Rightarrow> string \<Rightarrow> security_status" where
  "config_line st raw =
     (let line = trim_space raw in
      if has_prefix line ''#'' \<or> line = [] then st
      else (let fs = Go_Strings.fields line in
            if length fs < 2 then st else note_setting (to_lower (fs ! 0)) (to_lower (fs ! 1)) st))"

definition parse_ssh_config_file :: "path \<Rightarrow> security_status \<Rightarrow> host \<Rightarrow> security_status \<times> host" where
  "parse_ssh_config_file p st h =
     (case read_file p h of
        (Inl _, h1) \<Rightarrow> (st, h1)
      | (Inr content, h1) \<Rightarrow> (foldl config_line st (split_on newline content), h1))"

fun parse_config_files :: "path list \<Rightarrow> security_status \<Rightarrow> host \<Rightarrow> security_status \<times> host" where
  "parse_config_files [] st h = (st, h)"
| "parse_config_files (p # ps) st h = (let (st1, h1) = parse_ssh_config_file p st h in parse_config_files ps st1 h1)"

definition inspect_ssh :: "sys \<Rightarrow> host \<Rightarrow> security_status \<times> host" where
  "inspect_ssh sys h =
     (let (r, h1) = exec sys [''sshd'', ''-T''] h in
      if p_err r = None then (foldl runtime_line new_status (split_on newline (p_out r)), h1)
      else (let (st, h2) = parse_ssh_config_file main_ssh_config new_status h1 in
            case read_dir ssh_config_dir h2 of
              (Inl _, h3) \<Rightarrow> (st, h3)
            | (Inr files, h3) \<Rightarrow>
                parse_config_files
                  (map (\<lambda>(n, _). ''/etc/ssh/sshd_config.d/'' @ n) (filter (\<lambda>(n, k). k \<noteq> Dir \<and> has_suffix n ''.conf'') files)) st h3))"

definition inspect_security_status :: "sys \<Rightarrow> host \<Rightarrow> security_status \<times> host" where
  "inspect_security_status sys h =
     (let (st, h1) = inspect_ssh sys h;
          (installed, h2) = is_fail2ban_installed sys h1;
          (running, h3) = is_fail2ban_running sys h2;
          (u, h4) = exec sys [''ufw'', ''status''] h3
      in (st\<lparr>ss_fail2ban_installed := installed \<or> running, ss_fail2ban_running := running,
            ss_ufw := (p_err u = None \<and> contains (to_lower (p_all u)) ''status: active'')\<rparr>, h4))"

section \<open>The firewall (firewall.go)\<close>

record firewall_rule =
  fw_port :: string
  fw_protocol :: string
  fw_action :: string
  fw_source :: string

definition firewall_args :: "firewall_rule \<Rightarrow> string list" where
  "firewall_args rule =
     (let action = to_lower (trim_space (fw_action rule));
          protocol = to_lower (trim_space (fw_protocol rule))
      in [if action \<in> {''allow'', ''deny'', ''limit''} then action else ''allow''] @
         (if fw_source rule \<noteq> [] \<and> fw_source rule \<noteq> ''0.0.0.0/0'' then [''from'', trim_space (fw_source rule), ''to'', ''any''] else []) @
         [''port'', trim_space (fw_port rule), ''proto'', if protocol = [] \<or> protocol = ''both'' then ''tcp'' else protocol])"

definition apply_firewall_rule :: "sys \<Rightarrow> firewall_rule \<Rightarrow> host \<Rightarrow> go_error option \<times> host" where
  "apply_firewall_rule sys rule h =
     (if trim_space (fw_port rule) = [] then (Some (Msg ''port is required''), h)
      else (let (r, h1) = exec sys (''ufw'' # firewall_args rule) h in
            (map_option (\<lambda>e. Wrapf (''ufw error: '' @ p_all r @ '': '') e []) (p_err r), h1)))"

definition delete_firewall_rule :: "sys \<Rightarrow> firewall_rule \<Rightarrow> host \<Rightarrow> go_error option \<times> host" where
  "delete_firewall_rule sys rule h =
     (if trim_space (fw_port rule) = [] then (Some (Msg ''port is required''), h)
      else (None, snd (exec sys ([''ufw'', ''delete''] @ firewall_args rule) h)))"

section \<open>What the hardening leaves behind\<close>

definition valid_port :: "int \<Rightarrow> bool" where
  "valid_port p \<longleftrightarrow> 0 < p \<and> p \<le> 65535 \<and> p \<noteq> 22"

lemma itoa_port: "valid_port p \<Longrightarrow> itoa p = nat_dec (nat p)"
  by (simp add: itoa_def valid_port_def)

lemma hardening_lines_no_newline:
  assumes "l \<in> set (hardening_lines o')"
  shows "newline \<notin> set l"
proof -
  have "newline \<notin> set (nat_dec n)" for n
    using nat_dec_digits[of n] by (auto simp: list_all_iff is_digit_def code_def)
  then show ?thesis
    using assms itoa_port[of "so_port o'"] by (auto simp: hardening_lines_def valid_port_def split: if_splits)
qed

lemma split_hardening_text: "split_on newline (hardening_text o') = hardening_lines o' @ [[]]"
proof -
  have "hardening_text o' = join [newline] (hardening_lines o' @ [[]])"
    by (subst join_append) (simp_all add: hardening_text_def hardening_lines_def)
  then show ?thesis
    using hardening_lines_no_newline by (metis Un_iff empty_iff empty_set set_ConsD set_append snoc_eq_iff_butlast split_on_join)
qed

lemma config_line_constants:
  "config_line st [] = st"
  "config_line st ''# Managed by tug.sh TugShield'' = st"
  "config_line st ''PermitRootLogin no'' = st\<lparr>ss_disable_root := True\<rparr>"
  "config_line st ''PermitRootLogin prohibit-password'' = st\<lparr>ss_disable_root := True\<rparr>"
  "config_line st ''PasswordAuthentication no'' = st\<lparr>ss_disable_password := True\<rparr>"
  "config_line st ''KbdInteractiveAuthentication no'' = st"
  "config_line st ''PasswordAuthentication yes'' = st\<lparr>ss_disable_password := False\<rparr>"
  by (simp_all add: config_line_def note_setting_def Let_def model_defs char_of_def bit_0)

lemma trim_space_keep: "s = c # r @ [d] \<Longrightarrow> \<not> is_space c \<Longrightarrow> \<not> is_space d \<Longrightarrow> trim_space s = s"
  by (simp add: trim_space_def trim_by_def trim_right_by_def)

lemma config_line_port:
  assumes "valid_port p"
  shows "config_line st (''Port '' @ itoa p) = st\<lparr>ss_port := p\<rparr>"
proof -
  let ?n = "nat_dec (nat p)"
  have i: "itoa p = ?n" using itoa_port[OF assms] .
  have digits: "list_all is_digit ?n" "?n \<noteq> []" using nat_dec_digits[of "nat p"] by auto
  then have plainness: "list_all (\<lambda>c. \<not> is_space c) ?n" by (intro digits_no_space)
  have "\<not> is_space (last ?n)" using plainness digits(2) by (simp add: list_all_iff)
  then have t: "trim_space (''Port '' @ ?n) = ''Port '' @ ?n"
    using trim_space_keep[of "''Port '' @ ?n" "CHR ''P''" "''ort '' @ butlast ?n" "last ?n"] digits(2)
    by (simp add: is_space_def)
  have f: "Go_Strings.fields (''Port '' @ ?n) = [''Port'', ?n]"
    using fields_acc_word[OF plainness, of "[]" "[]"] digits(2) by (simp add: Go_Strings.fields_def is_space_def)
  have low: "to_lower ?n = ?n"
    unfolding to_lower_def
    by (rule map_idI) (use digits(1) in \<open>auto simp: list_all_iff lower_char_def is_digit_def is_upper_letter_def\<close>)
  have port: "to_lower ''Port'' = ''port''" by (simp add: model_defs char_of_def bit_0)
  have "scan_int ?n = Some p" using scan_nat_dec[of "nat p"] assms by (simp add: valid_port_def max_int_def)
  then show ?thesis
    using assms by (simp only: i) (simp add: config_line_def t[simplified] f[simplified] low port[simplified] note_setting_def Let_def has_prefix_def valid_port_def)
qed

lemma read_back_lines:
  "foldl config_line st (split_on newline (hardening_text o')) =
     st\<lparr>ss_disable_root := True, ss_disable_password := so_disable_password o',
        ss_port := (if valid_port (so_port o') then so_port o' else ss_port st)\<rparr>"
  unfolding split_hardening_text hardening_lines_def
  using config_line_port[of "so_port o'"] by (simp add: config_line_constants valid_port_def)

lemma include_directory_others:
  "file_at (include_directory h) q = file_at h q \<or> q = loc h main_ssh_config" "cwd (include_directory h) = cwd h"
proof -
  have r: "read_file p h = (x, h1) \<Longrightarrow> file_at h1 = file_at h \<and> cwd h1 = cwd h" for p x h1
    by (auto simp: read_file_def Let_def split: if_splits option.splits node.splits)
  obtain x h1 where x: "read_file main_ssh_config h = (x, h1)" by fastforce
  have w: "q \<noteq> loc h1 p \<Longrightarrow> file_at (snd (write_file p s h1)) q = file_at h1 q" "cwd (snd (write_file p s h1)) = cwd h1" for p s
    using write_with_frame[of "\<lambda>_. []" p s h1] by (simp_all add: write_file_def prod_eq_iff)
  show "file_at (include_directory h) q = file_at h q \<or> q = loc h main_ssh_config"
    using x r[OF x] w by (auto simp: include_directory_def loc_def split: sum.splits)
  show "cwd (include_directory h) = cwd h"
    using x r[OF x] w by (auto simp: include_directory_def split: sum.splits)
qed

text \<open>
  C20: Hardening the ssh daemon reports success only when its directives are on disk word for word and the
  daemon's own syntax test passed on a machine that had them. What reading that file back gives, as the heartbeat does
  when the daemon cannot be asked, is exactly this: root login disabled, whether the request disabled it or not (a
  root login that is left enabled is written as \<open>prohibit-password\<close>, which counts as disabled); the password setting
  as requested; and the requested port when it is valid and not 22, for any other port no directive is written and
  the port known before stays. The processes that are run leave the files alone.
\<close>

theorem hardening_reads_back:
  assumes kept: "files_kept sys" and run: "apply_ssh_hardening sys o' h = (None, h')"
  shows "file_at h' (loc h hardening_file) = Some (hardening_text o') \<and>
    (\<exists>ht. file_at ht (loc h hardening_file) = Some (hardening_text o') \<and> p_err (fst (exec sys [''sshd'', ''-t''] ht)) = None) \<and>
    (faults h' = [] \<longrightarrow> fst (parse_ssh_config_file hardening_file st h') =
       st\<lparr>ss_disable_root := True, ss_disable_password := so_disable_password o',
          ss_port := (if 0 < so_port o' \<and> so_port o' \<le> 65535 \<and> so_port o' \<noteq> 22 then so_port o' else ss_port st)\<rparr>)"
proof -
  let ?h1 = "include_directory (snd (mkdir_all ssh_config_dir h))"
  obtain w h2 where w: "write_file hardening_file (hardening_text o') ?h1 = (w, h2)" by fastforce
  have wn: "w = None" using run w by (cases w) (auto simp: apply_ssh_hardening_def)
  obtain t h3 where t: "exec sys [''sshd'', ''-t''] h2 = (t, h3)" by fastforce
  have tn: "p_err t = None" using run w wn t by (cases "p_err t") (auto simp: apply_ssh_hardening_def Let_def)
  obtain r h4 where r: "exec sys [''systemctl'', ''reload'', ''ssh''] h3 = (r, h4)" by fastforce
  obtain r' h5 where r': "exec sys [''systemctl'', ''reload'', ''sshd''] h4 = (r', h5)" by fastforce
  have h': "h' = (if p_err r = None then h4 else h5)" using run w wn t tn r r' by (auto simp: apply_ssh_hardening_def Let_def)
  note wd = write_with_NoneD[OF w[unfolded wn write_file_def]]
  have c: "cwd ?h1 = cwd h" using include_directory_others(2)[of "snd (mkdir_all ssh_config_dir h)"] by simp
  then have l: "loc ?h1 p = loc h p" for p by (simp add: loc_def)
  have f2: "file_at h2 (loc h hardening_file) = Some (hardening_text o')" using wd l by (auto split: option.splits)
  note k = exec_files_kept[OF kept t] exec_files_kept[OF kept r] exec_files_kept[OF kept r']
  have fin: "file_at h' = file_at h2" "cwd h' = cwd h" using h' k wd c by auto
  have "fst (parse_ssh_config_file hardening_file st h') = foldl config_line st (split_on newline (hardening_text o'))" if "faults h' = []"
  proof -
    have "loc h' hardening_file = loc h hardening_file" using fin by (simp add: loc_def)
    then have "read_file hardening_file h' = (Inr (hardening_text o'), pop_fault h')" using that fin f2 by (intro read_file_found) simp_all
    then show ?thesis by (simp add: parse_ssh_config_file_def)
  qed
  then show ?thesis
    using fin f2 t tn read_back_lines[of st o'] by (auto simp: valid_port_def intro!: exI[of _ h2])
qed

lemma hardening_key: "loc h hardening_file = [''etc'', ''ssh'', ''sshd_config.d'', ''99-tug.conf'']"
  "loc h ssh_config_dir = [''etc'', ''ssh'', ''sshd_config.d'']" "loc h main_ssh_config = [''etc'', ''ssh'', ''sshd_config'']"
  by (simp_all add: loc_def rooted_def has_prefix_def hardening_file_def ssh_config_dir_def main_ssh_config_def)

lemma include_directory_nodes:
  "k \<noteq> loc h main_ssh_config \<Longrightarrow> node_at (include_directory h) k = node_at h k"
  "ran (include_directory h) = ran h" "faults h = [] \<Longrightarrow> faults (include_directory h) = []"
proof -
  obtain x h1 where x: "read_file main_ssh_config h = (x, h1)" by fastforce
  have h1: "h1 = pop_fault h" using x by (auto simp: read_file_def Let_def split: if_splits option.splits node.splits)
  have w: "k \<noteq> loc h1 main_ssh_config \<Longrightarrow> node_at (snd (write_file main_ssh_config s h1)) k = node_at h1 k"
    "ran (snd (write_file main_ssh_config s h1)) = ran h1" "faults (snd (write_file main_ssh_config s h1)) = tl (faults h1)" for s
    using write_with_outside by (simp_all add: write_file_def)
  show "k \<noteq> loc h main_ssh_config \<Longrightarrow> node_at (include_directory h) k = node_at h k"
    "ran (include_directory h) = ran h" "faults h = [] \<Longrightarrow> faults (include_directory h) = []"
    using x h1 w by (auto simp: include_directory_def hardening_key split: sum.splits)
qed

lemma hardening_written:
  assumes "faults h = []" and "\<not> file_in_way h (loc h ssh_config_dir)" and "\<not> dir_at h (loc h hardening_file)"
  defines "h1 \<equiv> include_directory (snd (mkdir_all ssh_config_dir h))"
  obtains h2 where "write_file hardening_file s h1 = (None, h2)" "faults h2 = []" "ran h2 = ran h"
    "node_at h2 (loc h hardening_file) = Some (File s)"
proof -
  let ?k = "[''etc'', ''ssh'', ''sshd_config.d'']"
  let ?h0 = "make_dirs ?k (pop_fault h)"
  have m: "mkdir_all ssh_config_dir h = (None, ?h0)"
    using assms(1,2) by (simp add: mkdir_all_def Let_def fault_of_def hardening_key)
  have dir: "dir_at h1 ?k"
    using make_dirs_dir[of ?k ?k "pop_fault h"] by (simp add: h1_def m dir_at_def include_directory_nodes hardening_key)
  have n1: "node_at h1 (loc h hardening_file) = node_at h (loc h hardening_file)"
    by (simp add: h1_def m include_directory_nodes hardening_key make_dirs_outside)
  then have not_dir: "\<not> dir_at h1 (loc h1 hardening_file)" using assms(3) by (simp add: dir_at_def hardening_key)
  have f: "faults h1 = []" "ran h1 = ran h" using assms(1) by (simp_all add: h1_def m include_directory_nodes)
  let ?h2 = "put_node (loc h hardening_file) (File s) (pop_fault h1)"
  have "write_file hardening_file s h1 = (None, ?h2)"
    using f not_dir dir by (simp add: write_file_def write_with_def Let_def fault_of_def hardening_key split: option.splits node.splits)
  then show ?thesis by (rule that) (simp_all add: f)
qed

text \<open>
  When the daemon's syntax test rejects the new directives, the hardening that was in force before is
  gone: the request fails, nothing is reloaded, and the file the agent manages does not exist any more, whatever
  it held. The next start of the daemon runs without any of the earlier directives.
\<close>

theorem rejected_hardening_drops_previous:
  assumes kept: "\<And>c h. tree (snd (sys c h)) = tree h \<and> faults (snd (sys c h)) = faults h"
    and rejects: "\<And>h. p_err (fst (exec sys [''sshd'', ''-t''] h)) \<noteq> None"
    and calm: "faults h = []" and room: "\<not> file_in_way h (loc h ssh_config_dir)" "\<not> dir_at h (loc h hardening_file)"
  shows "fst (apply_ssh_hardening sys o' h) \<noteq> None \<and>
    file_at (snd (apply_ssh_hardening sys o' h)) (loc h hardening_file) = None \<and>
    ran (snd (apply_ssh_hardening sys o' h)) = ran h @ [([], [''sshd'', ''-t''])]"
proof -
  obtain h2 where w: "write_file hardening_file (hardening_text o') (include_directory (snd (mkdir_all ssh_config_dir h))) = (None, h2)"
    "faults h2 = []" "ran h2 = ran h" "node_at h2 (loc h hardening_file) = Some (File (hardening_text o'))"
    using hardening_written[OF calm room] by metis
  obtain t h3 where t: "exec sys [''sshd'', ''-t''] h2 = (t, h3)" by fastforce
  obtain e where e: "p_err t = Some e" using rejects[of h2] t by auto
  have h3: "tree h3 = tree h2" "faults h3 = []" "ran h3 = ran h @ [([], [''sshd'', ''-t''])]"
    using t kept[of "([], [''sshd'', ''-t''])" h2] w by (auto simp: exec_def exec_in_def split: prod.splits)
  have n3: "node_at h3 (loc h hardening_file) = Some (File (hardening_text o'))" using h3(1) w(4) by (simp add: node_at_def)
  have "remove_file hardening_file h3 = (None, drop_node (loc h hardening_file) (pop_fault h3))"
    using h3(2) n3 by (simp add: remove_file_def Let_def fault_of_def hardening_key)
  then have "apply_ssh_hardening sys o' h =
      (Some (Wrapf (''sshd syntax test failed: '' @ p_all t @ '': '') e []), drop_node (loc h hardening_file) (pop_fault h3))"
    using w(1) t e by (simp add: apply_ssh_hardening_def Let_def)
  then show ?thesis using h3(3) by (simp add: file_at_def)
qed

definition demo_options :: ssh_options where
  "demo_options = \<lparr>so_disable_root = False, so_disable_password = True, so_port = 2222\<rparr>"

lemma demo_hardening:
  "fst (apply_ssh_hardening demo_sys demo_options bare_host) = None"
  "faults (snd (apply_ssh_hardening demo_sys demo_options bare_host)) = []"
proof -
  have room: "\<not> file_in_way bare_host (loc bare_host ssh_config_dir)" "\<not> dir_at bare_host (loc bare_host hardening_file)"
    by (simp_all add: hardening_key file_in_way_def dir_at_def node_at_def)
  obtain h2 where w: "write_file hardening_file (hardening_text demo_options) (include_directory (snd (mkdir_all ssh_config_dir bare_host))) = (None, h2)"
    "faults h2 = []" using hardening_written[OF bare_host_simps(5) room] by metis
  have e: "exec demo_sys argv h = (\<lparr>p_out = ''tug-agent v2.0'', p_all = [], p_err = None\<rparr>, h\<lparr>ran := ran h @ [([], argv)]\<rparr>)" for argv h
    by (simp add: exec_def exec_in_def demo_sys_def)
  show "fst (apply_ssh_hardening demo_sys demo_options bare_host) = None"
    "faults (snd (apply_ssh_hardening demo_sys demo_options bare_host)) = []"
    using w by (simp_all add: apply_ssh_hardening_def e)
qed

theorem hardening_reads_back_witness:
  "fst (parse_ssh_config_file hardening_file new_status (snd (apply_ssh_hardening demo_sys demo_options bare_host))) =
     new_status\<lparr>ss_disable_root := True, ss_disable_password := True, ss_port := 2222\<rparr>"
proof -
  have kept: "files_kept demo_sys" by (simp add: files_kept_def demo_sys_def)
  have run: "apply_ssh_hardening demo_sys demo_options bare_host = (None, snd (apply_ssh_hardening demo_sys demo_options bare_host))"
    using demo_hardening(1) by (metis prod.collapse)
  show ?thesis using hardening_reads_back[OF kept run, of new_status] demo_hardening(2) by (simp add: demo_options_def)
qed

definition strict_sshd :: sys where
  "strict_sshd c h = (\<lparr>p_out = [], p_all = ''bad'', p_err = Some (ExitError ''exit status 255'')\<rparr>, h)"

definition hardened_host :: host where
  "hardened_host = bare_host\<lparr>tree := [([''etc''], Dir), ([''etc'', ''ssh''], Dir), ([''etc'', ''ssh'', ''sshd_config.d''], Dir),
     ([''etc'', ''ssh'', ''sshd_config.d'', ''99-tug.conf''], File ''PermitRootLogin no'')]\<rparr>"

theorem rejected_hardening_drops_previous_witness:
  "file_at hardened_host (loc hardened_host hardening_file) = Some ''PermitRootLogin no'' \<and>
   file_at (snd (apply_ssh_hardening strict_sshd demo_options hardened_host)) (loc hardened_host hardening_file) = None"
proof -
  have room: "\<not> file_in_way hardened_host (loc hardened_host ssh_config_dir)" "\<not> dir_at hardened_host (loc hardened_host hardening_file)"
    "faults hardened_host = []"
    by (simp_all add: hardening_key file_in_way_def dir_at_def node_at_def hardened_host_def)
  have rejects: "p_err (fst (exec strict_sshd [''sshd'', ''-t''] h)) \<noteq> None" for h
    by (simp add: exec_def exec_in_def strict_sshd_def)
  have kept: "tree (snd (strict_sshd c h)) = tree h \<and> faults (snd (strict_sshd c h)) = faults h" for c h
    by (simp add: strict_sshd_def)
  show ?thesis
    using rejected_hardening_drops_previous[OF kept rejects room(3,1,2), of demo_options]
    by (simp add: hardening_key file_at_def node_at_def hardened_host_def)
qed

text \<open>
  A firewall rule for both protocols is applied, and deleted, for tcp alone, and a deletion never reports
  that it failed.
\<close>

lemma firewall_commands:
  assumes "trim_space (fw_port rule) \<noteq> []"
  shows "ran (snd (apply_firewall_rule sys rule h)) = ran h @ [([], ''ufw'' # firewall_args rule)]"
    and "ran (snd (delete_firewall_rule sys rule h)) = ran h @ [([], [''ufw'', ''delete''] @ firewall_args rule)]"
    and "fst (delete_firewall_rule sys rule h) = None"
    and "to_lower (trim_space (fw_protocol rule)) = ''both'' \<Longrightarrow> last (firewall_args rule) = ''tcp''"
  using assms
  by (simp_all add: apply_firewall_rule_def delete_firewall_rule_def firewall_args_def exec_def exec_in_def Let_def split: prod.splits)

end
