(* ===== verification/Compose.thy ===== *)
theory Compose
  imports Docker Sandbox
begin

text \<open>
  \<open>internal/docker/compose.go\<close>: which compose command is run where, the redeploy of the project a
  container belongs to, and the streaming of a process's output in batches.
\<close>

section \<open>Choosing the command\<close>

text \<open>The command line, and the name to show for it.\<close>

definition compose_command :: "sys \<Rightarrow> string list \<Rightarrow> host \<Rightarrow> (string list \<times> string) \<times> host" where
  "compose_command sys args h =
     (let (r, h1) = exec sys [''docker'', ''compose'', ''version''] h in
      if p_err r = None then ((''docker'' # ''compose'' # args, ''docker compose''), h1)
      else (case look_path h1 ''docker-compose'' of
              Some p \<Rightarrow> ((p # args, ''docker-compose''), h1)
            | None \<Rightarrow> ((''docker'' # ''compose'' # args, ''docker compose''), h1)))"

definition deploy_command :: "sys \<Rightarrow> string \<Rightarrow> string list \<Rightarrow> host \<Rightarrow> (string list \<times> string) \<times> host" where
  "deploy_command sys custom compose_args h =
     (if trim_space custom \<noteq> [] then ((custom_argv (trim_space custom), trim_space custom), h)
      else (let ((argv, name), h1) = compose_command sys compose_args h
            in ((argv, name @ '' '' @ join '' '' compose_args), h1)))"

definition compose_up :: "sys \<Rightarrow> path \<Rightarrow> string \<Rightarrow> host \<Rightarrow> go_error option \<times> host" where
  "compose_up sys root app h =
     (case resolve_path root app of
        Inl e \<Rightarrow> (Some e, h)
      | Inr target \<Rightarrow>
          (let ((argv, name), h1) = compose_command sys [''-f'', path_join [target, ''docker-compose.yml''], ''up'', ''-d''] h;
               (r, h2) = exec sys argv h1
           in (map_option (\<lambda>e. Wrapf (name @ '' up failed: '' @ p_all r @ '': '') e []) (p_err r), h2)))"

section \<open>Labels\<close>

definition compose_label :: "sys \<Rightarrow> string \<Rightarrow> string \<Rightarrow> host \<Rightarrow> string \<times> host" where
  "compose_label sys cid label h =
     (case docker_output sys [''inspect'', ''--format'', ''{{ index .Config.Labels '' @ quote @ label @ quote @ '' }}'', cid] h of
        (Inl _, h1) \<Rightarrow> ([], h1)
      | (Inr value, h1) \<Rightarrow> (if trim_space value = ''<no value>'' then [] else trim_space value, h1))"

definition split_compose_config_files :: "string \<Rightarrow> string list" where
  "split_compose_config_files raw = filter (\<lambda>f. f \<noteq> []) (map trim_space (split_on CHR '','' raw))"

section \<open>Streaming\<close>

text \<open>
  \<open>bufio.Scanner\<close> with a buffer of \<open>lim\<close> bytes: the lines before the first that does not fit the buffer
  with its line end, and what is left of the output from that line on. \<open>ScanLines\<close> drops one
  carriage return at the end of a line.
\<close>

definition drop_cr :: "string \<Rightarrow> string" where
  "drop_cr l = (if l \<noteq> [] \<and> last l = CHR 0x0D then butlast l else l)"

function scan_lines :: "nat \<Rightarrow> string \<Rightarrow> string list \<times> string" where
  "scan_lines lim out =
     (if out = [] then ([], [])
      else (let l = takeWhile (\<lambda>c. c \<noteq> newline) out in
            if length l \<ge> lim then ([], out)
            else (case scan_lines lim (drop (Suc (length l)) out) of (ls, left) \<Rightarrow> (drop_cr l # ls, left))))"
  by pat_completeness auto
termination by (relation "measure (\<lambda>(lim, out). length out)") auto

declare scan_lines.simps [simp del]

definition max_line :: nat where "max_line = 1024 * 1024"

text \<open>
  \<open>StreamEvents\<close> of \<open>containers.go\<close>, with the scanner's default limit: each line of the output goes to the
  callback, whose error ends the loop; \<open>started\<close> is the error of starting the process, if any; a line that does not fit ends it with the scanner's error.
\<close>

definition event_line_limit :: nat where "event_line_limit = 64 * 1024"

fun deliver_lines :: "('s \<Rightarrow> string \<Rightarrow> go_error option \<times> 's) \<Rightarrow> string list \<Rightarrow> 's \<Rightarrow> go_error option \<times> 's" where
  "deliver_lines on_event [] s = (None, s)"
| "deliver_lines on_event (l # ls) s =
     (case on_event s l of (Some e, s1) \<Rightarrow> (Some e, s1) | (None, s1) \<Rightarrow> deliver_lines on_event ls s1)"

definition stream_events :: "go_error option \<Rightarrow> ('s \<Rightarrow> string \<Rightarrow> go_error option \<times> 's) \<Rightarrow> string \<Rightarrow> 's \<Rightarrow> go_error option \<times> 's" where
  "stream_events started on_event out s =
     (case started of Some e \<Rightarrow> (Some e, s) | None \<Rightarrow>
     (let (ls, rest) = scan_lines event_line_limit out; (err, s1) = deliver_lines on_event ls s
      in (case err of Some e \<Rightarrow> Some e | None \<Rightarrow> if rest = [] then None else Some (Sentinel ''bufio.Scanner: token too long''), s1)))"

definition batch_size :: nat where "batch_size = 15"

text \<open>
  The reporting goroutine: \<open>ticks\<close> says before which lines the 200 ms ticker fires (never after the
  list ends). A full batch and a tick both flush; closing the channel flushes what is pending.
\<close>

definition flush_pending :: "string list \<Rightarrow> string list list" where
  "flush_pending pending = (if pending = [] then [] else [pending])"

definition feed :: "bool \<Rightarrow> string list \<Rightarrow> string \<Rightarrow> string list list \<times> string list" where
  "feed tick pending l =
     (let (out, keep) = (if tick then (flush_pending pending, []) else ([], pending));
          kept = keep @ [l]
      in if length kept \<ge> batch_size then (out @ flush_pending kept, []) else (out, kept))"

fun batches :: "bool list \<Rightarrow> string list \<Rightarrow> string list \<Rightarrow> string list list" where
  "batches ticks pending [] = flush_pending pending"
| "batches ticks pending (l # ls) =
     (case feed (ticks \<noteq> [] \<and> hd ticks) pending l of (out, kept) \<Rightarrow> out @ batches (tl ticks) kept ls)"

text \<open>
  \<open>RunStreamingCommand\<close>. The output goes through a pipe without a buffer: what is not read is not
  written, and \<open>cmd.Run\<close> returns only when everything is written. These are the steps of the reader. It
  takes what its buffer has room for while there is no line in the buffer, hands on the lines, and
  ends: with a line that does not fit, or behind the last byte, which it sees only once everything is written.
  Nobody reads the pipe after that.
\<close>

record pump =
  pu_unread :: string
  pu_buffer :: string
  pu_lines :: "string list"
  pu_stopped :: bool

inductive pump_step :: "nat \<Rightarrow> pump \<Rightarrow> pump \<Rightarrow> bool" for lim where
  Take: "\<not> pu_stopped s \<Longrightarrow> newline \<notin> set (pu_buffer s) \<Longrightarrow> pu_unread s = chunk @ rest \<Longrightarrow> chunk \<noteq> [] \<Longrightarrow>
    length (pu_buffer s) + length chunk \<le> lim \<Longrightarrow>
    pump_step lim s (s\<lparr>pu_unread := rest, pu_buffer := pu_buffer s @ chunk\<rparr>)"
| HandOn: "\<not> pu_stopped s \<Longrightarrow> pu_buffer s = l @ newline # rest \<Longrightarrow> newline \<notin> set l \<Longrightarrow>
    pump_step lim s (s\<lparr>pu_buffer := rest, pu_lines := pu_lines s @ [drop_cr l]\<rparr>)"
| TooLong: "\<not> pu_stopped s \<Longrightarrow> newline \<notin> set (pu_buffer s) \<Longrightarrow> lim \<le> length (pu_buffer s) \<Longrightarrow>
    pump_step lim s (s\<lparr>pu_stopped := True\<rparr>)"
| AtEnd: "\<not> pu_stopped s \<Longrightarrow> newline \<notin> set (pu_buffer s) \<Longrightarrow> length (pu_buffer s) < lim \<Longrightarrow> pu_unread s = [] \<Longrightarrow>
    pump_step lim s (s\<lparr>pu_buffer := [], pu_stopped := True,
      pu_lines := pu_lines s @ (if pu_buffer s = [] then [] else [drop_cr (pu_buffer s)])\<rparr>)"

definition pump_start :: "string \<Rightarrow> pump" where
  "pump_start out = \<lparr>pu_unread = out, pu_buffer = [], pu_lines = [], pu_stopped = False\<rparr>"

text \<open>The call has returned when everything is written and the reader has ended.\<close>

definition pump_returned :: "pump \<Rightarrow> bool" where
  "pump_returned s \<longleftrightarrow> pu_unread s = [] \<and> pu_stopped s"

text \<open>
  What comes of that, whatever the sizes of the reads: \<open>None\<close> when the call never returns (lemmas
  \<open>pump_never_returns\<close> and \<open>pump_returns\<close>), otherwise the error of the process, its lines without
  the carriage returns at their ends, and the batches that were reported.
\<close>

record streamed =
  sm_err :: "go_error option"
  sm_lines :: "string list"
  sm_batches :: "string list list"

definition stream_of :: "nat \<Rightarrow> bool list \<Rightarrow> proc_result \<Rightarrow> streamed option" where
  "stream_of lim ticks r =
     (case scan_lines lim (p_all r) of
        (ls, left) \<Rightarrow>
          (if length left > lim then None
           else Some \<lparr>sm_err = p_err r, sm_lines = map trim_cr ls, sm_batches = batches ticks [] (map trim_cr ls)\<rparr>))"

definition run_streaming_command :: "sys \<Rightarrow> bool list \<Rightarrow> path \<Rightarrow> string list \<Rightarrow> host \<Rightarrow> streamed option \<times> host" where
  "run_streaming_command sys ticks dir argv h =
     (let (r, h1) = exec_in sys dir argv h in (stream_of max_line ticks r, h1))"

section \<open>Deploying\<close>

text \<open>
  A deployment's transcript and error together with every batch it reported, in order; \<open>None\<close> when
  its process never ends.
\<close>

type_synonym reported = "outcome \<times> string list list"

definition deploy_compose_with_report ::
  "sys \<Rightarrow> bool list \<Rightarrow> path \<Rightarrow> string \<Rightarrow> host \<Rightarrow> reported option \<times> host" where
  "deploy_compose_with_report sys ticks compose_path custom h =
     (let dir = path_dir compose_path;
          start = ''Running deployment in '' @ dir @ ''...'';
          ((argv, description), h1) = deploy_command sys custom [''-f'', compose_path, ''up'', ''-d''] h;
          msg = ''Command: '' @ description
      in case run_streaming_command sys ticks dir argv h1 of
           (None, h2) \<Rightarrow> (None, h2)
         | (Some s, h2) \<Rightarrow>
             (let ls = [start, msg] @ sm_lines s; bs = [start] # [msg] # sm_batches s in
              (Some (case sm_err s of
                       Some e \<Rightarrow> ((ls, Some (Msg (''compose deployment failed: '' @ error_text e))), bs)
                     | None \<Rightarrow> ((ls @ [''Deployment finished successfully.''], None), bs)), h2)))"

definition deploy_compose :: "sys \<Rightarrow> bool list \<Rightarrow> path \<Rightarrow> string \<Rightarrow> host \<Rightarrow> outcome option \<times> host" where
  "deploy_compose sys ticks compose_path custom h =
     (let (r, h1) = deploy_compose_with_report sys ticks compose_path custom h in (map_option fst r, h1))"

text \<open>Where the project of a container lives: its label, or the agent's own copy of the project.\<close>

definition redeploy_dir :: "path \<Rightarrow> string \<Rightarrow> string \<Rightarrow> host \<Rightarrow> path \<times> host" where
  "redeploy_dir root project labelled h =
     (if labelled = [] \<and> project \<noteq> []
      then (case resolve_path root (path_join [''projects'', project]) of
              Inl _ \<Rightarrow> (labelled, h)
            | Inr p \<Rightarrow> (case stat (path_join [p, ''docker-compose.yml'']) h of
                         (Inr _, h1) \<Rightarrow> (p, h1) | (Inl _, h1) \<Rightarrow> (labelled, h1)))
      else (labelled, h))"

definition redeploy_args :: "string \<Rightarrow> path \<Rightarrow> string \<Rightarrow> string list" where
  "redeploy_args project dir config_files =
     (let fs = split_compose_config_files config_files;
          files = (if fs = [] then [path_join [dir, ''docker-compose.yml'']] else fs)
      in [''-p'', project] @
         concat (map (\<lambda>f. [''-f'', if rooted f then f else path_join [dir, f]]) files) @ [''up'', ''-d''])"

definition redeploy_container_with_report :: "sys \<Rightarrow> bool list \<Rightarrow> path \<Rightarrow> string \<Rightarrow> host \<Rightarrow> reported option \<times> host" where
  "redeploy_container_with_report sys ticks root raw h =
     (let cid = trim_space raw;
          start = ''Preparing redeploy for container '' @ cid @ ''...''
      in if cid = [] then (Some (([start], Some (Msg ''container_id is required'')), [[start]]), h)
         else (let (project, h1) = compose_label sys cid ''com.docker.compose.project'' h;
                   (labelled, h2) = compose_label sys cid ''com.docker.compose.project.working_dir'' h1;
                   (config_files, h3) = compose_label sys cid ''com.docker.compose.project.config_files'' h2;
                   (dir, h4) = redeploy_dir root project labelled h3
               in if project = [] \<or> dir = []
                  then (Some (([start, ''Inspecting container '' @ cid @ '' labels...''] @
                           (if project = [] then [''Missing label com.docker.compose.project on container '' @ cid] else []) @
                           (if dir = [] then [''Missing label com.docker.compose.project.working_dir on container '' @ cid] else []),
                         Some (Msg ''this container was not deployed with Docker Compose, so it cannot be redeployed from here'')),
                         [[start]]), h4)
                  else (let args = redeploy_args project dir config_files;
                            msg = ''Redeploying compose project '' @ project @ '' in '' @ dir @ ''...'';
                            ((argv, name), h5) = compose_command sys args h4;
                            cmd_msg = ''Command: '' @ name @ '' '' @ join '' '' args
                        in case run_streaming_command sys ticks dir argv h5 of
                             (None, h6) \<Rightarrow> (None, h6)
                           | (Some s, h6) \<Rightarrow>
                               (let ls = [start, msg, cmd_msg] @ sm_lines s; bs = [start] # [msg] # [cmd_msg] # sm_batches s in
                                (Some (case sm_err s of
                                         Some e \<Rightarrow> ((ls, Some (Msg (''compose up failed: '' @ error_text e))), bs)
                                       | None \<Rightarrow> ((ls @ [''Redeploy finished successfully.''], None), bs)), h6)))))"

section \<open>What is streamed\<close>

lemma feed_concat: "feed t pending l = (out, kept) \<Longrightarrow> concat out @ kept = pending @ [l]"
  by (auto simp: feed_def flush_pending_def Let_def split: if_splits)

lemma feed_sizes:
  "feed t pending l = (out, kept) \<Longrightarrow> length pending < batch_size \<Longrightarrow>
   length kept < batch_size \<and> (\<forall>b\<in>set out. b \<noteq> [] \<and> length b \<le> batch_size)"
  by (auto simp: feed_def flush_pending_def Let_def batch_size_def split: if_splits)

lemma batches_concat: "concat (batches ticks pending ls) = pending @ ls"
proof (induction ls arbitrary: ticks pending)
  case (Cons l ls)
  obtain out kept where f: "feed (ticks \<noteq> [] \<and> hd ticks) pending l = (out, kept)" by fastforce
  then show ?case using Cons[of "tl ticks" kept] feed_concat[OF f] by simp
qed (simp add: flush_pending_def)

lemma batches_sizes:
  "length pending < batch_size \<Longrightarrow> \<forall>b\<in>set (batches ticks pending ls). b \<noteq> [] \<and> length b \<le> batch_size"
proof (induction ls arbitrary: ticks pending)
  case (Cons l ls)
  obtain out kept where f: "feed (ticks \<noteq> [] \<and> hd ticks) pending l = (out, kept)" by fastforce
  then show ?case using Cons.IH[of kept "tl ticks"] feed_sizes[OF f Cons.prems] by auto
qed (auto simp: flush_pending_def)

text \<open>The lines of an output, the last one only if it is not empty.\<close>

definition text_lines :: "string \<Rightarrow> string list" where
  "text_lines out = (let ls = split_on newline out in if last ls = [] then butlast ls else ls)"

lemma trim_cr_drop_cr [simp]: "trim_cr (drop_cr l) = trim_cr l"
  by (cases l rule: rev_cases) (simp_all add: drop_cr_def trim_cr_def trim_right_by_def)

lemma scan_lines_short:
  "list_all (\<lambda>l. length l < lim) (split_on newline out) \<Longrightarrow> scan_lines lim out = (map drop_cr (text_lines out), [])"
proof (induction lim out rule: scan_lines.induct)
  case (1 lim out)
  let ?l = "takeWhile (\<lambda>c. c \<noteq> newline) out"
  show ?case
  proof (cases "out = []")
    case True
    then show ?thesis by (simp add: scan_lines.simps[of lim "[]"] text_lines_def)
  next
    case ne: False
    show ?thesis
    proof (cases "newline \<in> set out")
      case True
      from split_list_first[OF this] obtain pre rest where pr: "out = pre @ newline # rest" "newline \<notin> set pre" by blast
      have "\<And>c. c \<in> set pre \<Longrightarrow> c \<noteq> newline" using pr(2) by blast
      then have lp: "?l = pre" unfolding pr(1) by (subst takeWhile_append2) simp_all
      have o: "out = ?l @ newline # rest" unfolding lp by (rule pr(1))
      have nl: "newline \<notin> set ?l" unfolding lp by (rule pr(2))
      have sp: "split_on newline out = ?l # split_on newline rest" by (subst o) (rule split_on_append_sep[OF nl])
      have d: "drop (Suc (length ?l)) out = rest" by (subst o) simp
      have short: "length ?l < lim" "list_all (\<lambda>l. length l < lim) (split_on newline rest)"
        using 1(2) unfolding sp by simp_all
      have "scan_lines lim rest = (map drop_cr (text_lines rest), [])"
        using 1(1)[OF ne refl] short unfolding d by simp
      then show ?thesis
        using ne short(1) d by (subst scan_lines.simps) (simp add: text_lines_def sp Let_def)
    next
      case False
      have sp: "split_on newline out = [out]" using False by (rule split_on_single)
      have l: "?l = out" by (rule takeWhile_eq_all_conv[THEN iffD2]) (use False in blast)
      have "length out < lim" using 1(2) sp by simp
      moreover have "scan_lines lim [] = ([], [])" by (simp add: scan_lines.simps[of lim "[]"])
      ultimately show ?thesis using ne by (subst scan_lines.simps) (simp add: l text_lines_def sp)
    qed
  qed
qed

lemma scan_lines_stops: "out \<noteq> [] \<Longrightarrow> lim \<le> length (takeWhile (\<lambda>c. c \<noteq> newline) out) \<Longrightarrow> scan_lines lim out = ([], out)"
  by (subst scan_lines.simps) simp

text \<open>
  C22: A process whose output lines all fit the scanner is always followed to its end, and nothing of
  its output is lost or reordered on the way to the dashboard: the call returns the process's own
  error, the transcript gains exactly the output lines, and the batches reported while it ran are
  the same lines in the same order, none empty and none of more than fifteen, however the ticker
  falls.
\<close>

theorem streaming_reports_everything:
  assumes "exec_in sys dir argv h = (r, h1)" and "list_all (\<lambda>l. length l < max_line) (split_on newline (p_all r))"
  shows "\<exists>s. run_streaming_command sys ticks dir argv h = (Some s, h1) \<and> sm_err s = p_err r \<and>
    sm_lines s = map trim_cr (text_lines (p_all r)) \<and> concat (sm_batches s) = sm_lines s \<and>
    (\<forall>b\<in>set (sm_batches s). b \<noteq> [] \<and> length b \<le> 15)"
proof -
  have "scan_lines max_line (p_all r) = (map drop_cr (text_lines (p_all r)), [])" by (rule scan_lines_short[OF assms(2)])
  moreover have "\<forall>b\<in>set (batches ticks [] ls). b \<noteq> [] \<and> length b \<le> 15" for ls
    using batches_sizes[of "[]" ticks ls] by (simp add: batch_size_def)
  ultimately show ?thesis using assms(1) by (simp add: run_streaming_command_def stream_of_def batches_concat comp_def)
qed

theorem streaming_reports_everything_witness:
  "\<exists>s. run_streaming_command demo_docker [True] ''/srv'' [''true''] bare_host = (Some s, bare_host\<lparr>ran := [(''/srv'', [''true''])]\<rparr>) \<and>
     length (concat (sm_batches s)) = 1"
proof -
  let ?out = "''c1'' @ [tab] @ ''web'' @ [tab] @ ''nginx'' @ [tab] @ [tab] @ ''Up 2 hours'' @ [tab] @ ''a, b''"
  have e: "exec_in demo_docker ''/srv'' [''true''] bare_host =
      (\<lparr>p_out = ?out, p_all = ?out, p_err = None\<rparr>, bare_host\<lparr>ran := [(''/srv'', [''true''])]\<rparr>)"
    by (simp add: exec_in_def demo_docker_def Let_def)
  show ?thesis using streaming_reports_everything[OF e, of "[True]"] by (auto simp: max_line_def text_lines_def)
qed

section \<open>The reader of the pipe\<close>

inductive_cases pump_stepE: "pump_step lim s t"

lemma scan_lines_line:
  assumes "newline \<notin> set l" and "length l < lim"
  shows "scan_lines lim (l @ newline # rest) = (drop_cr l # fst (scan_lines lim rest), snd (scan_lines lim rest))"
proof -
  have "takeWhile (\<lambda>c. c \<noteq> newline) (l @ newline # rest) = l"
    using assms(1) by (subst takeWhile_append2) auto
  then show ?thesis using assms(2) by (subst scan_lines.simps) (simp add: case_prod_beta)
qed

lemma scan_lines_last:
  assumes "newline \<notin> set l" and "length l < lim"
  shows "scan_lines lim l = (if l = [] then [] else [drop_cr l], [])"
proof -
  have w: "takeWhile (\<lambda>c. c \<noteq> newline) l = l" using assms(1) by (simp add: takeWhile_eq_all_conv) blast
  have "scan_lines lim [] = ([], [])" by (simp add: scan_lines.simps)
  then show ?thesis using assms(2) by (subst scan_lines.simps) (simp only: w Let_def, simp)
qed

text \<open>What the reader has handed on and what it will, whatever it has read so far.\<close>

definition pump_inv :: "nat \<Rightarrow> string \<Rightarrow> pump \<Rightarrow> bool" where
  "pump_inv lim out s \<longleftrightarrow> length (pu_buffer s) \<le> lim \<and>
     (if pu_stopped s then pu_lines s = fst (scan_lines lim out) \<and> pu_unread s = drop lim (snd (scan_lines lim out))
      else scan_lines lim out = (pu_lines s @ fst (scan_lines lim (pu_buffer s @ pu_unread s)), snd (scan_lines lim (pu_buffer s @ pu_unread s))))"

lemma pump_step_inv:
  assumes "pump_step lim s t" and "pump_inv lim out s" and "0 < lim"
  shows "pump_inv lim out t"
  using assms(1)
proof (cases rule: pump_step.cases)
  case (Take chunk rest)
  then show ?thesis using assms(2) by (simp add: pump_inv_def)
next
  case (HandOn l rest)
  then have "length l < lim" using assms(2) by (simp add: pump_inv_def)
  then show ?thesis
    using assms(2) HandOn scan_lines_line[of l lim "rest @ pu_unread s"] by (simp add: pump_inv_def)
next
  case TooLong
  then have full: "length (pu_buffer s) = lim" using assms(2) by (simp add: pump_inv_def)
  have "lim \<le> length (takeWhile (\<lambda>c. c \<noteq> newline) (pu_buffer s @ pu_unread s))"
    using TooLong full by (subst takeWhile_append2) auto
  moreover have "pu_buffer s @ pu_unread s \<noteq> []" using full assms(3) by auto
  ultimately have "scan_lines lim (pu_buffer s @ pu_unread s) = ([], pu_buffer s @ pu_unread s)" by (rule scan_lines_stops[rotated])
  then show ?thesis using assms(2) TooLong full by (simp add: pump_inv_def)
next
  case AtEnd
  then show ?thesis using assms(2) scan_lines_last[of "pu_buffer s" lim] by (auto simp: pump_inv_def)
qed

lemma pump_reaches:
  assumes "(pump_step lim)\<^sup>*\<^sup>* (pump_start out) s" and "0 < lim"
  shows "pump_inv lim out s"
  using assms(1)
proof (induction rule: rtranclp_induct)
  case base
  show ?case by (simp add: pump_inv_def pump_start_def)
next
  case (step s t)
  then show ?case using pump_step_inv assms(2) by blast
qed

text \<open>The reader can always go on until it has ended, and it ends: every step makes less of what there is to do.\<close>

definition pump_work :: "pump \<Rightarrow> nat" where
  "pump_work s = 2 * length (pu_unread s) + length (pu_buffer s) + (if pu_stopped s then 0 else 1)"

lemma pump_step_works: "pump_step lim s t \<Longrightarrow> pump_work t < pump_work s"
  by (induction rule: pump_step.induct) (auto simp: pump_work_def)

lemma pump_progress: "\<not> pu_stopped s \<Longrightarrow> \<exists>t. pump_step lim s t"
proof (cases "newline \<in> set (pu_buffer s)")
  case True
  assume "\<not> pu_stopped s"
  with split_list_first[OF True] show ?thesis using HandOn by blast
next
  case False
  assume "\<not> pu_stopped s"
  show ?thesis
  proof (cases "lim \<le> length (pu_buffer s) \<or> pu_unread s = []")
    case True
    then show ?thesis using TooLong[of s lim] AtEnd[of s lim] False \<open>\<not> pu_stopped s\<close> by (meson not_le)
  next
    case more: False
    then obtain c rest where "pu_unread s = [c] @ rest" by (cases "pu_unread s") auto
    then show ?thesis using Take[of s "[c]" rest lim] False more \<open>\<not> pu_stopped s\<close> by auto
  qed
qed

lemma pump_stops: "\<exists>t. (pump_step lim)\<^sup>*\<^sup>* s t \<and> pu_stopped t"
proof (induction "pump_work s" arbitrary: s rule: less_induct)
  case less
  show ?case
  proof (cases "pu_stopped s")
    case False
    then obtain t where t: "pump_step lim s t" using pump_progress by blast
    then show ?thesis using less[OF pump_step_works[OF t]] converse_rtranclp_into_rtranclp[of "pump_step lim", OF t] by blast
  qed blast
qed

lemma pump_never_returns:
  assumes "stream_of lim ticks r = None" and "0 < lim" and "(pump_step lim)\<^sup>*\<^sup>* (pump_start (p_all r)) s"
  shows "\<not> pump_returned s"
proof -
  have "lim < length (snd (scan_lines lim (p_all r)))"
    using assms(1) by (simp add: stream_of_def case_prod_beta split: if_splits)
  then show ?thesis using pump_reaches[OF assms(3,2)] by (auto simp: pump_inv_def pump_returned_def)
qed

lemma pump_returns:
  assumes "stream_of lim ticks r = Some x" and "0 < lim"
  shows "\<exists>s. (pump_step lim)\<^sup>*\<^sup>* (pump_start (p_all r)) s \<and> pump_returned s"
    and "(pump_step lim)\<^sup>*\<^sup>* (pump_start (p_all r)) s \<Longrightarrow> pu_stopped s \<Longrightarrow> pump_returned s \<and> sm_lines x = map trim_cr (pu_lines s)"
proof -
  have x: "length (snd (scan_lines lim (p_all r))) \<le> lim" "sm_lines x = map trim_cr (fst (scan_lines lim (p_all r)))"
    using assms(1) by (auto simp: stream_of_def case_prod_beta split: if_splits)
  have ended: "pump_returned s \<and> sm_lines x = map trim_cr (pu_lines s)"
    if "(pump_step lim)\<^sup>*\<^sup>* (pump_start (p_all r)) s" "pu_stopped s" for s
    using pump_reaches[OF that(1) assms(2)] that(2) x by (simp add: pump_inv_def pump_returned_def)
  then show "\<exists>s. (pump_step lim)\<^sup>*\<^sup>* (pump_start (p_all r)) s \<and> pump_returned s" using pump_stops by blast
  show "(pump_step lim)\<^sup>*\<^sup>* (pump_start (p_all r)) s \<Longrightarrow> pu_stopped s \<Longrightarrow> pump_returned s \<and> sm_lines x = map trim_cr (pu_lines s)"
    by (rule ended)
qed

text \<open>A long line anywhere in the output leaves everything from it on unread.\<close>

lemma scan_lines_left:
  assumes "pre = [] \<or> last pre = newline" and "lim \<le> length (takeWhile (\<lambda>c. c \<noteq> newline) long)" and "long \<noteq> []"
  shows "length long \<le> length (snd (scan_lines lim (pre @ long)))"
  using assms(1)
proof (induction "length pre" arbitrary: pre rule: less_induct)
  case less
  show ?case
  proof (cases "pre = []")
    case True
    then show ?thesis using scan_lines_stops[OF assms(3,2)] by simp
  next
    case False
    then have "newline \<in> set pre" using less.prems last_in_set by metis
    from split_list_first[OF this] obtain l rest where pre: "pre = l @ newline # rest" "newline \<notin> set l" by blast
    show ?thesis
    proof (cases "length l < lim")
      case True
      have "rest = [] \<or> last rest = newline" using less.prems pre(1) by (cases "rest = []") auto
      then show ?thesis using less.hyps[of rest] scan_lines_line[OF pre(2) True, of "rest @ long"] pre(1) by simp
    next
      case long_l: False
      have "takeWhile (\<lambda>c. c \<noteq> newline) (pre @ long) = l" unfolding pre(1) using pre(2) by (simp add: takeWhile_append)
      then show ?thesis using scan_lines_stops[of "pre @ long" lim] long_l False by simp
    qed
  qed
qed

text \<open>
  C38: A line of a mebibyte or more stops the reader for good, wherever it stands in the output. When a
  deployment prints such a line and goes on by more than the buffer holds, the reader comes to a state in
  which nothing reads the pipe, output is left to write, and no step is possible; the call returns in no
  state that can be reached, so the deployment never returns and its command is never answered.
\<close>

theorem long_line_never_returns:
  assumes "exec_in sys (path_dir compose_path) argv h1 = (r, h2)"
    and "deploy_command sys custom [''-f'', compose_path, ''up'', ''-d''] h = ((argv, description), h1)"
    and "p_all r = pre @ long" and "pre = [] \<or> last pre = newline"
    and "max_line \<le> length (takeWhile (\<lambda>c. c \<noteq> newline) long)" and "max_line < length long"
  shows "(\<forall>s. (pump_step max_line)\<^sup>*\<^sup>* (pump_start (p_all r)) s \<longrightarrow> \<not> pump_returned s) \<and>
    (\<exists>s. (pump_step max_line)\<^sup>*\<^sup>* (pump_start (p_all r)) s \<and> pu_unread s \<noteq> [] \<and> (\<forall>t. \<not> pump_step max_line s t)) \<and>
    deploy_compose_with_report sys ticks compose_path custom h = (None, h2)"
proof -
  have pos: "0 < max_line" by (simp add: max_line_def)
  have "length long \<le> length (snd (scan_lines max_line (p_all r)))"
    unfolding assms(3) using assms(6) by (intro scan_lines_left[OF assms(4,5)]) auto
  then have none: "stream_of max_line ticks r = None" for ticks
    using assms(6) by (simp add: stream_of_def case_prod_beta)
  obtain s where s: "(pump_step max_line)\<^sup>*\<^sup>* (pump_start (p_all r)) s" "pu_stopped s" using pump_stops by blast
  have never: "\<not> pump_returned t" if "(pump_step max_line)\<^sup>*\<^sup>* (pump_start (p_all r)) t" for t
    using pump_never_returns[OF none pos that] .
  have "pu_unread s \<noteq> []" using never[OF s(1)] s(2) by (simp add: pump_returned_def)
  moreover have "\<not> pump_step max_line s t" for t using s(2) by (auto elim: pump_stepE)
  moreover have "deploy_compose_with_report sys ticks compose_path custom h = (None, h2)"
    using assms(1,2) none by (simp add: deploy_compose_with_report_def run_streaming_command_def Let_def)
  ultimately show ?thesis using never s(1) by blast
qed

theorem long_line_never_returns_witness:
  "fst (deploy_compose_with_report (\<lambda>c h. (\<lparr>p_out = [], p_all = ''ok'' @ newline # replicate (Suc max_line) CHR ''x'', p_err = None\<rparr>, h)) []
     ''/srv/docker-compose.yml'' ''make up'' bare_host) = None"
proof -
  let ?out = "''ok'' @ newline # replicate (Suc max_line) CHR ''x''"
  let ?sys = "\<lambda>c h. (\<lparr>p_out = [], p_all = ?out, p_err = None\<rparr>, h)"
  have e: "exec_in ?sys (path_dir ''/srv/docker-compose.yml'') (custom_argv ''make up'') bare_host =
      (\<lparr>p_out = [], p_all = ?out, p_err = None\<rparr>, bare_host\<lparr>ran := [(path_dir ''/srv/docker-compose.yml'', custom_argv ''make up'')]\<rparr>)"
    by (simp add: exec_in_def)
  have t: "trim_space ''make up'' = ''make up''" by (simp add: model_defs)
  have d: "deploy_command ?sys ''make up'' [''-f'', ''/srv/docker-compose.yml'', ''up'', ''-d''] bare_host =
      ((custom_argv ''make up'', ''make up''), bare_host)"
    by (simp add: deploy_command_def t)
  have o: "p_all \<lparr>p_out = [], p_all = ?out, p_err = None\<rparr> = (''ok'' @ [newline]) @ replicate (Suc max_line) CHR ''x''" by simp
  have l: "max_line \<le> length (takeWhile (\<lambda>c. c \<noteq> newline) (replicate (Suc max_line) CHR ''x''))"
    by (subst takeWhile_eq_all_conv[THEN iffD2]) auto
  show ?thesis using long_line_never_returns[OF e d o _ l, of "[]"] by simp
qed

end
