(* ===== verification/Migration.thy ===== *)
theory Migration
  imports Docker
begin

text \<open>
  \<open>internal/docker/migration.go\<close>: moving a container to another machine over ssh. The accounts of
  the machine, the dialer, the decoder of \<open>docker inspect\<close> and the figures printed with decimals are
  parameters; ownership of files is not part of the host, so the calls of \<open>chown\<close> have no effect here.
\<close>

section \<open>Texts\<close>

definition migration_docs_url :: string where
  "migration_docs_url = ''https://tug.sh/docs/4-security-and-connectivity#migrating-containers-between-servers''"

definition ssh_noise :: "string \<Rightarrow> string" where
  "ssh_noise out =
     join ''; '' (filter (\<lambda>t. t \<noteq> [] \<and> \<not> has_prefix t ''Warning: Permanently added'') (map trim_space (split_on newline out)))"

text \<open>\<open>%q\<close> for texts of ASCII characters; other bytes are passed through.\<close>

definition hex_char :: "nat \<Rightarrow> char" where
  "hex_char n = char_of (if n < 10 then 48 + n else 87 + n)"

definition quote_char :: "char \<Rightarrow> string" where
  "quote_char c =
     (let bs = CHR 0x5C; n = code c in
      if c = CHR 0x22 \<or> c = bs then [bs, c]
      else if n = 7 then [bs, CHR ''a''] else if n = 8 then [bs, CHR ''b''] else if n = 9 then [bs, CHR ''t'']
      else if n = 10 then [bs, CHR ''n''] else if n = 11 then [bs, CHR ''v''] else if n = 12 then [bs, CHR ''f'']
      else if n = 13 then [bs, CHR ''r'']
      else if n < 32 \<or> n = 127 then [bs, CHR ''x'', hex_char (n div 16), hex_char (n mod 16)]
      else [c])"

definition go_quote :: "string \<Rightarrow> string" where
  "go_quote s = quote @ concat (map quote_char s) @ quote"

section \<open>Accounts\<close>

record account =
  ac_name :: string
  ac_home :: path
  ac_uid :: string
  ac_gid :: string

text \<open>The user database and the process's own user.\<close>

record accounts =
  lookup_user :: "string \<Rightarrow> account option"
  current_user :: "account option"

text \<open>A user name, the directory of its keys, and its ids.\<close>

type_synonym key_owner = "string \<times> path \<times> int \<times> int"

definition owner_of :: "account \<Rightarrow> key_owner" where
  "owner_of u = (ac_name u, path_join [ac_home u, ''.ssh''], scanned (ac_uid u), scanned (ac_gid u))"

definition common_users :: "string list" where
  "common_users = [''ubuntu'', ''debian'', ''centos'', ''admin'', ''tug'', ''ec2-user'', ''fedora'', ''alma'', ''rocky'']"

definition find_standard_sudo_user :: "accounts \<Rightarrow> host \<Rightarrow> key_owner \<times> host" where
  "find_standard_sudo_user acc h =
     (case List.map_filter (lookup_user acc) common_users of
        u # _ \<Rightarrow> (owner_of u, h)
      | [] \<Rightarrow>
          (case read_dir ''/home'' h of
             (Inl _, h1) \<Rightarrow> (([], [], -1, -1), h1)
           | (Inr es, h1) \<Rightarrow>
               (case List.map_filter (\<lambda>(n, nd). if nd = Dir \<and> \<not> has_prefix n ''.'' then lookup_user acc n else None) es of
                  u # _ \<Rightarrow> (owner_of u, h1)
                | [] \<Rightarrow> (([], [], -1, -1), h1))))"

text \<open>\<open>SplitN\<close> at the first space.\<close>

definition sshd_setting :: "string \<Rightarrow> string option" where
  "sshd_setting line =
     (case cut (trim_space line) '' '' of
        None \<Rightarrow> None
      | Some (k, v) \<Rightarrow> if equal_fold k ''permitrootlogin'' then Some (to_lower (trim_space v)) else None)"

definition config_setting :: "string \<Rightarrow> string option" where
  "config_setting raw =
     (let line = trim_space raw; parts = Go_Strings.fields line in
      if has_prefix line ''#'' then None
      else if length parts \<ge> 2 \<and> equal_fold (parts ! 0) ''PermitRootLogin'' then Some (to_lower (parts ! 1)) else None)"

definition is_root_ssh_allowed :: "sys \<Rightarrow> host \<Rightarrow> bool \<times> host" where
  "is_root_ssh_allowed sys h =
     (let (r, h1) = exec sys [''sshd'', ''-T''] h in
      case (if p_err r = None then List.map_filter sshd_setting (split_on newline (p_out r)) else []) of
        v # _ \<Rightarrow> (v \<noteq> ''no'', h1)
      | [] \<Rightarrow>
          (case read_file ''/etc/ssh/sshd_config'' h1 of
             (Inl _, h2) \<Rightarrow> (True, h2)
           | (Inr data, h2) \<Rightarrow>
               (case List.map_filter config_setting (split_on newline data) of
                  v # _ \<Rightarrow> (v \<noteq> ''no'', h2) | [] \<Rightarrow> (True, h2))))"

definition root_or_sudo_user :: "accounts \<Rightarrow> sys \<Rightarrow> host \<Rightarrow> key_owner \<times> host" where
  "root_or_sudo_user acc sys h =
     (let (allowed, h1) = is_root_ssh_allowed sys h in
      if allowed then ((''root'', ''/root/.ssh'', 0, 0), h1)
      else (let (u, h2) = find_standard_sudo_user acc h1
            in if fst u \<noteq> [] then (u, h2) else ((''root'', ''/root/.ssh'', 0, 0), h2)))"

definition migration_target_user :: "accounts \<Rightarrow> sys \<Rightarrow> string \<Rightarrow> host \<Rightarrow> key_owner \<times> host" where
  "migration_target_user acc sys preferred h =
     (let p = trim_space preferred in
      if p \<noteq> [] then
        (case lookup_user acc p of
           Some u \<Rightarrow> (owner_of u, h)
         | None \<Rightarrow> ((p, path_join [''/home'', p, ''.ssh''], -1, -1), h))
      else (case current_user acc of
              Some u \<Rightarrow> if ac_name u \<noteq> ''root'' then (owner_of u, h) else root_or_sudo_user acc sys h
            | None \<Rightarrow> root_or_sudo_user acc sys h))"

section \<open>The key on the target\<close>

text \<open>Both operations of the target: the user to log in as, or the error.\<close>

definition prepare_migration_target_key ::
  "accounts \<Rightarrow> sys \<Rightarrow> string \<Rightarrow> string \<Rightarrow> host \<Rightarrow> (go_error, string) result \<times> host" where
  "prepare_migration_target_key acc sys raw_key preferred h =
     (let key = trim_space raw_key in
      if key = [] then (Inl (Msg ''ephemeral_key is required''), h)
      else (let ((username, dir, uid, gid), h1) = migration_target_user acc sys preferred h in
            case mkdir_all dir h1 of
              (Some e, h2) \<Rightarrow> (Inl (Wrapf ''failed to create .ssh directory: '' e []), h2)
            | (None, h2) \<Rightarrow>
                (let keys = path_join [dir, ''authorized_keys''];
                     (existing, h3) = read_file keys h2
                 in if (case existing of Inr old \<Rightarrow> contains old key | Inl _ \<Rightarrow> False) then (Inr username, h3)
                    else (case append_file keys (newline # key @ [newline]) h3 of
                            (Some e, h4) \<Rightarrow> (Inl (Wrapf ''failed to write key to authorized_keys: '' e []), h4)
                          | (None, h4) \<Rightarrow> (Inr username, h4)))))"

definition keys_without :: "string \<Rightarrow> string \<Rightarrow> string" where
  "keys_without key content =
     join [newline] (filter (\<lambda>l. trim_space l \<noteq> [] \<and> \<not> contains l key) (split_on newline content))"

definition cleanup_migration_target_key ::
  "accounts \<Rightarrow> sys \<Rightarrow> string \<Rightarrow> string \<Rightarrow> host \<Rightarrow> go_error option \<times> host" where
  "cleanup_migration_target_key acc sys raw_key preferred h =
     (let key = trim_space raw_key in
      if key = [] then (None, h)
      else (let ((_, dir, _, _), h1) = migration_target_user acc sys preferred h;
                keys = path_join [dir, ''authorized_keys'']
            in case read_file keys h1 of
                 (Inl _, h2) \<Rightarrow> (None, h2)
               | (Inr content, h2) \<Rightarrow> write_file keys (keys_without key content) h2))"

section \<open>Reaching the target\<close>

definition join_host_port :: "string \<Rightarrow> int \<Rightarrow> string" where
  "join_host_port host port =
     (if contains host '':'' then ''['' @ host @ '']:'' @ itoa port else host @ '':'' @ itoa port)"

definition ssh_port :: "int \<Rightarrow> int" where
  "ssh_port p = (if p \<le> 0 then 22 else p)"

definition check_migration_reachable :: "(string \<Rightarrow> go_error option) \<Rightarrow> string \<Rightarrow> int \<Rightarrow> outcome" where
  "check_migration_reachable dial raw_ip raw_port =
     (let ip = trim_space raw_ip; addr = join_host_port ip (ssh_port raw_port) in
      if ip = [] then ([], Some (Msg ''target_ip is required''))
      else (case dial addr of
              Some e \<Rightarrow> ([], Some (Wrapf (''target '' @ addr @ '' is not reachable from this server: '') e
                (''. Direct migration needs a routable path to the target'' @ [CHR 0x27] @ ''s SSH port; a target behind NAT or a firewall cannot be migrated to this way'')))
            | None \<Rightarrow> ([''Target '' @ addr @ '' is reachable over SSH.''], None)))"

definition ok_marker :: string where "ok_marker = ''TUG_MIG_OK''"
definition no_docker_marker :: string where "no_docker_marker = ''TUG_MIG_NODOCKER''"

definition probe_argv :: "int \<Rightarrow> path \<Rightarrow> string \<Rightarrow> string \<Rightarrow> string list" where
  "probe_argv port key user ip =
     [''ssh'', ''-p'', itoa port, ''-i'', key, ''-o'', ''BatchMode=yes'', ''-o'', ''NumberOfPasswordPrompts=0'',
      ''-o'', ''StrictHostKeyChecking=no'', ''-o'', ''UserKnownHostsFile=/dev/null'', ''-o'', ''ConnectTimeout=10'',
      user @ ''@'' @ ip,
      ''if command -v docker >/dev/null 2>&1; then echo '' @ ok_marker @ ''; else echo '' @ no_docker_marker @ ''; fi'']"

text \<open>What the answer of the probe means.\<close>

definition probe_verdict :: "string \<Rightarrow> string \<Rightarrow> int \<Rightarrow> proc_result \<Rightarrow> outcome" where
  "probe_verdict user ip port r =
     (let text = trim_space (p_all r); low = to_lower text; noise = ssh_noise text in
      if p_err r = None \<and> contains text ok_marker
      then ([''SSH login to '' @ user @ ''@'' @ ip @ '':'' @ itoa port @ '' works and docker is available on the target.''], None)
      else ([], Some (Msg (
        if contains text no_docker_marker
        then ''SSH login as '' @ user @ '' works, but docker is not installed or not in PATH on the target. See '' @ migration_docs_url
        else if contains low ''permission denied'' \<or> contains low ''publickey''
        then ''the target refused the migration key for user '' @ go_quote user @ ''. On the target, allow SSH key login for that user (if it is root, set PermitRootLogin to prohibit-password). Setup guide: '' @ migration_docs_url
        else ''could not open an SSH session to the target as '' @ user @ '': '' @ (if noise = [] then ''no output from ssh'' else noise) @ ''. Setup guide: '' @ migration_docs_url))))"

definition check_migration_connectivity ::
  "sys \<Rightarrow> (string \<Rightarrow> go_error option) \<Rightarrow> path \<Rightarrow> string \<Rightarrow> int \<Rightarrow> string \<Rightarrow> string \<Rightarrow> host \<Rightarrow> outcome \<times> host" where
  "check_migration_connectivity sys dial tmp raw_ip raw_port raw_user raw_key h =
     (let ip = trim_space raw_ip; key = trim_space raw_key; port = ssh_port raw_port;
          user = (if trim_space raw_user = [] then ''root'' else trim_space raw_user)
      in if ip = [] then (([], Some (Msg ''target_ip is required'')), h)
         else if key = [] then (check_migration_reachable dial ip port, h)
         else (case check_migration_reachable dial ip port of
                 (_, Some e) \<Rightarrow> (([], Some e), h)
               | (_, None) \<Rightarrow>
                   (let key_path = path_join [tmp, ''tug_mig_probe_'' @ itoa (clock h)] in
                    case write_file key_path (key @ [newline]) h of
                      (Some e, h1) \<Rightarrow> (([], Some (Wrapf ''failed to write probe key: '' e [])), h1)
                    | (None, h1) \<Rightarrow>
                        (let (r, h2) = exec sys (probe_argv port key_path user ip) h1
                         in (probe_verdict user ip port r, snd (remove_file key_path h2))))))"

section \<open>The migration\<close>

text \<open>
  What is read of \<open>docker inspect\<close>, in the order the maps are ranged over; a binding is its host
  address, its host port and the port of the container.
\<close>

record inspect_info =
  ii_name :: string
  ii_labels :: "(string \<times> string) list"
  ii_restart :: string
  ii_ports :: "(string \<times> string \<times> string) list"

record inspecting =
  decode_inspect :: "string \<Rightarrow> inspect_info option"
  size_line :: "int \<Rightarrow> string"
  transfer_lines :: "host \<Rightarrow> string list"

definition port_flag :: "string \<times> string \<times> string \<Rightarrow> string list" where
  "port_flag b =
     (case b of (ip, port, inner) \<Rightarrow>
        if port = [] then []
        else if ip \<noteq> [] \<and> ip \<noteq> ''0.0.0.0'' then [''-p '' @ ip @ '':'' @ port @ '':'' @ inner]
        else [''-p '' @ port @ '':'' @ inner])"

definition run_flags :: "inspect_info \<Rightarrow> string list" where
  "run_flags ii =
     concat (map port_flag (ii_ports ii)) @
     (if ii_restart ii \<noteq> [] \<and> ii_restart ii \<noteq> ''no'' then [''--restart '' @ ii_restart ii] else []) @
     map (\<lambda>(k, v). ''--label '' @ k @ ''='' @ go_quote v) (ii_labels ii)"

text \<open>The name and the flags to restore with; an error when docker does not know the container.\<close>

definition inspect_for_migration :: "inspecting \<Rightarrow> sys \<Rightarrow> string \<Rightarrow> host \<Rightarrow> (go_error, string \<times> string list) result \<times> host" where
  "inspect_for_migration ins sys cid h =
     (case docker_output sys [''inspect'', cid] h of
        (Inr json, h1) \<Rightarrow>
          (case decode_inspect ins json of
             None \<Rightarrow> (Inr (cid, []), h1)
           | Some ii \<Rightarrow> (Inr (trim_prefix (trim_space (ii_name ii)) ''/'', run_flags ii), h1))
      | (Inl _, h1) \<Rightarrow>
          (case docker_output sys [''inspect'', ''--format={{.Name}}'', cid] h1 of
             (Inl e, h2) \<Rightarrow> (Inl (Wrapf ''failed to inspect container name: '' e []), h2)
           | (Inr name, h2) \<Rightarrow> (Inr (trim_prefix (trim_space name) ''/'', []), h2)))"

definition remote_run_cmd :: "string \<Rightarrow> string list \<Rightarrow> string \<Rightarrow> string" where
  "remote_run_cmd name flags img =
     (let q = quote; apo = [CHR 0x27]; fl = (if flags = [] then [] else '' '' @ join '' '' flags) in
      ''docker load && (docker rm -f '' @ name @ '' 2>/dev/null || true) && '' @
      ''CID=$(docker run -d --name '' @ name @ fl @ '' '' @ img @ '') && '' @
      ''echo '' @ q @ ''RESTORED_CID:$CID'' @ q @ '' && sleep 2 && '' @
      ''STATUS=$(docker inspect --format='' @ apo @ ''{{.State.Status}}'' @ apo @ '' '' @ q @ ''$CID'' @ q @ '' 2>/dev/null || echo '' @ q @ ''unknown'' @ q @ '') && '' @
      ''echo '' @ q @ ''RESTORED_STATUS:$STATUS'' @ q @ '' && '' @
      ''if [ '' @ q @ ''$STATUS'' @ q @ '' != '' @ q @ ''running'' @ q @ '' ]; then '' @
      ''echo '' @ q @ ''CONTAINER_ERROR: container failed to start (status: $STATUS)'' @ q @ ''; '' @
      ''docker logs --tail 25 '' @ q @ ''$CID'' @ q @ '' 2>&1; exit 1; fi'')"

definition restore_argv :: "int \<Rightarrow> path \<Rightarrow> string \<Rightarrow> string \<Rightarrow> string \<Rightarrow> string list" where
  "restore_argv port key user ip remote =
     [''ssh'', ''-p'', itoa port, ''-i'', key, ''-o'', ''StrictHostKeyChecking=no'', ''-o'', ''UserKnownHostsFile=/dev/null'',
      ''-o'', ''ConnectTimeout=15'', user @ ''@'' @ ip, remote]"

text \<open>The lines of the far end: the last container id and status it named, and what it loaded.\<close>

definition read_restored :: "string list \<Rightarrow> string \<times> string \<times> string list" where
  "read_restored ls =
     foldl (\<lambda>(cid, status, notes) raw.
       let l = trim_space raw in
       if has_prefix l ''RESTORED_CID:'' then (trim_prefix l ''RESTORED_CID:'', status, notes)
       else if has_prefix l ''RESTORED_STATUS:'' then (cid, trim_prefix l ''RESTORED_STATUS:'', notes)
       else if has_prefix l ''Loaded image:'' then (cid, status, notes @ [l]) else (cid, status, notes))
     ([], [], []) ls"

definition restored_notes :: "string \<Rightarrow> string \<Rightarrow> string \<Rightarrow> string list" where
  "restored_notes name ip out =
     (case read_restored (split_on newline (trim_space out)) of (cid, status, notes) \<Rightarrow>
        notes @
        (if cid = [] then []
         else [[CHR 0xE2, CHR 0x9C, CHR 0x93] @ '' Container '' @ name @ '' successfully restored & running on '' @ ip @ '' (ID: '' @
               take 12 cid @ '', Status: '' @ (if status = [] then ''running'' else status) @ '').'']))"

text \<open>
  Steps 4 and 5, between the commit and the clean-up: the key file, the two processes joined by a
  pipe, what the far end said, and whether there is a key file to remove. \<open>docker save\<close> is started before \<open>ssh\<close> and is waited for after it;
  when it cannot be started, \<open>ssh\<close> is not.
\<close>

definition transfer_image ::
  "inspecting \<Rightarrow> sys \<Rightarrow> string \<Rightarrow> string \<Rightarrow> string list \<Rightarrow> string \<Rightarrow> int \<Rightarrow> string \<Rightarrow> string \<Rightarrow> string \<Rightarrow> host \<Rightarrow>
   ((go_error option \<times> string list) \<times> bool) \<times> host" where
  "transfer_image ins sys cid name flags ip port user key img h =
     (let key_path = ''/tmp/tug_mig_key_'' @ cid in
      case write_file key_path (key @ [newline]) h of
        (Some e, h1) \<Rightarrow> (((Some (Wrapf ''failed to write ephemeral private key: '' e []), []), False), h1)
      | (None, h1) \<Rightarrow>
          (let streaming = ''Streaming image to '' @ ip @ '':'' @ itoa port @ '' and restoring...'';
               notes = streaming # transfer_lines ins h1;
               (save, h2) = exec sys [''docker'', ''save'', img] h1
           in case start_error save of
                Some e \<Rightarrow> (((Some (Wrapf ''failed to start docker save: '' e []), [streaming]), True), h2)
              | None \<Rightarrow>
                  (let (ssh, h3) = exec sys (restore_argv port key_path user ip (remote_run_cmd name flags img)) h2;
                       text = trim_space (p_all ssh)
                   in if start_error ssh \<noteq> None
                      then (((map_option (\<lambda>e. Wrapf ''failed to start ssh transfer: '' e []) (start_error ssh), [streaming]), True), h3)
                      else (case p_err ssh of
                              Some e \<Rightarrow> (((Some (Wrapf ''ssh restore on target failed: '' e (newline #
                                  (if text = [] then ''could not reach '' @ user @ ''@'' @ ip @ '':'' @ itoa port @ '' over SSH'' else text))), notes), True), h3)
                            | None \<Rightarrow>
                                (case p_err save of
                                   Some e \<Rightarrow> (((Some (Wrapf ''docker save failed: '' e (newline # trim_space (p_all save))), notes), True), h3)
                                 | None \<Rightarrow> (((None, notes @ restored_notes name ip (p_all ssh)), True), h3))))))"

definition image_size :: "sys \<Rightarrow> string \<Rightarrow> host \<Rightarrow> int \<times> host" where
  "image_size sys img h =
     (case docker_output sys [''image'', ''inspect'', ''--format={{.Size}}'', img] h of
        (Inl _, h1) \<Rightarrow> (0, h1) | (Inr s, h1) \<Rightarrow> (scanned (trim_space s), h1))"

text \<open>After the commit: the transfer, in move mode the removal of the source, and the clean-up.\<close>

definition transfer_and_clean ::
  "inspecting \<Rightarrow> sys \<Rightarrow> string \<Rightarrow> string \<Rightarrow> string list \<Rightarrow> string \<Rightarrow> int \<Rightarrow> string \<Rightarrow> string \<Rightarrow> bool \<Rightarrow> string \<Rightarrow> host \<Rightarrow>
   (go_error option \<times> string list) \<times> host" where
  "transfer_and_clean ins sys cid name flags ip port user key move_mode img h =
     (let (size, h1) = image_size sys img h;
          (((err, notes), wrote), h2) = transfer_image ins sys cid name flags ip port user key img h1;
          gone = (err = None \<and> move_mode);
          h3 = (if gone then snd (docker_combined sys [''rm'', ''-f'', cid] h2) else h2);
          h4 = (if wrote then snd (remove_file (''/tmp/tug_mig_key_'' @ cid) h3) else h3)
      in ((err, (if size > 0 then [size_line ins size] else []) @ notes @
                (if gone then [''Removing container '' @ name @ '' from source...''] else [])),
          snd (docker_combined sys [''rmi'', img] h4)))"

definition migrate_container_to_target ::
  "inspecting \<Rightarrow> sys \<Rightarrow> string \<Rightarrow> string \<Rightarrow> int \<Rightarrow> string \<Rightarrow> string \<Rightarrow> bool \<Rightarrow> host \<Rightarrow> (go_error option \<times> string list) \<times> host" where
  "migrate_container_to_target ins sys raw_id raw_ip raw_port raw_user raw_key move_mode h =
     (let cid = trim_space raw_id; ip = trim_space raw_ip; key = trim_space raw_key; port = ssh_port raw_port;
          user = (if trim_space raw_user = [] then ''root'' else trim_space raw_user)
      in if cid = [] \<or> ip = [] \<or> key = [] then ((Some (Msg ''container_id, target_ip, and ephemeral_key are required''), []), h)
         else
           (let n1 = [''Inspecting container '' @ cid @ ''...''] in
            case inspect_for_migration ins sys cid h of
              (Inl e, h1) \<Rightarrow> ((Some e, n1), h1)
            | (Inr (name, flags), h1) \<Rightarrow>
                (let h2 = snd (docker_combined sys [''stop'', cid] h1);
                     img = ''tug-migrated-'' @ cid @ '':'' @ itoa (clock h2 div 1000000000);
                     n2 = n1 @ [''Stopping container '' @ name @ '' on source...'', ''Committing container to image '' @ img @ ''...'']
                 in case docker_combined sys [''commit'', cid, img] h2 of
                      ((out, Some e), h3) \<Rightarrow> ((Some (Wrapf ''failed to commit container image: '' e (newline # trim_space out)), n2), h3)
                    | ((out, None), h3) \<Rightarrow>
                        (let ((err, notes), h4) = transfer_and_clean ins sys cid name flags ip port user key move_mode img h3
                         in ((err, n2 @ notes), h4)))))"

section \<open>The source is never lost\<close>

lemma inspect_for_migration_ran:
  assumes "inspect_for_migration ins sys cid h = (r, h1)"
  shows "\<exists>cs. ran h1 = ran h @ map (Pair []) cs \<and> (\<forall>c\<in>set cs. take 2 c = [''docker'', ''inspect''])"
proof -
  obtain r0 h0 where o: "docker_output sys [''inspect'', cid] h = (r0, h0)" by fastforce
  note o_ran = docker_output_ran[OF o]
  show ?thesis
  proof (cases r0)
    case (Inr json)
    then have "h1 = h0" using assms o by (auto simp: inspect_for_migration_def split: option.splits)
    then show ?thesis using o_ran by (intro exI[of _ "[[''docker'', ''inspect'', cid]]"]) simp
  next
    case (Inl e)
    obtain r2 h2 where p: "docker_output sys [''inspect'', ''--format={{.Name}}'', cid] h0 = (r2, h2)" by fastforce
    have "h1 = h2" using assms o p Inl by (cases r2) (auto simp: inspect_for_migration_def)
    then show ?thesis using o_ran docker_output_ran[OF p]
      by (intro exI[of _ "[[''docker'', ''inspect'', cid], [''docker'', ''inspect'', ''--format={{.Name}}'', cid]]"]) simp
  qed
qed

lemma transfer_image_ran:
  assumes "transfer_image ins sys cid name flags ip port user key img h = (((err, notes), wrote), h1)"
  shows "\<exists>cs. ran h1 = ran h @ map (Pair []) cs \<and>
    (\<forall>c\<in>set cs. c = [''docker'', ''save'', img] \<or> hd c = ''ssh'')"
proof -
  obtain e0 ha where w: "write_file (''/tmp/tug_mig_key_'' @ cid) (key @ [newline]) h = (e0, ha)" by fastforce
  have ha: "ran ha = ran h" using w write_with_fields(3) by (metis snd_conv write_file_def)
  show ?thesis
  proof (cases e0)
    case (Some e)
    then show ?thesis using assms w ha by (intro exI[of _ "[]"]) (auto simp: transfer_image_def)
  next
    case None
    obtain save hb where s: "exec sys [''docker'', ''save'', img] ha = (save, hb)" by fastforce
    let ?argv = "restore_argv port (''/tmp/tug_mig_key_'' @ cid) user ip (remote_run_cmd name flags img)"
    obtain ssh hc where t: "exec sys ?argv hb = (ssh, hc)" by fastforce
    show ?thesis
    proof (cases "start_error save")
      case (Some e)
      then have "h1 = hb" using assms w None s by (simp add: transfer_image_def Let_def)
      then show ?thesis using ha exec_ran[OF s] by (intro exI[of _ "[[''docker'', ''save'', img]]"]) simp
    next
      case started: None
      have "h1 = hc"
        using assms w None s t started by (auto simp: transfer_image_def Let_def split: option.splits if_splits)
      then show ?thesis using ha exec_ran[OF s] exec_ran[OF t]
        by (intro exI[of _ "[[''docker'', ''save'', img], ?argv]"]) (simp add: restore_argv_def)
    qed
  qed
qed

lemma remove_file_ran [simp]: "ran (snd (remove_file p h)) = ran h"
  by (auto simp: remove_file_def Let_def split: option.splits node.splits)

lemma image_size_ran: "image_size sys img h = (n, h1) \<Longrightarrow> \<exists>c. ran h1 = ran h @ [([], ''docker'' # ''image'' # c)]"
  using docker_output_ran by (auto simp: image_size_def split: prod.splits sum.splits)

text \<open>The commands of a migration that neither start nor remove a container.\<close>

definition harmless :: "string list \<Rightarrow> bool" where
  "harmless c \<longleftrightarrow> hd c = ''ssh'' \<or>
     (\<exists>sub args. c = ''docker'' # sub # args \<and> sub \<in> {''inspect'', ''stop'', ''commit'', ''image'', ''save'', ''rmi''})"

lemma inspect_harmless: "inspect_for_migration ins sys cid h = (r, h1) \<Longrightarrow> ran_only harmless h h1"
proof -
  assume "inspect_for_migration ins sys cid h = (r, h1)"
  from inspect_for_migration_ran[OF this] obtain cs where
    cs: "ran h1 = ran h @ map (Pair []) cs" "\<forall>c\<in>set cs. take 2 c = [''docker'', ''inspect'']" by blast
  have "harmless c" if "take 2 c = [''docker'', ''inspect'']" for c
    using that by (cases c rule: remdups_adj.cases) (auto simp: harmless_def)
  then show ?thesis using cs unfolding ran_only_def list_all_iff by blast
qed

lemma transfer_harmless:
  "transfer_image ins sys cid name flags ip port user key img h = (((err, notes), wrote), h1) \<Longrightarrow> ran_only harmless h h1"
  by (drule transfer_image_ran) (auto simp: ran_only_def harmless_def list_all_iff)

lemma image_size_harmless: "image_size sys img h = (n, h1) \<Longrightarrow> ran_only harmless h h1"
  by (drule image_size_ran) (auto intro!: ran_only_one simp: harmless_def)

definition migration_step :: "string \<Rightarrow> bool \<Rightarrow> string list \<Rightarrow> bool" where
  "migration_step cid gone c \<longleftrightarrow> harmless c \<or> (c = [''docker'', ''rm'', ''-f'', cid] \<and> gone)"

lemma harmless_step: "ran_only harmless a b \<Longrightarrow> ran_only (migration_step cid gone) a b"
  by (erule ran_only_mono) (simp add: migration_step_def)

lemma clean_steps:
  assumes "transfer_and_clean ins sys cid name flags ip port user key move_mode img h = ((err, notes), h')"
  shows "ran_only (migration_step cid (err = None \<and> move_mode)) h h'"
proof -
  obtain size h1 where 1: "image_size sys img h = (size, h1)" by fastforce
  obtain er nt wrote h2 where 2: "transfer_image ins sys cid name flags ip port user key img h1 = (((er, nt), wrote), h2)"
    by (metis surj_pair)
  let ?h3 = "if er = None \<and> move_mode then snd (docker_combined sys [''rm'', ''-f'', cid] h2) else h2"
  let ?h4 = "if wrote then snd (remove_file (''/tmp/tug_mig_key_'' @ cid) ?h3) else ?h3"
  have e: "err = er" "h' = snd (docker_combined sys [''rmi'', img] ?h4)"
    using assms 1 2 by (simp_all add: transfer_and_clean_def Let_def)
  let ?p = "migration_step cid (err = None \<and> move_mode)"
  have a: "ran_only ?p h h2"
    by (rule ran_only_trans[OF harmless_step[OF image_size_harmless[OF 1]] harmless_step[OF transfer_harmless[OF 2]]])
  have b: "ran_only ?p h2 ?h3"
    using e(1) by (cases "er = None \<and> move_mode") (auto simp: migration_step_def intro: ran_only_docker ran_only_refl)
  have c: "ran_only ?p ?h3 ?h4" by (auto intro: ran_only_refl)
  have d: "ran_only ?p ?h4 h'" unfolding e(2) by (rule ran_only_docker) (simp add: migration_step_def harmless_def)
  show ?thesis by (rule ran_only_trans[OF a ran_only_trans[OF b ran_only_trans[OF c d]]])
qed

lemma migrate_steps:
  assumes "migrate_container_to_target ins sys raw_id raw_ip raw_port raw_user raw_key move_mode h = ((err, notes), h')"
  shows "ran_only (migration_step (trim_space raw_id) (err = None \<and> move_mode)) h h'"
proof (cases "trim_space raw_id = [] \<or> trim_space raw_ip = [] \<or> trim_space raw_key = []")
  case True
  then show ?thesis using assms by (intro ran_only_refl) (auto simp: migrate_container_to_target_def Let_def)
next
  case False
  let ?cid = "trim_space raw_id" and ?user = "if trim_space raw_user = [] then ''root'' else trim_space raw_user"
  let ?p = "migration_step ?cid (err = None \<and> move_mode)"
  obtain r h1 where i: "inspect_for_migration ins sys ?cid h = (r, h1)" by fastforce
  note step1 = harmless_step[OF inspect_harmless[OF i], of ?cid "err = None \<and> move_mode"]
  show ?thesis
  proof (cases r)
    case (Inl e)
    then have "h' = h1" using assms False i by (auto simp: migrate_container_to_target_def Let_def)
    then show ?thesis using step1 by simp
  next
    case (Inr nf)
    obtain name flags where nf: "nf = (name, flags)" by fastforce
    define h2 where "h2 = snd (docker_combined sys [''stop'', ?cid] h1)"
    define img where "img = ''tug-migrated-'' @ ?cid @ '':'' @ itoa (clock h2 div 1000000000)"
    have step2: "ran_only ?p h1 h2"
      unfolding h2_def by (rule ran_only_docker) (simp add: migration_step_def harmless_def)
    obtain out e3 h3 where c3: "docker_combined sys [''commit'', ?cid, img] h2 = ((out, e3), h3)" by (metis surj_pair)
    have step3: "ran_only ?p h2 h3"
      by (rule ran_only_one[OF docker_combined_ran[OF c3]]) (simp add: migration_step_def harmless_def)
    note to3 = ran_only_trans[OF step1 ran_only_trans[OF step2 step3]]
    show ?thesis
    proof (cases e3)
      case (Some e)
      then have "h' = h3"
        using assms False i Inr nf c3 by (auto simp: migrate_container_to_target_def Let_def h2_def img_def)
      then show ?thesis using to3 by simp
    next
      case None
      obtain er nt h4 where c4: "transfer_and_clean ins sys ?cid name flags (trim_space raw_ip) (ssh_port raw_port) ?user (trim_space raw_key) move_mode img h3 = ((er, nt), h4)"
        by (metis surj_pair)
      have "err = er \<and> h' = h4"
        using assms False i Inr nf c3 None c4 by (auto simp: migrate_container_to_target_def Let_def h2_def img_def)
      then show ?thesis using ran_only_trans[OF to3] clean_steps[OF c4] by simp
    qed
  qed
qed

text \<open>What a transfer without an error went through.\<close>

lemma transfer_image_ok:
  assumes "transfer_image ins sys cid name flags ip port user key img h = (((None, notes), wrote), h1)"
  shows "\<exists>ha save hb ssh. exec sys [''docker'', ''save'', img] ha = (save, hb) \<and> p_err save = None \<and>
    exec sys (restore_argv port (''/tmp/tug_mig_key_'' @ cid) user ip (remote_run_cmd name flags img)) hb = (ssh, h1) \<and> p_err ssh = None"
proof -
  let ?argv = "restore_argv port (''/tmp/tug_mig_key_'' @ cid) user ip (remote_run_cmd name flags img)"
  obtain e0 ha where w: "write_file (''/tmp/tug_mig_key_'' @ cid) (key @ [newline]) h = (e0, ha)" by fastforce
  obtain save hb where s: "exec sys [''docker'', ''save'', img] ha = (save, hb)" by fastforce
  obtain ssh hc where t: "exec sys ?argv hb = (ssh, hc)" by fastforce
  have "e0 = None" using assms w by (cases e0) (simp_all add: transfer_image_def)
  moreover have "start_error save = None"
    using assms w calculation s by (cases "start_error save") (simp_all add: transfer_image_def Let_def)
  moreover have "start_error ssh = None"
    using assms w calculation s t by (cases "start_error ssh") (simp_all add: transfer_image_def Let_def)
  ultimately have "p_err ssh = None \<and> p_err save = None \<and> h1 = hc"
    using assms w s t by (cases "p_err ssh"; cases "p_err save") (simp_all add: transfer_image_def Let_def)
  then show ?thesis using s t by blast
qed

lemma clean_removal:
  assumes "transfer_and_clean ins sys cid name flags ip port user key True img h = ((None, notes), h')"
  shows "\<exists>ha save hb ssh hc. exec sys [''docker'', ''save'', img] ha = (save, hb) \<and> p_err save = None \<and>
    exec sys (restore_argv port (''/tmp/tug_mig_key_'' @ cid) user ip (remote_run_cmd name flags img)) hb = (ssh, hc) \<and> p_err ssh = None \<and>
    ran h' = ran hc @ [([], [''docker'', ''rm'', ''-f'', cid]), ([], [''docker'', ''rmi'', img])]"
proof -
  obtain size h1 where 1: "image_size sys img h = (size, h1)" by fastforce
  obtain er nt wrote h2 where 2: "transfer_image ins sys cid name flags ip port user key img h1 = (((er, nt), wrote), h2)"
    by (metis surj_pair)
  have er: "er = None" using assms 1 2 by (simp add: transfer_and_clean_def Let_def)
  let ?h3 = "snd (docker_combined sys [''rm'', ''-f'', cid] h2)"
  let ?h4 = "if wrote then snd (remove_file (''/tmp/tug_mig_key_'' @ cid) ?h3) else ?h3"
  have "h' = snd (docker_combined sys [''rmi'', img] ?h4)"
    using assms 1 2 er by (cases wrote) (simp_all add: transfer_and_clean_def Let_def)
  then have "ran h' = ran h2 @ [([], [''docker'', ''rm'', ''-f'', cid]), ([], [''docker'', ''rmi'', img])]"
    by (simp add: snd_docker_combined_ran)
  then show ?thesis using transfer_image_ok[OF 2[unfolded er]] by blast
qed

lemma migration_moved:
  assumes "migrate_container_to_target ins sys raw_id raw_ip raw_port raw_user raw_key True h = ((None, notes), h')"
  shows "\<exists>img hx out hy name flags user ha save hb ssh hc.
    docker_combined sys [''commit'', trim_space raw_id, img] hx = ((out, None), hy) \<and>
    exec sys [''docker'', ''save'', img] ha = (save, hb) \<and> p_err save = None \<and>
    exec sys (restore_argv (ssh_port raw_port) (''/tmp/tug_mig_key_'' @ trim_space raw_id) user (trim_space raw_ip)
      (remote_run_cmd name flags img)) hb = (ssh, hc) \<and> p_err ssh = None \<and>
    ran h' = ran hc @ [([], [''docker'', ''rm'', ''-f'', trim_space raw_id]), ([], [''docker'', ''rmi'', img])]"
proof -
  let ?cid = "trim_space raw_id" and ?user = "if trim_space raw_user = [] then ''root'' else trim_space raw_user"
  have ok: "\<not> (?cid = [] \<or> trim_space raw_ip = [] \<or> trim_space raw_key = [])"
    using assms by (auto simp: migrate_container_to_target_def Let_def)
  obtain r h1 where i: "inspect_for_migration ins sys ?cid h = (r, h1)" by fastforce
  obtain name flags where r: "r = Inr (name, flags)"
    using assms ok i by (cases r) (auto simp: migrate_container_to_target_def Let_def)
  define h2 where "h2 = snd (docker_combined sys [''stop'', ?cid] h1)"
  define img where "img = ''tug-migrated-'' @ ?cid @ '':'' @ itoa (clock h2 div 1000000000)"
  obtain out e3 h3 where c3: "docker_combined sys [''commit'', ?cid, img] h2 = ((out, e3), h3)" by (metis surj_pair)
  have e3: "e3 = None"
    using assms ok i r c3 by (cases e3) (simp_all add: migrate_container_to_target_def Let_def h2_def img_def)
  obtain er nt h4 where c4: "transfer_and_clean ins sys ?cid name flags (trim_space raw_ip) (ssh_port raw_port) ?user (trim_space raw_key) True img h3 = ((er, nt), h4)"
    by (metis surj_pair)
  have er: "er = None" "h' = h4"
    using assms ok i r c3 e3 c4 by (simp_all add: migrate_container_to_target_def Let_def h2_def img_def)
  note c3[unfolded e3]
  moreover note clean_removal[OF c4[unfolded er(1)], folded er(2)]
  ultimately show ?thesis by blast
qed

text \<open>
  C18: A migration never loses the container it moves, and never brings it back. Whatever docker and
  ssh answer, every command it runs on the source is an inspection, a stop, a commit, a save, the
  removal of its own temporary image or the ssh session, except for the removal of the container. That is
  run only in move mode, when the migration ends without an error, and after the transfer: the commit of the image
  succeeded, \<open>docker save\<close> of that image ended without an error, and so did the ssh session that was given the
  restoring script, which is the last command before the removal; the script leaves with an error unless the far end
  sees the container running. No start is among the commands, so a migration that fails after the stop, and
  one that only copies, leaves the source container stopped.
\<close>

theorem migration_removes_only_after_success:
  assumes "migrate_container_to_target ins sys raw_id raw_ip raw_port raw_user raw_key move_mode h = ((err, notes), h')"
    and "argv \<in> set (ran_since h h')" and "hd argv \<noteq> ''ssh''"
  shows "(\<exists>sub args. argv = ''docker'' # sub # args \<and> sub \<in> {''inspect'', ''stop'', ''commit'', ''image'', ''save'', ''rmi''}) \<or>
    (argv = [''docker'', ''rm'', ''-f'', trim_space raw_id] \<and> err = None \<and> move_mode \<and>
     (\<exists>img hx out hy name flags user ha save hb ssh hc.
        docker_combined sys [''commit'', trim_space raw_id, img] hx = ((out, None), hy) \<and>
        exec sys [''docker'', ''save'', img] ha = (save, hb) \<and> p_err save = None \<and>
        exec sys (restore_argv (ssh_port raw_port) (''/tmp/tug_mig_key_'' @ trim_space raw_id) user (trim_space raw_ip)
          (remote_run_cmd name flags img)) hb = (ssh, hc) \<and> p_err ssh = None \<and>
        ran h' = ran hc @ [([], [''docker'', ''rm'', ''-f'', trim_space raw_id]), ([], [''docker'', ''rmi'', img])]))"
proof -
  obtain cs where cs: "ran h' = ran h @ map (Pair []) cs" "list_all (migration_step (trim_space raw_id) (err = None \<and> move_mode)) cs"
    using migrate_steps[OF assms(1)] unfolding ran_only_def by blast
  have "argv \<in> set cs" using assms(2) by (auto simp: ran_since_def cs(1) comp_def)
  then have step: "migration_step (trim_space raw_id) (err = None \<and> move_mode) argv" using cs(2) by (simp add: list_all_iff)
  show ?thesis
  proof (cases "harmless argv")
    case True
    then show ?thesis using assms(3) by (auto simp: harmless_def)
  next
    case False
    then have gone: "argv = [''docker'', ''rm'', ''-f'', trim_space raw_id]" "err = None" "move_mode"
      using step by (simp_all add: migration_step_def)
    then have "migrate_container_to_target ins sys raw_id raw_ip raw_port raw_user raw_key True h = ((None, notes), h')"
      using assms(1) by simp
    from migration_moved[OF this] show ?thesis using gone by blast
  qed
qed

text \<open>A migration to a machine that takes everything, in move mode.\<close>

definition willing :: sys where
  "willing c h = (\<lparr>p_out = ''/web'', p_all = ''RESTORED_CID:abc'', p_err = None\<rparr>, h)"

definition plain_inspecting :: inspecting where
  "plain_inspecting = \<lparr>decode_inspect = (\<lambda>_. None), size_line = (\<lambda>_. ''Committed''), transfer_lines = (\<lambda>_. [])\<rparr>"

theorem migration_removes_only_after_success_witness:
  "fst (fst (migrate_container_to_target plain_inspecting willing ''c1'' ''192.0.2.9'' 0 [] ''k'' True (bare_host\<lparr>tree := [([''tmp''], Dir)]\<rparr>))) = None \<and>
   (\<exists>img pre. ran (snd (migrate_container_to_target plain_inspecting willing ''c1'' ''192.0.2.9'' 0 [] ''k'' True (bare_host\<lparr>tree := [([''tmp''], Dir)]\<rparr>))) =
      pre @ [([], [''docker'', ''rm'', ''-f'', ''c1'']), ([], [''docker'', ''rmi'', img])])"
proof -
  let ?h = "bare_host\<lparr>tree := [([''tmp''], Dir)]\<rparr>"
  let ?m = "migrate_container_to_target plain_inspecting willing ''c1'' ''192.0.2.9'' 0 [] ''k'' True ?h"
  obtain err ls h' where m: "?m = ((err, ls), h')" by (metis surj_pair)
  have t: "trim_space ''c1'' = ''c1''" "trim_space ''192.0.2.9'' = ''192.0.2.9''" "trim_space ''k'' = ''k''" "trim_space ''/web'' = ''/web''"
    by (simp_all add: model_defs)
  have w: "\<And>h2. tree h2 = [([''tmp''], Dir)] \<Longrightarrow> faults h2 = [] \<Longrightarrow> cwd h2 = [] \<Longrightarrow>
      write_file ''/tmp/tug_mig_key_c1'' [CHR ''k'', newline] h2 = (None, put_node [''tmp'', ''tug_mig_key_c1''] (File [CHR ''k'', newline]) (pop_fault h2))"
    by (simp add: model_defs)
  have "[''docker'', ''rm'', ''-f'', ''c1''] \<in> set (ran_since ?h (snd ?m))"
    by (simp add: migrate_container_to_target_def inspect_for_migration_def docker_output_def docker_combined_def exec_def exec_in_def
        willing_def plain_inspecting_def t transfer_and_clean_def image_size_def transfer_image_def start_error_def w ran_since_def Let_def)
  then have "[''docker'', ''rm'', ''-f'', ''c1''] \<in> set (ran_since ?h h')" using m by simp
  from migration_removes_only_after_success[OF m this] show ?thesis using m t by auto
qed

section \<open>The key goes in and out\<close>

lemma keys_without_added:
  assumes "\<not> contains old key" and "newline \<notin> set key" and "trim_space key = key" and "key \<noteq> []"
  shows "keys_without key (old @ newline # key @ [newline]) = join [newline] (filter (\<lambda>l. trim_space l \<noteq> []) (split_on newline old))"
proof -
  have sp: "split_on newline (old @ newline # key @ [newline]) = split_on newline old @ [key, []]"
    by (simp add: split_on_append_general split_on_append_sep[OF assms(2), of "[]"] split_on_single[OF assms(2)])
  have "\<not> contains l key" if "l \<in> set (split_on newline old)" for l
  proof -
    have "\<exists>a b. old = a @ l @ b" using that by (rule split_line_inside)
    then show ?thesis using assms(1) unfolding contains_iff by (metis append.assoc)
  qed
  then have "filter (\<lambda>l. trim_space l \<noteq> [] \<and> \<not> contains l key) (split_on newline old) = filter (\<lambda>l. trim_space l \<noteq> []) (split_on newline old)"
    by (auto intro: filter_cong)
  moreover have "contains key key" unfolding contains_iff by (metis append_Nil append_Nil2)
  ultimately show ?thesis by (simp add: keys_without_def sp)
qed

text \<open>What installing a key did, and that a key that is there is not installed again.\<close>

lemma key_user:
  assumes "lookup_user acc (trim_space user) = Some u" and "trim_space user \<noteq> []"
  shows "migration_target_user acc sys user h =
    ((ac_name u, path_join [ac_home u, ''.ssh''], scanned (ac_uid u), scanned (ac_gid u)), h)"
  using assms by (simp add: migration_target_user_def owner_of_def)

lemma installed_key:
  assumes user: "lookup_user acc (trim_space user) = Some u" "trim_space user \<noteq> []"
    and key: "trim_space raw \<noteq> []" and calm: "faults h = []"
    and old: "file_at h (loc h (path_join [path_join [ac_home u, ''.ssh''], ''authorized_keys''])) = Some old" "\<not> contains old (trim_space raw)"
    and run: "prepare_migration_target_key acc sys raw user h = (Inr name, h1)"
  shows "file_at h1 = (file_at h)(loc h (path_join [path_join [ac_home u, ''.ssh''], ''authorized_keys'']) \<mapsto> old @ newline # trim_space raw @ [newline]) \<and>
    loc h1 = loc h \<and> faults h1 = [] \<and> name = ac_name u"
proof -
  let ?dir = "path_join [ac_home u, ''.ssh'']"
  let ?p = "path_join [?dir, ''authorized_keys'']" and ?key = "trim_space raw"
  note target = key_user[OF user, of sys]
  obtain r ha where m: "mkdir_all ?dir h = (r, ha)" by fastforce
  note ma = mkdir_all_NoneD[OF m]
  have r: "r = None" using run key target m by (cases r) (auto simp: prepare_migration_target_key_def)
  have la: "loc ha = loc h" using ma by (intro loc_fun_cong) simp
  have rd: "read_file ?p ha = (Inr old, pop_fault ha)"
    by (rule read_file_found) (use ma calm old(1) la in simp_all)
  obtain e hc where w: "append_file ?p (newline # ?key @ [newline]) (pop_fault ha) = (e, hc)" by fastforce
  have e: "e = None \<and> hc = h1 \<and> name = ac_name u"
    using run key old(2) target m r rd w by (cases e) (auto simp: prepare_migration_target_key_def)
  then have "write_with (\<lambda>t. t) ?p (newline # ?key @ [newline]) (pop_fault ha) = (None, h1)"
    using w by (simp add: append_file_def)
  note d = write_with_NoneD[OF this]
  have hb: "loc (pop_fault ha) = loc h" "file_at (pop_fault ha) = file_at h" using la ma loc_fun_cong[of "pop_fault ha" ha] by simp_all
  have "loc h1 = loc (pop_fault ha)" using d by (intro loc_fun_cong) simp
  then show ?thesis using d hb old(1) ma calm e by simp
qed

lemma present_key_not_installed:
  assumes user: "lookup_user acc (trim_space user) = Some u" "trim_space user \<noteq> []"
    and key: "trim_space raw \<noteq> []" and calm: "faults h = []"
    and there: "file_at h (loc h (path_join [path_join [ac_home u, ''.ssh''], ''authorized_keys''])) = Some text" "contains text (trim_space raw)"
  shows "file_at (snd (prepare_migration_target_key acc sys raw user h)) = file_at h"
proof -
  let ?dir = "path_join [ac_home u, ''.ssh'']"
  obtain r hd where m: "mkdir_all ?dir h = (r, hd)" by fastforce
  note md = mkdir_all_NoneD[OF m]
  have "loc hd = loc h" using md by (intro loc_fun_cong) simp
  then have "read_file (path_join [?dir, ''authorized_keys'']) hd = (Inr text, pop_fault hd)"
    by (intro read_file_found) (use md calm there(1) in simp_all)
  then show ?thesis
    using key there(2) key_user[OF user, of sys] m md by (cases r) (simp_all add: prepare_migration_target_key_def)
qed

text \<open>
  C24: The clean-up of a migration key undoes its installation. For a user that exists, on a machine
  where no file operation fails, installing a key and then removing it gives the authorized keys
  back as they were, apart from blank lines, and installing it a second time changes nothing.
\<close>

theorem migration_key_roundtrip:
  assumes "lookup_user acc (trim_space user) = Some u" and "trim_space user \<noteq> []"
    and "key = trim_space raw" and "key \<noteq> []" and "newline \<notin> set key"
    and "faults h = []" and "file_at h (loc h (path_join [path_join [ac_home u, ''.ssh''], ''authorized_keys''])) = Some old"
    and "\<not> contains old key"
    and "prepare_migration_target_key acc sys raw user h = (Inr name, h1)"
    and "cleanup_migration_target_key acc sys raw user h1 = (None, h2)"
  shows "file_at h2 (loc h (path_join [path_join [ac_home u, ''.ssh''], ''authorized_keys''])) =
      Some (join [newline] (filter (\<lambda>l. trim_space l \<noteq> []) (split_on newline old))) \<and>
    file_at (snd (prepare_migration_target_key acc sys raw user h1)) = file_at h1 \<and> name = ac_name u"
proof -
  let ?p = "path_join [path_join [ac_home u, ''.ssh''], ''authorized_keys'']"
  let ?new = "old @ newline # key @ [newline]"
  have key: "trim_space raw = key" "trim_space key = key" using assms(3) by simp_all
  have f1: "file_at h1 = (file_at h)(loc h ?p \<mapsto> ?new)" "loc h1 = loc h" "faults h1 = []" "name = ac_name u"
    using installed_key[OF assms(1,2) _ assms(6,7) _ assms(9)] assms(4,8) key(1) by simp_all
  have rd1: "read_file ?p h1 = (Inr ?new, pop_fault h1)"
    by (rule read_file_found) (use f1 in simp_all)
  have c: "write_file ?p (keys_without key ?new) (pop_fault h1) = (None, h2)"
    using assms(4,10) key_user[OF assms(1,2), of sys] key rd1 by (simp add: cleanup_migration_target_key_def)
  have l2: "loc (pop_fault h1) = loc h" using f1(2) loc_fun_cong[of "pop_fault h1" h1] by simp
  have "file_at h2 (loc h ?p) = Some (keys_without key ?new)"
    using write_with_NoneD[OF c[unfolded write_file_def]] l2 f1 by (simp split: option.split)
  then have kept: "file_at h2 (loc h ?p) = Some (join [newline] (filter (\<lambda>l. trim_space l \<noteq> []) (split_on newline old)))"
    using keys_without_added[OF assms(8,5) key(2) assms(4)] by simp
  have "contains ?new key" unfolding contains_iff by (intro exI[of _ "old @ [newline]"] exI[of _ "[newline]"]) simp
  then have "file_at (snd (prepare_migration_target_key acc sys raw user h1)) = file_at h1"
    using present_key_not_installed[OF assms(1,2) _ f1(3), of raw ?new sys] assms(4) key(1) f1(1,2) by simp
  then show ?thesis using kept f1(4) by blast
qed

theorem migration_key_roundtrip_witness:
  "let h = bare_host\<lparr>tree := [([''r''], Dir), ([''r'', ''.ssh''], Dir), ([''r'', ''.ssh'', ''authorized_keys''], File ''a'')]\<rparr>;
       acc = \<lparr>lookup_user = (\<lambda>_. Some \<lparr>ac_name = ''u'', ac_home = ''/r'', ac_uid = [], ac_gid = []\<rparr>), current_user = None\<rparr>
   in file_at (snd (cleanup_migration_target_key acc willing ''k'' ''u''
          (snd (prepare_migration_target_key acc willing ''k'' ''u'' h)))) [''r'', ''.ssh'', ''authorized_keys''] = Some ''a''"
proof -
  let ?h = "bare_host\<lparr>tree := [([''r''], Dir), ([''r'', ''.ssh''], Dir), ([''r'', ''.ssh'', ''authorized_keys''], File ''a'')]\<rparr>"
  let ?u = "\<lparr>ac_name = ''u'', ac_home = ''/r'', ac_uid = [], ac_gid = []\<rparr>"
  let ?acc = "\<lparr>lookup_user = (\<lambda>_. Some ?u), current_user = None\<rparr>"
  let ?p = "path_join [path_join [ac_home ?u, ''.ssh''], ''authorized_keys'']"
  have p: "?p = ''/r/.ssh/authorized_keys''" "path_join [''/r'', ''.ssh''] = ''/r/.ssh''" by (simp_all add: model_defs)
  have k: "trim_space ''u'' = ''u''" "trim_space ''k'' = ''k''" by (simp_all add: model_defs)
  have l: "loc ?h ?p = [''r'', ''.ssh'', ''authorized_keys'']" unfolding p by (simp add: model_defs)
  have f: "file_at ?h (loc ?h ?p) = Some ''a''" unfolding l by (simp add: file_at_def node_at_def)
  let ?h1 = "?h\<lparr>tree := [([''r''], Dir), ([''r'', ''.ssh''], Dir), ([''r'', ''.ssh'', ''authorized_keys''], File [CHR ''a'', newline, CHR ''k'', newline])]\<rparr>"
  let ?h2 = "?h\<lparr>tree := [([''r''], Dir), ([''r'', ''.ssh''], Dir), ([''r'', ''.ssh'', ''authorized_keys''], File ''a'')]\<rparr>"
  have p1: "prepare_migration_target_key ?acc willing ''k'' ''u'' ?h = (Inr ''u'', ?h1)"
    by (simp add: prepare_migration_target_key_def migration_target_user_def owner_of_def scanned_def k p model_defs)
  have c1: "cleanup_migration_target_key ?acc willing ''k'' ''u'' ?h1 = (None, ?h2)"
    by (simp add: cleanup_migration_target_key_def migration_target_user_def owner_of_def scanned_def keys_without_def k p model_defs)
  have "file_at ?h2 (loc ?h ?p) = Some (join [newline] (filter (\<lambda>l. trim_space l \<noteq> []) (split_on newline ''a'')))"
    by (rule conjunct1[OF migration_key_roundtrip[OF _ _ k(2)[symmetric] _ _ _ f _ p1 c1]]) (simp_all add: k has_prefix_def)
  then show ?thesis using p1 c1 l by (simp add: k model_defs)
qed

end
