(* ===== verification/Pairing.thy ===== *)
theory Pairing
  imports Config Compose Migration
begin

text \<open>
  How a machine learns who it is: \<open>internal/pairing\<close> (the exchange of a typed code for a credential),
  \<open>cmd/agent/init.go\<close> (\<open>tug init\<close> and the start of the service) and the settings file as
  \<open>cmd/agent/main.go\<close> loads it. The answers of the control plane, the JSON of the exchange and the
  keyboard are parameters.
\<close>

section \<open>The exchange (pairing.go)\<close>

record credential =
  cd_server :: string
  cd_token :: string
  cd_ws_url :: string

record claim_machine =
  mc_code :: string
  mc_host_name :: string
  mc_os :: string
  mc_arch :: string

record http_answer =
  ha_status :: int
  ha_body :: string
  ha_length :: int

text \<open>
  What the exchange relies on: the name of the machine (\<open>None\<close> when the system has none), the encoder, the check of the address, the
  request itself, the decoders of its answers and the texts of the status codes.
\<close>

record web =
  wb_hostname :: "string option"
  wb_os :: string
  wb_arch :: string
  wb_encode :: "claim_machine \<Rightarrow> (go_error, string) result"
  wb_build :: "string \<Rightarrow> go_error option"
  wb_post :: "string \<Rightarrow> string \<Rightarrow> (go_error, http_answer) result"
  wb_credential :: "string \<Rightarrow> (go_error, credential) result"
  wb_reason :: "string \<Rightarrow> (string \<times> string) option"
  wb_status_text :: "int \<Rightarrow> string"

definition err_refused :: go_error where
  "err_refused = Sentinel ''the code was not accepted''"

definition refusal_reason :: "web \<Rightarrow> http_answer \<Rightarrow> string" where
  "refusal_reason w r =
     (case wb_reason w (ha_body r) of
        None \<Rightarrow> wb_status_text w (ha_status r)
      | Some (message, err) \<Rightarrow>
          (if message \<noteq> [] then message else if err \<noteq> [] then err else wb_status_text w (ha_status r)))"

definition claim_endpoint :: "string \<Rightarrow> string" where
  "claim_endpoint base = trim_right_by (\<lambda>c. c = slash) (trim_space base) @ ''/v1/install/claim''"

definition claim :: "web \<Rightarrow> string \<Rightarrow> string \<Rightarrow> (go_error, credential) result" where
  "claim w base pin =
     (case wb_encode w \<lparr>mc_code = trim_space pin, mc_host_name = (case wb_hostname w of None \<Rightarrow> [] | Some n \<Rightarrow> n),
             mc_os = wb_os w, mc_arch = wb_arch w\<rparr> of
        Inl e \<Rightarrow> Inl (Wrapf ''cannot encode the pairing request: '' e [])
      | Inr payload \<Rightarrow>
          (case wb_build w (claim_endpoint base) of
             Some e \<Rightarrow> Inl (Wrapf ''cannot build the pairing request: '' e [])
           | None \<Rightarrow>
               (case wb_post w (claim_endpoint base) payload of
                  Inl e \<Rightarrow> Inl (Wrapf (''cannot reach '' @ claim_endpoint base @ '': '') e [])
                | Inr r \<Rightarrow>
                    (if ha_status r = 401 \<or> ha_status r = 429
                     then Inl (Wrapf [] err_refused ('': '' @ refusal_reason w r))
                     else if ha_status r \<noteq> 200
                     then Inl (Msg (''the server answered '' @ itoa (ha_status r) @ '': '' @ refusal_reason w r))
                     else (case wb_credential w (ha_body r) of
                             Inl e \<Rightarrow> Inl (Wrapf ''cannot read the pairing response: '' e [])
                           | Inr c \<Rightarrow>
                               (if cd_server c = [] \<or> cd_token c = [] then Inl (Msg ''the pairing response was incomplete'')
                                else Inr c))))))"

section \<open>The keyboard (prompt.go)\<close>

definition code_digits :: nat where "code_digits = 6"

definition err_no_terminal :: go_error where
  "err_no_terminal = Sentinel ''no terminal to ask for the code''"

definition normalize_code :: "string \<Rightarrow> string" where
  "normalize_code raw = filter is_digit raw"

text \<open>A terminal is absent, or answers one line with the error of reading it (the end of input is none).\<close>

type_synonym terminal_line = "(string \<times> go_error option) option"

definition ask :: "terminal_line \<Rightarrow> string \<Rightarrow> (go_error, string) result \<times> string list" where
  "ask tty dashboard =
     (case tty of
        None \<Rightarrow> (Inl err_no_terminal, [])
      | Some (line, err) \<Rightarrow>
          ((case err of
              Some e \<Rightarrow> Inl (Wrapf ''cannot read the code: '' e [])
            | None \<Rightarrow>
                (let pin = normalize_code line in
                 if length pin \<noteq> code_digits
                 then Inl (Msg (''a code is '' @ nat_dec code_digits @ '' digits; got '' @ nat_dec (length pin)))
                 else Inr pin)),
           [''Add a server at '' @ dashboard @ '' and it shows a '' @ nat_dec code_digits @ '' digit code.'' @ [newline]]))"

section \<open>Which code, which credential (init.go)\<close>

definition valid_code :: "string \<Rightarrow> (go_error, string) result" where
  "valid_code raw =
     (let pin = normalize_code raw in
      if length pin \<noteq> code_digits
      then Inl (Msg (''a pairing code is '' @ nat_dec code_digits @ '' digits; got '' @ go_quote raw))
      else Inr pin)"

definition positional_arguments :: "string list \<Rightarrow> string list" where
  "positional_arguments args =
     filter (\<lambda>a. a \<noteq> [] \<and> \<not> has_prefix a ''-'') (map trim_space (drop 1 args))"

definition pairing_code ::
  "terminal_line \<Rightarrow> config \<Rightarrow> string list \<Rightarrow> host \<Rightarrow> (go_error, string) result \<times> string list" where
  "pairing_code tty cfg positional h =
     (if length positional = 1 then (valid_code (positional ! 0), [])
      else if trim_space (getenv h ''TUG_CODE'') \<noteq> [] then (valid_code (trim_space (getenv h ''TUG_CODE'')), [])
      else (case ask tty (cf_dashboard cfg) of
              (Inl e, printed) \<Rightarrow>
                (if errors_as (\<lambda>x. x = err_no_terminal) e
                 then (Inl (Msg (''there is no terminal to ask for the pairing code.'' @ [newline] @
                        ''Add a server at '' @ cf_dashboard cfg @ '' and pass the code it shows:'' @ [newline] @
                        ''  sudo TUG_CODE=418302 tug init'')), printed)
                 else (Inl e, printed))
            | (Inr pin, printed) \<Rightarrow> (Inr pin, printed)))"

text \<open>
  The caller's configuration is not changed: \<open>cfg\<close> is passed by value, so the socket address of
  the credential is assigned to a copy that ends with the function.
\<close>

definition resolve_pairing ::
  "web \<Rightarrow> terminal_line \<Rightarrow> config \<Rightarrow> string list \<Rightarrow> host \<Rightarrow> (go_error, string \<times> string) result \<times> string list" where
  "resolve_pairing w tty cfg args h =
     (let positional = positional_arguments args in
      if length positional \<ge> 2 then (Inr (positional ! 0, positional ! 1), [])
      else (case pairing_code tty cfg positional h of
              (Inl e, printed) \<Rightarrow> (Inl e, printed)
            | (Inr pin, printed) \<Rightarrow>
                (case claim w (cf_api_url cfg) pin of
                   Inl e \<Rightarrow> (Inl e, printed)
                 | Inr c \<Rightarrow> (Inr (cd_server c, cd_token c), printed))))"

section \<open>The settings file (init.go, main.go)\<close>

definition default_ws_url :: string where
  "default_ws_url = ''wss://api.tug.sh/ws/agents''"

definition agent_env_lines :: "config \<Rightarrow> string \<Rightarrow> string \<Rightarrow> string list" where
  "agent_env_lines cfg server token =
     [''TUG_SERVER_ID='' @ server, ''TUG_AGENT_TOKEN='' @ token] @
     (if cf_ws_url cfg \<noteq> [] \<and> cf_ws_url cfg \<noteq> default_ws_url then [''TUG_API_WS_URL='' @ cf_ws_url cfg] else []) @
     [[]]"

definition write_agent_env :: "path \<Rightarrow> config \<Rightarrow> string \<Rightarrow> string \<Rightarrow> host \<Rightarrow> go_error option \<times> host" where
  "write_agent_env p cfg server token h =
     (if trim_space p = [] then (Some (Msg ''the agent environment path is empty''), h)
      else (case mkdir_all (path_dir p) h of
              (Some e, h1) \<Rightarrow> (Some (Wrapf ''cannot create the settings directory: '' e []), h1)
            | (None, h1) \<Rightarrow>
                (case write_file p (join [newline] (agent_env_lines cfg server token)) h1 of
                   (Some e, h2) \<Rightarrow> (Some (Wrapf ''cannot write the settings file: '' e []), h2)
                 | (None, h2) \<Rightarrow> (None, h2))))"

text \<open>One line: the variable it sets, if it is not blank, a comment, or without a name.\<close>

definition env_line :: "string \<Rightarrow> (string \<times> string) option" where
  "env_line raw =
     (let line = trim_space raw in
      if line = [] \<or> has_prefix line ''#'' then None
      else (case cut line ''='' of
              None \<Rightarrow> None
            | Some (k, v) \<Rightarrow> (if trim_space k = [] then None else Some (trim_space k, trim_space v))))"

text \<open>The variables of a file, the last line of a name winning.\<close>

definition env_vars :: "string list \<Rightarrow> (string \<times> string) list" where
  "env_vars ls = foldl (\<lambda>vs l. case env_line l of None \<Rightarrow> vs | Some (k, v) \<Rightarrow> AList.update k v vs) [] ls"

definition read_agent_env :: "path \<Rightarrow> host \<Rightarrow> (go_error, (string \<times> string) list) result \<times> host" where
  "read_agent_env p h =
     (if trim_space p = [] then (Inr [], h)
      else (case read_file p h of
              (Inl e, h1) \<Rightarrow>
                (if errors_as is_not_exist e then (Inr [], h1)
                 else (Inl (Wrapf ''cannot read the settings file: '' e []), h1))
            | (Inr content, h1) \<Rightarrow> (Inr (env_vars (split_on newline content)), h1)))"

text \<open>\<open>os.Setenv\<close> refuses an empty name, a name with an equals sign and a zero byte.\<close>

definition os_setenv :: "string \<Rightarrow> string \<Rightarrow> host \<Rightarrow> go_error option \<times> host" where
  "os_setenv k v h =
     (if k = [] \<or> CHR ''='' \<in> set k \<or> CHR 0x00 \<in> set k \<or> CHR 0x00 \<in> set v
      then (Some (IOError ''setenv: invalid argument''), h) else (None, setenv k v h))"

fun first_present :: "path list \<Rightarrow> path list \<Rightarrow> host \<Rightarrow> path \<times> host" where
  "first_present seen [] h = ([], h)"
| "first_present seen (raw # cs) h =
     (let c = trim_space raw in
      if c = [] \<or> c \<in> set seen then first_present seen cs h
      else (case Host.stat c h of
              (Inr _, h1) \<Rightarrow> (c, h1)
            | (Inl _, h1) \<Rightarrow> first_present (c # seen) cs h1))"

definition default_env_path :: path where "default_env_path = ''/etc/tug/agent.env''"

definition agent_env_path :: "host \<Rightarrow> path \<times> host" where
  "agent_env_path h =
     (let configured = trim_space (getenv h ''TUG_AGENT_ENV_PATH'');
          (p, h1) = first_present [] ((if configured \<noteq> [] then [configured] else []) @ [default_env_path, ''./agent.env'']) h
      in (if p \<noteq> [] then p else if configured \<noteq> [] then configured else default_env_path, h1))"

text \<open>A variable that is already set is kept.\<close>

fun apply_env :: "path \<Rightarrow> string list \<Rightarrow> host \<Rightarrow> go_error option \<times> host" where
  "apply_env p [] h = (None, h)"
| "apply_env p (l # ls) h =
     (case env_line l of
        None \<Rightarrow> apply_env p ls h
      | Some (k, v) \<Rightarrow>
          (if getenv h k \<noteq> [] then apply_env p ls h
           else (case os_setenv k v h of
                   (Some e, h1) \<Rightarrow> (Some (Wrapf (''cannot set '' @ k @ '' from '' @ p @ '': '') e []), h1)
                 | (None, h1) \<Rightarrow> apply_env p ls h1)))"

definition scanner_limit :: nat where "scanner_limit = 64 * 1024"

text \<open>Opening the file takes the fault; a directory opens and fails to read.\<close>

definition load_agent_env_file :: "host \<Rightarrow> go_error option \<times> host" where
  "load_agent_env_file h =
     (let (p, h1) = agent_env_path h;
          h2 = snd (os_setenv ''TUG_AGENT_ENV_PATH'' p h1);
          h3 = pop_fault h2
      in if fault_of h2 \<noteq> Fine then (Some (Wrapf (''cannot open '' @ p @ '': '') (IOError p) []), h3)
         else if dir_at h2 (loc h2 p) then (Some (Wrapf (''cannot read '' @ p @ '': '') (IOError p) []), h3)
         else (case file_at h2 (loc h2 p) of
                 None \<Rightarrow> (None, h3)
               | Some content \<Rightarrow>
                   (let (ls, left) = scan_lines scanner_limit content in
                    case apply_env p ls h3 of
                      (Some e, h4) \<Rightarrow> (Some e, h4)
                    | (None, h4) \<Rightarrow>
                        (if left \<noteq> [] then (Some (Wrapf (''cannot read '' @ p @ '': '') (Sentinel ''bufio.Scanner: token too long'') []), h4)
                         else (None, h4)))))"

section \<open>Starting the service (init.go)\<close>

definition first_executable :: "host \<Rightarrow> string list \<Rightarrow> path" where
  "first_executable h names =
     (case find (\<lambda>n. case look_path h n of Some p \<Rightarrow> trim_space p \<noteq> [] | None \<Rightarrow> False) names of
        Some n \<Rightarrow> the (look_path h n)
      | None \<Rightarrow> [])"

text \<open>\<open>self\<close> is the executable of the running agent. A process that cannot be started has an error.\<close>

definition try_start_detached :: "sys \<Rightarrow> path option \<Rightarrow> string \<Rightarrow> host \<Rightarrow> string \<times> host" where
  "try_start_detached sys self reason h =
     (let found = first_executable h [''tug-agent'', ''tug''];
          binary = (if found \<noteq> [] then found else case self of Some c \<Rightarrow> trim_space c | None \<Rightarrow> [])
      in if binary = [] then (reason @ ''; start the agent yourself with: sudo systemctl restart tug-agent'', h)
         else (let (r, h1) = exec sys [binary] h in
               (case start_error r of
                  Some _ \<Rightarrow> reason @ ''; the fallback start failed too''
                | None \<Rightarrow> reason @ ''; started '' @ binary @ '' in the background.'', h1)))"

definition try_start_agent_service :: "sys \<Rightarrow> path option \<Rightarrow> host \<Rightarrow> string \<times> host" where
  "try_start_agent_service sys self h =
     (if look_path h ''systemctl'' = None then try_start_detached sys self ''systemctl is not available'' h
      else (let (_, h1) = exec sys [''systemctl'', ''daemon-reload''] h;
                (_, h2) = exec sys [''systemctl'', ''enable'', ''tug-agent.service''] h1;
                (r, h3) = exec sys [''systemctl'', ''restart'', ''tug-agent.service''] h2
            in (case p_err r of
                  Some _ \<Rightarrow> ''systemctl restart failed: '' @ trim_space (p_all r) @ ''; run: sudo systemctl restart tug-agent''
                | None \<Rightarrow> ''tug-agent.service started.'', h3)))"

definition run_init ::
  "web \<Rightarrow> terminal_line \<Rightarrow> sys \<Rightarrow> path option \<Rightarrow> config \<Rightarrow> string list \<Rightarrow> host \<Rightarrow> (go_error option \<times> string list) \<times> host" where
  "run_init w tty sys self cfg args h =
     (case resolve_pairing w tty cfg args h of
        (Inl e, printed) \<Rightarrow> ((Some e, printed), h)
      | (Inr (server, token), printed) \<Rightarrow>
          (case write_agent_env (cf_env_path cfg) cfg server token h of
             (Some e, h1) \<Rightarrow> ((Some e, printed), h1)
           | (None, h1) \<Rightarrow>
               (let (message, h2) = try_start_agent_service sys self h1 in
                ((None, printed @
                   [[newline, CHR 0x1B] @ ''[1;32m'' @ [CHR 0xE2, CHR 0x9C, CHR 0x94] @ '' This machine is now paired.'' @ [CHR 0x1B] @ ''[0m'' @ [newline],
                    ''   server id: '' @ server @ [newline], ''   settings:  '' @ cf_env_path cfg @ [newline]] @
                   (if message \<noteq> [] then [''   '' @ message @ [newline]] else []) @ [[newline]]), h2))))"

definition run_start :: "sys \<Rightarrow> path option \<Rightarrow> config \<Rightarrow> host \<Rightarrow> (go_error option \<times> string list) \<times> host" where
  "run_start sys self cfg h =
     (if trim_space (cf_server cfg) = [] \<or> trim_space (cf_token cfg) = []
      then ((Some (Msg ''this machine is not paired yet; run: sudo tug init''), []), h)
      else (let (message, h1) = try_start_agent_service sys self h in
            ((None, [''Starting the tug agent service...'' @ [newline], ''   '' @ message @ [newline]]), h1)))"

section \<open>What pairing stores is what the agent loads\<close>

definition clean_value :: "string \<Rightarrow> bool" where
  "clean_value v \<longleftrightarrow> v \<noteq> [] \<and> trim_space v = v \<and> newline \<notin> set v \<and> CHR 0x00 \<notin> set v"

lemma trimmed_ends: "trim_space v = v \<Longrightarrow> v \<noteq> [] \<Longrightarrow> \<not> is_space (hd v) \<and> \<not> is_space (last v)"
  by (metis trim_space_def trim_by_hd trim_by_last list.exhaust_sel append_butlast_last_id)

lemma trim_space_id: "s \<noteq> [] \<Longrightarrow> \<not> is_space (hd s) \<Longrightarrow> \<not> is_space (last s) \<Longrightarrow> trim_space s = s"
proof -
  assume s: "s \<noteq> []" "\<not> is_space (hd s)" "\<not> is_space (last s)"
  have "dropWhile is_space s = s" using s by (cases s) auto
  moreover have "dropWhile is_space (rev s) = rev s" using s by (cases "rev s") (auto simp: last_rev hd_rev[symmetric])
  ultimately show ?thesis by (simp add: trim_space_def trim_by_def trim_right_by_def)
qed

lemma cut_at_sep: "CHR ''='' \<notin> set k \<Longrightarrow> cut (k @ CHR ''='' # v) ''='' = Some (k, v)"
proof -
  assume k: "CHR ''='' \<notin> set k"
  have "str_index (k @ CHR ''='' # v) ''='' = Some (length k)"
    using k by (induction k) (auto simp: has_prefix_def)
  then show ?thesis by (simp add: cut_def)
qed

definition env_name :: "string \<Rightarrow> bool" where
  "env_name k \<longleftrightarrow> k \<noteq> [] \<and> list_all (\<lambda>c. \<not> is_space c \<and> c \<noteq> CHR ''='' \<and> c \<noteq> CHR ''#'' \<and> c \<noteq> CHR 0x00) k"

lemma env_name_trim: "env_name k \<Longrightarrow> trim_space k = k"
  by (rule trim_space_id) (auto simp: env_name_def list_all_iff)

lemma env_line_set:
  assumes "env_name k" and "clean_value v"
  shows "env_line (k @ CHR ''='' # v) = Some (k, v)"
proof -
  have v: "v \<noteq> []" "trim_space v = v" "\<not> is_space (last v)"
    using assms(2) trimmed_ends by (auto simp: clean_value_def)
  have k: "k \<noteq> []" "\<not> is_space (hd k)" "hd k \<noteq> CHR ''#''" "CHR ''='' \<notin> set k"
    using assms(1) by (auto simp: env_name_def list_all_iff)
  have "trim_space (k @ CHR ''='' # v) = k @ CHR ''='' # v"
    using k v by (intro trim_space_id) auto
  moreover have "\<not> has_prefix (k @ CHR ''='' # v) ''#''" using k(1,3) by (cases k) (auto simp: has_prefix_def)
  ultimately show ?thesis
    using k v env_name_trim[OF assms(1)] by (simp add: env_line_def cut_at_sep Let_def)
qed

lemma env_line_Nil: "env_line [] = None"
  by (simp add: env_line_def)

lemma drop_cr_id: "\<not> is_space (last l) \<Longrightarrow> drop_cr l = l"
  by (auto simp: drop_cr_def is_space_def)

lemma scan_lines_Cons:
  assumes "newline \<notin> set l" and "length l < lim" and "scan_lines lim rest = (ls, left)"
  shows "scan_lines lim (l @ newline # rest) = (drop_cr l # ls, left)"
proof -
  have "takeWhile (\<lambda>c. c \<noteq> newline) (l @ newline # rest) = l"
    using assms(1) by (subst takeWhile_append2) auto
  then show ?thesis using assms by (simp add: scan_lines.simps[of lim "l @ newline # rest"])
qed

lemma scan_lines_join:
  assumes "list_all (\<lambda>l. newline \<notin> set l \<and> length l < lim \<and> drop_cr l = l) ls"
  shows "scan_lines lim (join [newline] (ls @ [[]])) = (ls, [])"
  using assms
proof (induction ls)
  case Nil
  show ?case by (simp add: scan_lines.simps)
next
  case (Cons l ls)
  have "join [newline] ((l # ls) @ [[]]) = l @ newline # join [newline] (ls @ [[]])"
    by (simp add: join_Cons)
  then show ?case using Cons scan_lines_Cons[of l lim "join [newline] (ls @ [[]])" ls "[]"] by simp
qed

lemma getenv_setenv: "getenv (setenv k v h) q = (if q = k then v else getenv h q)"
  by (simp add: getenv_def setenv_def update_conv')

definition set_all :: "(string \<times> string) list \<Rightarrow> host \<Rightarrow> host" where
  "set_all kvs h = foldl (\<lambda>h (k, v). setenv k v h) h kvs"

lemma set_all_simps [simp]:
  "set_all [] h = h" "set_all ((k, v) # kvs) h = set_all kvs (setenv k v h)"
  by (simp_all add: set_all_def)

lemma getenv_set_all:
  "distinct (map fst kvs) \<Longrightarrow> getenv (set_all kvs h) q = (case map_of kvs q of Some v \<Rightarrow> v | None \<Rightarrow> getenv h q)"
proof (induction kvs arbitrary: h)
  case (Cons kv kvs)
  obtain k v where kv: "kv = (k, v)" by (cases kv)
  have "map_of kvs k = None" using Cons.prems kv by (auto simp: map_of_eq_None_iff)
  then show ?case using Cons kv by (auto simp: getenv_setenv split: option.splits)
qed simp

definition setting :: "string \<times> string \<Rightarrow> string" where
  "setting kv = fst kv @ CHR ''='' # snd kv"

lemma env_line_setting: "env_name k \<Longrightarrow> clean_value v \<Longrightarrow> env_line (setting (k, v)) = Some (k, v)"
  by (simp add: setting_def env_line_set)

lemma os_setenv_clean: "env_name k \<Longrightarrow> clean_value v \<Longrightarrow> os_setenv k v h = (None, setenv k v h)"
  by (auto simp: os_setenv_def env_name_def clean_value_def list_all_iff)

lemma apply_env_settings:
  assumes "list_all (\<lambda>(k, v). env_name k \<and> clean_value v) kvs" and "distinct (map fst kvs)"
    and "\<And>k. k \<in> set (map fst kvs) \<Longrightarrow> getenv h k = []"
  shows "apply_env p (map setting kvs) h = (None, set_all kvs h)"
  using assms
proof (induction kvs arbitrary: h)
  case (Cons kv kvs)
  obtain k v where kv: "kv = (k, v)" by (cases kv)
  have good: "env_name k" "clean_value v" "getenv h k = []" using Cons.prems kv by auto
  have rest: "getenv (setenv k v h) q = []" if "q \<in> set (map fst kvs)" for q
    using Cons.prems kv that by (auto simp: getenv_setenv)
  have "apply_env p (map setting kvs) (setenv k v h) = (None, set_all kvs (setenv k v h))"
    using Cons.prems kv rest by (intro Cons.IH) auto
  then show ?case using good kv by (simp add: env_line_setting os_setenv_clean)
qed simp

lemma setting_shape:
  "env_name k \<Longrightarrow> clean_value v \<Longrightarrow> newline \<notin> set (setting (k, v)) \<and> drop_cr (setting (k, v)) = setting (k, v)"
proof -
  assume kv: "env_name k" "clean_value v"
  then have "\<not> is_space (last v)" "v \<noteq> []" using trimmed_ends by (auto simp: clean_value_def)
  then have "drop_cr (setting (k, v)) = setting (k, v)" by (intro drop_cr_id) (auto simp: setting_def)
  moreover have "newline \<notin> set k" using kv(1) by (auto simp: env_name_def list_all_iff is_space_def)
  ultimately show ?thesis using kv by (auto simp: setting_def clean_value_def)
qed

definition pair_settings :: "config \<Rightarrow> string \<Rightarrow> string \<Rightarrow> (string \<times> string) list" where
  "pair_settings cfg server token =
     [(''TUG_SERVER_ID'', server), (''TUG_AGENT_TOKEN'', token)] @
     (if cf_ws_url cfg \<noteq> [] \<and> cf_ws_url cfg \<noteq> default_ws_url then [(''TUG_API_WS_URL'', cf_ws_url cfg)] else [])"

lemma agent_env_lines_settings: "agent_env_lines cfg server token = map setting (pair_settings cfg server token) @ [[]]"
  by (simp add: agent_env_lines_def pair_settings_def setting_def)

lemma pair_names: "env_name ''TUG_SERVER_ID''" "env_name ''TUG_AGENT_TOKEN''" "env_name ''TUG_API_WS_URL''"
  by (simp_all add: env_name_def is_space_def)

lemma pair_settings_good:
  assumes "clean_value server" and "clean_value token" and "cf_ws_url cfg = [] \<or> clean_value (cf_ws_url cfg)"
  shows "list_all (\<lambda>(k, v). env_name k \<and> clean_value v) (pair_settings cfg server token)"
    and "distinct (map fst (pair_settings cfg server token))"
    and "set (map fst (pair_settings cfg server token)) \<subseteq> {''TUG_SERVER_ID'', ''TUG_AGENT_TOKEN'', ''TUG_API_WS_URL''}"
  using assms pair_names by (auto simp: pair_settings_def)

lemma agent_env_path_configured:
  assumes "faults h = []" and "getenv h ''TUG_AGENT_ENV_PATH'' = p" and "p \<noteq> []" and "trim_space p = p"
    and "file_at h (loc h p) = Some s"
  shows "agent_env_path h = (p, h)"
proof -
  have "pop_fault h = h" using assms(1) by (simp add: pop_fault_def)
  moreover have "Host.stat p h = (Inr (if loc h p = [] then Dir else File s), pop_fault h)"
    using assms(1,5) by (simp add: Host.stat_def Let_def fault_of_def file_at_eq_Some)
  ultimately show ?thesis using assms by (simp add: agent_env_path_def Let_def)
qed

lemma loaded_settings:
  "cf_server (load_config emb dur h) = trim_space (getenv h ''TUG_SERVER_ID'')"
  "cf_token (load_config emb dur h) = getenv h ''TUG_AGENT_TOKEN''"
  "cf_ws_url (load_config emb dur h) = (if getenv h ''TUG_API_WS_URL'' = [] then default_ws_url else getenv h ''TUG_API_WS_URL'')"
  by (simp_all add: load_config_def with_consistent_intervals_def Let_def env_or_default_def default_ws_url_def)

text \<open>
  C5: What \<open>tug init\<close> writes is what the agent is after a restart: when the settings file was written
  and the next process finds it where it was written, with none of the three variables in its own
  environment, loading the file succeeds and the configuration read from the environment then has the
  server, the token and the socket address of the pairing, whatever characters they hold, as long as they
  are trimmed, on one line and of a length a line scanner takes.
\<close>

theorem pairing_survives_restart:
  assumes written: "write_agent_env p cfg server token h = (None, h1)"
    and clean: "clean_value server" "clean_value token" "cf_ws_url cfg = [] \<or> clean_value (cf_ws_url cfg)"
    and short: "length server < 60000" "length token < 60000" "length (cf_ws_url cfg) < 60000"
    and same: "file_at h2 = file_at h1" "cwd h2 = cwd h1" "faults h2 = []"
    and env: "getenv h2 ''TUG_AGENT_ENV_PATH'' = p" "trim_space p = p"
      "getenv h2 ''TUG_SERVER_ID'' = []" "getenv h2 ''TUG_AGENT_TOKEN'' = []" "getenv h2 ''TUG_API_WS_URL'' = []"
  shows "fst (load_agent_env_file h2) = None \<and>
    cf_server (load_config emb dur (snd (load_agent_env_file h2))) = server \<and>
    cf_token (load_config emb dur (snd (load_agent_env_file h2))) = token \<and>
    cf_ws_url (load_config emb dur (snd (load_agent_env_file h2))) = (if cf_ws_url cfg = [] then default_ws_url else cf_ws_url cfg)"
proof -
  let ?kvs = "pair_settings cfg server token" and ?text = "join [newline] (agent_env_lines cfg server token)"
  obtain h0 where p0: "p \<noteq> []" and w: "write_file p ?text h0 = (None, h1)"
    using written env(2) by (auto simp: write_agent_env_def split: if_splits prod.splits option.splits)
  have same_loc: "loc h2 p = loc h1 p" "loc h0 p = loc h1 p"
    using same(2) write_with_NoneD[OF w[unfolded write_file_def]] by (simp_all add: loc_def)
  then have content: "file_at h2 (loc h2 p) = Some ?text"
    using write_with_NoneD[OF w[unfolded write_file_def]] same(1) by (auto split: option.splits)
  have not_dir: "\<not> dir_at h2 (loc h2 p)"
    using write_with_ok[OF w[unfolded write_file_def]] content same_loc by (auto simp: dir_at_def file_at_eq_Some)
  have path: "agent_env_path h2 = (p, h2)" using agent_env_path_configured[OF same(3) env(1) p0 env(2) content] .
  let ?h = "snd (os_setenv ''TUG_AGENT_ENV_PATH'' p h2)"
  have h: "file_at ?h = file_at h2" "cwd ?h = cwd h2" "faults ?h = []" "node_at ?h = node_at h2"
    using same(3) by (simp_all add: os_setenv_def setenv_def file_at_def node_at_def fun_eq_iff)
  then have hp: "pop_fault ?h = ?h" "fault_of ?h = Fine" "loc ?h p = loc h2 p" "dir_at ?h = dir_at h2"
    by (simp_all add: pop_fault_def fault_of_def loc_def dir_at_def fun_eq_iff)
  have unset: "getenv ?h k = []" if "k \<in> set (map fst ?kvs)" for k
    using pair_settings_good(3)[OF clean] that env by (auto simp: os_setenv_def getenv_setenv)
  have lines: "scan_lines scanner_limit ?text = (map setting ?kvs, [])"
    unfolding agent_env_lines_settings
  proof (rule scan_lines_join)
    show "list_all (\<lambda>l. newline \<notin> set l \<and> length l < scanner_limit \<and> drop_cr l = l) (map setting ?kvs)"
      using clean short pair_names setting_shape
      by (auto simp: pair_settings_def scanner_limit_def) (auto simp: setting_def)
  qed
  have "apply_env p (map setting ?kvs) ?h = (None, set_all ?kvs ?h)"
    using pair_settings_good(1,2)[OF clean] unset by (rule apply_env_settings)
  then have load: "load_agent_env_file h2 = (None, set_all ?kvs ?h)"
    using path h hp content not_dir lines by (simp add: load_agent_env_file_def)
  have get: "getenv (set_all ?kvs ?h) k = (case map_of ?kvs k of Some v \<Rightarrow> v | None \<Rightarrow> getenv ?h k)" for k
    using getenv_set_all[OF pair_settings_good(2)[OF clean]] .
  have "getenv ?h ''TUG_API_WS_URL'' = []" using env by (simp add: os_setenv_def getenv_setenv)
  then show ?thesis
    using load clean get by (auto simp: loaded_settings pair_settings_def clean_value_def default_ws_url_def)
qed

definition demo_config :: config where
  "demo_config = (load_config ''1.1.35'' (\<lambda>_. None) bare_host)\<lparr>cf_ws_url := ''ws://own''\<rparr>"

definition paired_host :: host where
  "paired_host = (snd (write_agent_env ''/agent.env'' demo_config ''srv'' ''t=1'' bare_host))
     \<lparr>environ := [(''TUG_AGENT_ENV_PATH'', ''/agent.env'')]\<rparr>"

theorem pairing_survives_restart_witness:
  "fst (load_agent_env_file paired_host) = None \<and>
   cf_server (load_config [] (\<lambda>_. None) (snd (load_agent_env_file paired_host))) = ''srv'' \<and>
   cf_token (load_config [] (\<lambda>_. None) (snd (load_agent_env_file paired_host))) = ''t=1'' \<and>
   cf_ws_url (load_config [] (\<lambda>_. None) (snd (load_agent_env_file paired_host))) = ''ws://own''"
proof -
  have ws: "cf_ws_url demo_config = ''ws://own''" by (simp add: demo_config_def)
  let ?h1 = "snd (write_agent_env ''/agent.env'' demo_config ''srv'' ''t=1'' bare_host)"
  have "fst (write_agent_env ''/agent.env'' demo_config ''srv'' ''t=1'' bare_host) = None"
    by (simp add: write_agent_env_def agent_env_lines_def ws default_ws_url_def model_defs)
  then have w: "write_agent_env ''/agent.env'' demo_config ''srv'' ''t=1'' bare_host = (None, ?h1)" by (metis prod.collapse)
  have f: "faults ?h1 = []"
    by (simp add: write_agent_env_def agent_env_lines_def ws default_ws_url_def model_defs)
  show ?thesis
    using pairing_survives_restart[OF w, of paired_host "[]" "\<lambda>_. None"] f
    by (simp add: ws paired_host_def clean_value_def file_at_def node_at_def fun_eq_iff getenv_def trim_space_def trim_by_def trim_right_by_def is_space_def)
qed

text \<open>
  The address of another socket that the control plane announces with the credential is dropped: two
  exchanges that differ in it alone leave the same settings file and the same service behind.
\<close>

lemma announced_socket_dropped:
  assumes "\<And>b. wb_credential w' b = map_sum id (\<lambda>c. c\<lparr>cd_ws_url := f c\<rparr>) (wb_credential w b)"
    and "w' = w\<lparr>wb_credential := wb_credential w'\<rparr>"
  shows "run_init w' tty sys self cfg args h = run_init w tty sys self cfg args h"
proof -
  have same: "wb_hostname w' = wb_hostname w" "wb_os w' = wb_os w" "wb_arch w' = wb_arch w" "wb_encode w' = wb_encode w"
    "wb_build w' = wb_build w" "wb_post w' = wb_post w" "wb_reason w' = wb_reason w" "wb_status_text w' = wb_status_text w"
    by (subst assms(2), simp)+
  have rr: "refusal_reason w' r = refusal_reason w r" for r by (simp add: refusal_reason_def same split: option.splits)
  have claims: "claim w' b pin = map_sum id (\<lambda>c. c\<lparr>cd_ws_url := f c\<rparr>) (claim w b pin)" for b pin
  proof -
    have answer: "(case wb_credential w' b of Inl e \<Rightarrow> Inl (g e) | Inr c \<Rightarrow> if cd_server c = [] \<or> cd_token c = [] then Inl e0 else Inr c) =
      map_sum id (\<lambda>c. c\<lparr>cd_ws_url := f c\<rparr>)
        (case wb_credential w b of Inl e \<Rightarrow> Inl (g e) | Inr c \<Rightarrow> if cd_server c = [] \<or> cd_token c = [] then Inl e0 else Inr c)" for b g e0
      by (cases "wb_credential w b") (simp_all add: assms(1))
    let ?m = "\<lparr>mc_code = trim_space pin, mc_host_name = (case wb_hostname w of None \<Rightarrow> [] | Some n \<Rightarrow> n),
       mc_os = wb_os w, mc_arch = wb_arch w\<rparr>"
    show ?thesis
    proof (cases "wb_encode w ?m")
      case (Inr payload)
      then show ?thesis
      proof (cases "wb_build w (claim_endpoint b)")
        case None
        then show ?thesis
          using \<open>wb_encode w ?m = Inr payload\<close>
          by (cases "wb_post w (claim_endpoint b) payload") (simp_all add: claim_def same rr answer)
      qed (simp add: claim_def same)
    qed (simp add: claim_def same)
  qed
  have "resolve_pairing w' tty cfg args h = resolve_pairing w tty cfg args h"
  proof (cases "length (positional_arguments args) \<ge> 2")
    case False
    obtain r printed where pc: "pairing_code tty cfg (positional_arguments args) h = (r, printed)" by fastforce
    show ?thesis
    proof (cases r)
      case (Inr pin)
      then show ?thesis using False pc claims[of "cf_api_url cfg" pin]
        by (cases "claim w (cf_api_url cfg) pin") (simp_all add: resolve_pairing_def Let_def)
    qed (use False pc in \<open>simp add: resolve_pairing_def Let_def\<close>)
  qed (simp add: resolve_pairing_def Let_def)
  then show ?thesis by (simp add: run_init_def)
qed

end
