(* ===== verification/Deploy.thy ===== *)
theory Deploy
  imports Pairing
begin

text \<open>
  \<open>internal/agent/deploy.go\<close>: the deployment of a git repository into a project directory of the sandbox,
  with docker compose or with an image built by Nixpacks. A transcript is the list of its lines, a
  report a batch of lines sent while the command runs. The formats of the clock, the decoder of the
  dashboard's variables and the order of a map's range are parameters.
\<close>

record deploy_env =
  de_stamp :: "int \<Rightarrow> string"
  de_date :: "int \<Rightarrow> string"
  de_decode :: "string \<Rightarrow> (string \<times> string) list option"
  de_visit :: "(string \<times> string) list \<Rightarrow> (string \<times> string) list"

definition default_deploy_branch :: string where "default_deploy_branch = ''main''"
definition default_compose_file :: path where "default_compose_file = ''docker-compose.yml''"

definition dockerfile_compose_gen :: string where
  "dockerfile_compose_gen =
     join [newline] [''services:'', ''  app:'', ''    build:'', ''      context: .'', ''      dockerfile: Dockerfile'', ''    restart: always'', []]"

definition alternative_compose_files :: "path list" where
  "alternative_compose_files = [''docker-compose.yaml'', ''compose.yaml'', ''compose.yml'']"

section \<open>The repository\<close>

definition clone_repository :: "sys \<Rightarrow> string list \<Rightarrow> path \<Rightarrow> string \<Rightarrow> string \<Rightarrow> host \<Rightarrow> (go_error option \<times> string list) \<times> host" where
  "clone_repository sys ls dir url branch h =
     (let ls1 = ls @ [''Cloning repo '' @ url @ '' (branch '' @ branch @ '') into '' @ dir @ ''...''];
          h1 = snd (remove_all dir h)
      in case run_tracked sys ls1 ''git clone failed'' [''git'', ''clone'', ''-b'', branch, url, dir] h1 of
           ((Some e, ls2), h2) \<Rightarrow> ((Some e, ls2), h2)
         | ((None, ls2), h2) \<Rightarrow> ((None, ls2 @ [''git clone succeeded.'']), h2))"

definition pull_repository :: "sys \<Rightarrow> string list \<Rightarrow> path \<Rightarrow> string \<Rightarrow> host \<Rightarrow> (go_error option \<times> string list) \<times> host" where
  "pull_repository sys ls dir branch h =
     (let ls1 = ls @ [''Repository exists at '' @ dir @ ''. Pulling latest from branch '' @ branch @ ''...''] in
      case run_tracked sys ls1 ''git fetch failed'' [''git'', ''-C'', dir, ''fetch'', ''origin'', branch] h of
        ((Some e, ls2), h1) \<Rightarrow> ((Some e, ls2), h1)
      | ((None, ls2), h1) \<Rightarrow>
          (case run_tracked sys ls2 ''git reset failed'' [''git'', ''-C'', dir, ''reset'', ''--hard'', ''origin/'' @ branch] h1 of
             ((Some e, ls3), h2) \<Rightarrow> ((Some e, ls3), h2)
           | ((None, ls3), h2) \<Rightarrow> ((None, ls3 @ [''git pull (fetch+reset) succeeded.'']), h2)))"

definition fetch_repository :: "sys \<Rightarrow> string list \<Rightarrow> path \<Rightarrow> string \<Rightarrow> string \<Rightarrow> host \<Rightarrow> (go_error option \<times> string list) \<times> host" where
  "fetch_repository sys ls dir url branch h =
     (case Host.stat (path_join [dir, ''.git'']) h of
        (Inl e, h1) \<Rightarrow> (if is_not_exist e then clone_repository sys ls dir url branch h1 else pull_repository sys ls dir branch h1)
      | (Inr _, h1) \<Rightarrow> pull_repository sys ls dir branch h1)"

section \<open>The compose file\<close>

fun first_candidate :: "path \<Rightarrow> path list \<Rightarrow> host \<Rightarrow> path option \<times> host" where
  "first_candidate dir [] h = (None, h)"
| "first_candidate dir (c # cs) h =
     (case Host.stat (path_join [dir, c]) h of (Inr _, h1) \<Rightarrow> (Some c, h1) | (Inl _, h1) \<Rightarrow> first_candidate dir cs h1)"

definition resolve_compose_file ::
  "path \<Rightarrow> path \<Rightarrow> string list \<Rightarrow> host \<Rightarrow> ((go_error, path \<times> path) result \<times> string list) \<times> host" where
  "resolve_compose_file dir requested_file ls h =
     (let requested = (if requested_file = [] then default_compose_file else requested_file) in
      case first_candidate dir (requested # alternative_compose_files) h of
        (Some c, h1) \<Rightarrow> ((Inr (path_join [dir, c], c), ls), h1)
      | (None, h1) \<Rightarrow>
          (case Host.stat (path_join [dir, ''Dockerfile'']) h1 of
             (Inl _, h2) \<Rightarrow>
               ((Inl (Msg (''compose file or Dockerfile '' @ [CHR 0x27] @ requested @ [CHR 0x27] @ '' not found in repo after clone'')), ls), h2)
           | (Inr _, h2) \<Rightarrow>
               (let p = path_join [dir, default_compose_file] in
                ((Inr (p, default_compose_file),
                  ls @ [''No docker-compose file found, but Dockerfile exists. Auto-generating docker-compose.yml...'']),
                 snd (write_file p dockerfile_compose_gen h2)))))"

definition mirror_standard_compose_file :: "path \<Rightarrow> path \<Rightarrow> host \<Rightarrow> host" where
  "mirror_standard_compose_file dir p h =
     (let standard = path_join [dir, default_compose_file] in
      if p = standard then h
      else (case read_file p h of
              (Inl _, h1) \<Rightarrow> h1
            | (Inr content, h1) \<Rightarrow> snd (write_file standard content h1)))"

section \<open>The environment\<close>

definition read_env_file :: "path \<Rightarrow> host \<Rightarrow> (string \<times> string) list \<times> host" where
  "read_env_file p h =
     (case read_file p h of
        (Inl _, h1) \<Rightarrow> ([], h1)
      | (Inr content, h1) \<Rightarrow> (env_vars (split_on newline content), h1))"

definition read_dashboard_env_overrides :: "deploy_env \<Rightarrow> path \<Rightarrow> string \<Rightarrow> host \<Rightarrow> (string \<times> string) list \<times> host" where
  "read_dashboard_env_overrides de root project h =
     (case resolve_path root (path_join [''projects'', project, ''env.json'']) of
        Inl _ \<Rightarrow> ([], h)
      | Inr p \<Rightarrow>
          (case read_file p h of
             (Inl _, h1) \<Rightarrow> ([], h1)
           | (Inr content, h1) \<Rightarrow> (case de_decode de content of None \<Rightarrow> ([], h1) | Some vs \<Rightarrow> (vs, h1))))"

definition merge_env :: "(string \<times> string) list \<Rightarrow> (string \<times> string) list \<Rightarrow> (string \<times> string) list" where
  "merge_env base over = foldl (\<lambda>vs (k, v). AList.update k v vs) base over"

definition env_file_text :: "deploy_env \<Rightarrow> (string \<times> string) list \<Rightarrow> string" where
  "env_file_text de vars =
     ''# Generated by Tug.sh (Git .env + Dashboard overrides)'' @ [newline] @
     concat (map (\<lambda>(k, v). k @ ''='' @ v @ [newline]) (de_visit de vars))"

definition sync_project_env_file :: "deploy_env \<Rightarrow> path \<Rightarrow> path \<Rightarrow> string \<Rightarrow> string list \<Rightarrow> host \<Rightarrow> string list \<times> host" where
  "sync_project_env_file de root dir project ls h =
     (let p = path_join [dir, ''.env''];
          (base, h1) = read_env_file p h;
          ls1 = ls @ (if base \<noteq> [] then [''Loaded '' @ nat_dec (length base) @ '' base environment variables from repository .env''] else []);
          (over, h2) = read_dashboard_env_overrides de root project h1;
          overrides = length (filter (\<lambda>(k, _). k \<in> set (map fst base)) over);
          ls2 = ls1 @ (if over \<noteq> [] then [''Applied '' @ nat_dec (length over) @ '' environment variables from dashboard ('' @ nat_dec overrides @ '' overrides)''] else []);
          vars = merge_env base over
      in if vars = [] then (ls2, h2) else (ls2, snd (write_file p (env_file_text de vars) h2)))"

section \<open>The log of a deployment\<close>

definition deployment_log_text :: "deploy_env \<Rightarrow> int \<Rightarrow> string \<Rightarrow> string \<Rightarrow> string list \<Rightarrow> go_error option \<Rightarrow> string" where
  "deployment_log_text de now project cid logs err =
     ''=== Deployment Log ['' @ de_date de now @ ''] ==='' @ [newline] @
     ''Project ID : '' @ project @ [newline] @
     (if cid \<noteq> [] then ''Command ID : '' @ cid @ [newline] else []) @
     replicate 80 CHR ''-'' @ [newline] @
     concat (map (\<lambda>l. l @ [newline]) logs) @
     (case err of
        Some e \<Rightarrow> [newline] @ ''[RESULT] FAILED: '' @ error_text e @ [newline]
      | None \<Rightarrow> [newline] @ ''[RESULT] SUCCESS: Deployment completed successfully.'' @ [newline])"

definition write_deployment_log :: "deploy_env \<Rightarrow> path \<Rightarrow> string \<Rightarrow> string \<Rightarrow> string list \<Rightarrow> go_error option \<Rightarrow> host \<Rightarrow> host" where
  "write_deployment_log de root project cid logs err h =
     (if trim_space project = [] then h
      else (case resolve_path root (path_join [''projects'', project, ''logs'']) of
              Inl _ \<Rightarrow> h
            | Inr dir \<Rightarrow>
                (let h1 = snd (mkdir_all dir h);
                     content = deployment_log_text de (clock h1) project cid logs err;
                     h2 = snd (write_file (path_join [dir, ''deploy-'' @ de_stamp de (clock h1) @ ''.log'']) content h1)
                 in snd (write_file (path_join [dir, ''latest-deploy.log'']) content h2))))"

section \<open>Nixpacks\<close>

definition nixpacks_install_script :: string where
  "nixpacks_install_script = ''curl -fsSL https://nixpacks.com/install.sh | bash''"

definition nixpacks_path :: path where "nixpacks_path = ''/usr/local/bin/nixpacks''"

definition has_nixpacks :: "host \<Rightarrow> bool \<times> host" where
  "has_nixpacks h =
     (if look_path h ''nixpacks'' \<noteq> None then (True, h)
      else (case Host.stat nixpacks_path h of (Inr _, h1) \<Rightarrow> (True, h1) | (Inl _, h1) \<Rightarrow> (False, h1)))"

definition ensure_nixpacks :: "sys \<Rightarrow> string list \<Rightarrow> host \<Rightarrow> (go_error option \<times> string list) \<times> host" where
  "ensure_nixpacks sys ls h =
     (case has_nixpacks h of
        (True, h1) \<Rightarrow> ((None, ls), h1)
      | (False, h1) \<Rightarrow>
          (let (r, h2) = exec sys [''sh'', ''-c'', nixpacks_install_script] h1;
               ls1 = ls @ [''Nixpacks not found on this machine. Installing the Nixpacks builder...''] @ output_lines (p_all r)
           in case p_err r of
                Some e \<Rightarrow> ((Some (Wrapf ''nixpacks install failed: '' e []), ls1), h2)
              | None \<Rightarrow>
                  (case has_nixpacks h2 of
                     (False, h3) \<Rightarrow> ((Some (Msg ''nixpacks is still not available after install''), ls1), h3)
                   | (True, h3) \<Rightarrow> ((None, ls1 @ [''Nixpacks installed.'']), h3))))"

definition nixpacks_binary :: "host \<Rightarrow> path" where
  "nixpacks_binary h = (case look_path h ''nixpacks'' of Some p \<Rightarrow> p | None \<Rightarrow> nixpacks_path)"

definition image_char :: "char \<Rightarrow> char" where
  "image_char c = (if is_lower_letter c \<or> is_digit c \<or> c = CHR ''-'' \<or> c = CHR ''_'' then c else CHR ''-'')"

definition nixpacks_image_name :: "string \<Rightarrow> string" where
  "nixpacks_image_name project =
     (let name = trim_by (\<lambda>c. c = CHR ''-'' \<or> c = CHR ''_'') (map image_char (to_lower (trim_space project)))
      in ''tug-nixpacks-'' @ (if name = [] then ''app'' else name))"

definition detect_exposed_port :: "sys \<Rightarrow> string \<Rightarrow> host \<Rightarrow> string \<times> host" where
  "detect_exposed_port sys img h =
     (case docker_output sys [''inspect'', ''--format'', ''{{range $port, $_ := .Config.ExposedPorts}}{{$port}} {{end}}'', img] h of
        (Inl _, h1) \<Rightarrow> ([], h1)
      | (Inr out, h1) \<Rightarrow>
          (case Go_Strings.fields out of
             [] \<Rightarrow> ([], h1)
           | port # _ \<Rightarrow>
               (case str_index port ''/'' of
                  Some i \<Rightarrow> (if i > 0 then take i port else port, h1)
                | None \<Rightarrow> (port, h1))))"

definition generate_nixpacks_compose :: "sys \<Rightarrow> string \<Rightarrow> host \<Rightarrow> string \<times> host" where
  "generate_nixpacks_compose sys img h =
     (let (port, h1) = detect_exposed_port sys img h in
      (''services:'' @ [newline] @ ''  app:'' @ [newline] @ ''    image: '' @ img @ [newline] @ ''    restart: always'' @ [newline] @
       (if port \<noteq> [] then ''    ports:'' @ [newline] @ ''      - '' @ quote @ port @ '':'' @ port @ quote @ [newline] else []), h1))"

section \<open>Deploying\<close>

text \<open>Failing with the transcript so far, which also goes into the log of the deployment.\<close>

definition logged :: "deploy_env \<Rightarrow> path \<Rightarrow> command \<Rightarrow> string list \<Rightarrow> go_error option \<Rightarrow> host \<Rightarrow> outcome \<times> host" where
  "logged de root cmd ls err h =
     ((ls, err), write_deployment_log de root (da_project (cm_deploy cmd)) (cm_id cmd) ls err h)"

definition success_line :: string where "success_line = ''Deployment completed successfully.''"

definition start_nixpacks ::
  "deploy_env \<Rightarrow> sys \<Rightarrow> path \<Rightarrow> command \<Rightarrow> path \<Rightarrow> string \<Rightarrow> string list \<Rightarrow> host \<Rightarrow> outcome \<times> host" where
  "start_nixpacks de sys root cmd dir img ls h =
     (let (content, h1) = generate_nixpacks_compose sys img h; p = path_join [dir, default_compose_file] in
      case write_file p content h1 of
        (Some e, h2) \<Rightarrow> logged de root cmd ls (Some (Wrapf ''failed to write generated compose file: '' e [])) h2
      | (None, h2) \<Rightarrow>
          (let ((argv, description), h3) = deploy_command sys (cm_command cmd) [''-f'', p, ''up'', ''-d''] h2;
               (r, h4) = exec_in sys dir argv h3;
               ls1 = ls @ [''Starting the built image with: '' @ description] @ output_lines (p_all r)
           in case p_err r of
                Some e \<Rightarrow> logged de root cmd ls1 (Some (Msg (''compose up failed: '' @ error_text e @ '', output: '' @ p_all r))) h4
              | None \<Rightarrow> logged de root cmd (ls1 @ [success_line]) None h4))"

definition deploy_nixpacks :: "deploy_env \<Rightarrow> sys \<Rightarrow> path \<Rightarrow> command \<Rightarrow> path \<Rightarrow> string list \<Rightarrow> host \<Rightarrow> outcome \<times> host" where
  "deploy_nixpacks de sys root cmd dir ls h =
     (case ensure_nixpacks sys ls h of
        ((Some e, ls1), h1) \<Rightarrow> logged de root cmd ls1 (Some e) h1
      | ((None, ls1), h1) \<Rightarrow>
          (let img = nixpacks_image_name (da_project (cm_deploy cmd));
               (r, h2) = exec_in sys dir [nixpacks_binary h1, ''build'', ''.'', ''--name'', img] h1;
               ls2 = ls1 @ [''Building image '' @ img @ '' from source with Nixpacks (zero-config)...''] @ output_lines (p_all r)
           in case p_err r of
                Some e \<Rightarrow> logged de root cmd ls2 (Some (Msg (''nixpacks build failed: '' @ error_text e))) h2
              | None \<Rightarrow> start_nixpacks de sys root cmd dir img ls2 h2))"

text \<open>From a checked out repository to running containers with compose.\<close>

definition deploy_compose_file ::
  "deploy_env \<Rightarrow> sys \<Rightarrow> bool list \<Rightarrow> path \<Rightarrow> command \<Rightarrow> path \<Rightarrow> string list \<Rightarrow> host \<Rightarrow> reported option \<times> host" where
  "deploy_compose_file de sys ticks root cmd dir ls h =
     (case resolve_compose_file dir (cm_file_path cmd) ls h of
        ((Inl e, ls1), h1) \<Rightarrow> (Some ((ls1, Some e), []), h1)
      | ((Inr (p, name), ls1), h1) \<Rightarrow>
          (let h2 = mirror_standard_compose_file dir p h1;
               ((argv, description), h3) = deploy_command sys (cm_command cmd) [''-f'', p, ''up'', ''-d'', ''--build''] h2;
               msg = ''Deploying '' @ name @ '' with: '' @ description
           in case run_streaming_command sys ticks dir argv h3 of
                (None, h4) \<Rightarrow> (None, h4)
              | (Some s, h4) \<Rightarrow>
                  (let ls2 = ls1 @ [msg] @ sm_lines s; bs = [msg] # sm_batches s in
                   case sm_err s of
                     Some e \<Rightarrow> (let (out, h5) = logged de root cmd ls2 (Some (Wrapf ''compose up failed: '' e [])) h4 in (Some (out, bs), h5))
                   | None \<Rightarrow> (let (out, h5) = logged de root cmd (ls2 @ [success_line]) None h4 in (Some (out, bs @ [[success_line]]), h5)))))"

text \<open>The commit that was checked out, when git names it.\<close>

definition commit_lines :: "sys \<Rightarrow> path \<Rightarrow> host \<Rightarrow> string list \<times> host" where
  "commit_lines sys dir h =
     (let (r, h1) = exec sys [''git'', ''-C'', dir, ''log'', ''-1'', ''--pretty=format:%h - %s''] h in
      (if p_err r = None \<and> p_out r \<noteq> [] then [''Commit: '' @ trim_space (p_out r)] else [], h1))"

definition deploy_fetched ::
  "deploy_env \<Rightarrow> sys \<Rightarrow> bool list \<Rightarrow> path \<Rightarrow> command \<Rightarrow> path \<Rightarrow> string list \<Rightarrow> host \<Rightarrow> reported option \<times> host" where
  "deploy_fetched de sys ticks root cmd dir ls h =
     (let (commit, h1) = commit_lines sys dir h;
          (ls1, h2) = sync_project_env_file de root dir (da_project (cm_deploy cmd)) (ls @ commit) h1;
          bs = (if commit = [] then [] else [commit])
      in if equal_fold (trim_space (da_file_type (cm_deploy cmd))) ''nixpacks''
         then (let (out, h3) = deploy_nixpacks de sys root cmd dir ls1 h2 in (Some (out, bs), h3))
         else (let (r, h3) = deploy_compose_file de sys ticks root cmd dir ls1 h2 in
               (map_option (\<lambda>(out, more). (out, bs @ more)) r, h3)))"

definition deploy_dir :: "path \<Rightarrow> string \<Rightarrow> (go_error, path) result" where
  "deploy_dir root project = resolve_path root (path_join [''projects'', project])"

definition handle_git_deploy_with_report ::
  "deploy_env \<Rightarrow> sys \<Rightarrow> bool list \<Rightarrow> path \<Rightarrow> command \<Rightarrow> host \<Rightarrow> reported option \<times> host" where
  "handle_git_deploy_with_report de sys ticks root cmd h =
     (let a = cm_deploy cmd;
          start = ''Starting git_deploy for project '' @ da_project a @ ''...''
      in if da_project a = [] then (Some (([], Some (Msg ''project_id is required for git_deploy'')), []), h)
         else (case deploy_dir root (da_project a) of
                 Inl e \<Rightarrow> (Some (([start], Some (Wrapf ''failed to resolve project sandbox path: '' e [])), [[start]]), h)
               | Inr dir \<Rightarrow>
                   (case mkdir_all dir h of
                      (Some e, h1) \<Rightarrow> (Some (([start], Some (Wrapf ''failed to create deployments dir: '' e [])), [[start]]), h1)
                    | (None, h1) \<Rightarrow>
                        (let url = trim_space (da_repo a);
                             branch = (if da_branch a = [] then default_deploy_branch else da_branch a);
                             msg = ''Fetching repository '' @ url @ '' ('' @ branch @ '')...''
                         in if url = [] then (Some (([start], Some (Msg ''repo_url is empty'')), [[start]]), h1)
                            else (case fetch_repository sys [start, msg] dir url branch h1 of
                                    ((Some e, ls), h2) \<Rightarrow> (Some ((ls, Some e), [[start], [msg]]), h2)
                                  | ((None, ls), h2) \<Rightarrow>
                                      (let (r, h3) = deploy_fetched de sys ticks root cmd dir ls h2 in
                                       (map_option (\<lambda>(out, bs). (out, [[start], [msg]] @ bs)) r, h3)))))))"

definition handle_git_deploy :: "deploy_env \<Rightarrow> sys \<Rightarrow> bool list \<Rightarrow> path \<Rightarrow> command \<Rightarrow> host \<Rightarrow> outcome option \<times> host" where
  "handle_git_deploy de sys ticks root cmd h =
     (let (r, h1) = handle_git_deploy_with_report de sys ticks root cmd h in (map_option fst r, h1))"

section \<open>Where the files of a project are\<close>

lemma project_comps:
  assumes "plain project" and "list_all plain ext"
  shows "clean_comps (path_join ([''projects'', project] @ ext)) = [''projects'', project] @ ext"
proof -
  let ?ps = "[''projects'', project] @ ext"
  have ps: "list_all plain ?ps" using assms by (simp add: plain_def[of "''projects''"])
  then have no: "p \<in> set ?ps \<Longrightarrow> slash \<notin> set p" for p unfolding list_all_iff plain_def by blast
  have f: "dropWhile (\<lambda>p. p = []) ?ps = ?ps" by simp
  have s: "split_on slash (join ''/'' ?ps) = ?ps" using no by (intro split_on_join) simp_all
  have "clean_comps (join ''/'' ?ps) = ?ps"
    using norm_comps_plain[OF ps] by (simp only: clean_comps_def s rev.simps append_Nil)
  then show ?thesis unfolding path_join_def f Let_def by simp
qed

lemma project_key:
  assumes "rooted root" and "plain project" and "list_all plain ext"
    and "resolve_path root (path_join ([''projects'', project] @ ext)) = Inr t"
  shows "loc h t = clean_comps root @ [''projects'', project] @ ext" and "rooted t"
proof -
  have "root \<noteq> []" using assms(1) by (auto simp: rooted_iff)
  note r = resolve_path_Inr[OF this assms(4)]
  then show rt: "rooted t" using assms(1) by simp
  have ps: "list_all plain ([''projects'', project] @ ext)" using assms(2,3) by (simp add: plain_def[of "''projects''"])
  have "clean_comps t = norm_comps (rooted root) (rev (clean_comps root)) ([''projects'', project] @ ext)"
    using r project_comps[OF assms(2,3)] by (simp only: resolve_target_def)
  then have "clean_comps t = clean_comps root @ [''projects'', project] @ ext"
    by (simp only: norm_comps_plain[OF ps] rev_rev_ident)
  then show "loc h t = clean_comps root @ [''projects'', project] @ ext" using loc_rooted[OF rt] by simp
qed

section \<open>A first deployment loses the dashboard's variables\<close>

lemma run_tracked_host: "snd (run_tracked sys ls f argv h) = snd (exec sys argv h)"
  by (simp add: run_tracked_def Let_def split: prod.split)

lemma read_file_content: "read_file p h = (Inr s, h1) \<Longrightarrow> file_at h (loc h p) = Some s"
  by (auto simp: read_file_def Let_def file_at_def split: if_splits option.splits node.splits)

lemma clone_repository_host: "snd (clone_repository sys ls dir url branch h) = snd (exec sys [''git'', ''clone'', ''-b'', branch, url, dir] (snd (remove_all dir h)))"
proof -
  let ?ls = "ls @ [''Cloning repo '' @ url @ '' (branch '' @ branch @ '') into '' @ dir @ ''...'']"
  obtain e ls2 h2 where r: "run_tracked sys ?ls ''git clone failed'' [''git'', ''clone'', ''-b'', branch, url, dir] (snd (remove_all dir h)) = ((e, ls2), h2)"
    by (metis surj_pair)
  then have "h2 = snd (exec sys [''git'', ''clone'', ''-b'', branch, url, dir] (snd (remove_all dir h)))"
    using run_tracked_host by (metis snd_conv)
  then show ?thesis using r by (cases e) (simp_all add: clone_repository_def Let_def)
qed

text \<open>
  C40: The first deployment of a project loses the variables the dashboard set for it before: fetching a
  repository that is not there yet removes the project directory, the file of the overrides included, so
  what is merged afterwards is empty, whatever the file held, unless git itself wrote one.
\<close>

theorem first_deploy_loses_overrides:
  assumes root: "rooted root" and project: "plain project"
    and dir: "deploy_dir root project = Inr dir"
    and over: "resolve_path root (path_join [''projects'', project, ''env.json'']) = Inr p"
    and fresh: "node_at h (loc h (path_join [dir, ''.git''])) = None" "faults h = []"
    and git: "\<And>c h. file_at (snd (sys c h)) (loc h p) = file_at h (loc h p)" "\<And>c h. cwd (snd (sys c h)) = cwd h"
  shows "fst (read_dashboard_env_overrides de root project (snd (fetch_repository sys ls dir url branch h))) = []"
proof -
  have keys: "loc x dir = clean_comps root @ [''projects'', project]" "loc x p = loc x dir @ [''env.json'']" for x
    using project_key[OF root project, of "[]" dir] project_key[OF root project, of "[''env.json'']" p] dir over
    by (simp_all add: deploy_dir_def plain_def)
  let ?g = "loc h (path_join [dir, ''.git''])"
  have "Host.stat (path_join [dir, ''.git'']) h = (Inl (NotExist (path_join [dir, ''.git''])), pop_fault h) \<or> ?g = []"
    using fresh by (auto simp: Host.stat_def Let_def fault_of_def)
  moreover have "?g \<noteq> []"
  proof -
    have "rooted dir" "dir \<noteq> []"
      using project_key(2)[OF root project, of "[]" dir] dir by (auto simp: deploy_dir_def rooted_iff)
    then have "?g = norm_comps True (rev (clean_comps dir)) [''.git'']"
      using clean_comps_path_join_two[of dir "''.git''"] rooted_path_join_two[of dir "''.git''"] by (simp add: loc_rooted)
    then show ?thesis by simp
  qed
  ultimately have f: "snd (fetch_repository sys ls dir url branch h) = snd (clone_repository sys ls dir url branch (pop_fault h))"
    by (simp add: fetch_repository_def)
  let ?h1 = "snd (remove_all dir (pop_fault h))"
  have h1: "file_at ?h1 (loc h p) = None"
    using fresh(2) by (simp add: remove_all_def Let_def fault_of_def file_at_def keys loc_def[of "pop_fault h"])
  obtain x h2 where x: "sys ([], [''git'', ''clone'', ''-b'', branch, url, dir]) ?h1 = (x, h2)" by fastforce
  let ?h2 = "snd (fetch_repository sys ls dir url branch h)"
  have h2: "?h2 = h2\<lparr>ran := ran ?h1 @ [([], [''git'', ''clone'', ''-b'', branch, url, dir])]\<rparr>"
    by (simp add: f clone_repository_host exec_def exec_in_def x)
  have "file_at ?h2 (loc h p) = file_at ?h1 (loc h p)"
    using git(1)[of "([], [''git'', ''clone'', ''-b'', branch, url, dir])" ?h1] git(1)[of _ h] x keys by (simp add: h2 file_at_def node_at_def)
  then have "file_at ?h2 (loc ?h2 p) = None" using h1 keys by simp
  then have "\<And>s h3. read_file p ?h2 \<noteq> (Inr s, h3)" using read_file_content by fastforce
  then show ?thesis using over by (cases "read_file p ?h2"; cases "fst (read_file p ?h2)") (auto simp: read_dashboard_env_overrides_def)
qed

definition quiet_sys :: sys where
  "quiet_sys c h = (\<lparr>p_out = [], p_all = [], p_err = None\<rparr>, h)"

definition demo_deploy :: deploy_env where
  "demo_deploy = \<lparr>de_stamp = (\<lambda>_. ''s''), de_date = (\<lambda>_. ''d''), de_decode = (\<lambda>s. if s = ''{}'' then Some [] else Some [(''A'', ''2'')]), de_visit = (\<lambda>vs. vs)\<rparr>"

definition demo_projects :: host where
  "demo_projects = bare_host\<lparr>tree := [([''r''], Dir), ([''r'', ''projects''], Dir), ([''r'', ''projects'', ''p''], Dir),
     ([''r'', ''projects'', ''p'', ''env.json''], File ''{A:2}''), ([''r'', ''projects'', ''p'', ''.env''], File ''A=1'')]\<rparr>"

lemma demo_resolved:
  "resolve_path ''/r'' (path_join [''projects'', ''p'', ''env.json'']) = Inr ''/r/projects/p/env.json''"
  "deploy_dir ''/r'' ''p'' = Inr ''/r/projects/p''"
  by (simp_all add: resolve_path_def deploy_dir_def model_defs Let_def)

lemma first_deploy_overrides_before: "fst (read_dashboard_env_overrides demo_deploy ''/r'' ''p'' demo_projects) = [(''A'', ''2'')]"
  unfolding read_dashboard_env_overrides_def demo_resolved
  by (simp add: demo_projects_def demo_deploy_def Let_def model_defs)

theorem first_deploy_loses_overrides_witness:
  "fst (read_dashboard_env_overrides demo_deploy ''/r'' ''p'' demo_projects) = [(''A'', ''2'')] \<and>
   fst (read_dashboard_env_overrides demo_deploy ''/r'' ''p''
     (snd (fetch_repository quiet_sys [] ''/r/projects/p'' ''u'' ''main'' demo_projects))) = []"
proof
  show "fst (read_dashboard_env_overrides demo_deploy ''/r'' ''p'' demo_projects) = [(''A'', ''2'')]"
    by (rule first_deploy_overrides_before)
  have g: "file_at (snd (quiet_sys c h)) k = file_at h k" "cwd (snd (quiet_sys c h)) = cwd h" for c h k
    by (simp_all add: quiet_sys_def)
  have r: "rooted ''/r''" "plain ''p''" by (simp_all add: rooted_def has_prefix_def plain_def)
  have n: "node_at demo_projects (loc demo_projects (path_join [''/r/projects/p'', ''.git''])) = None" "faults demo_projects = []"
    by (simp_all add: demo_projects_def model_defs)
  show "fst (read_dashboard_env_overrides demo_deploy ''/r'' ''p''
     (snd (fetch_repository quiet_sys [] ''/r/projects/p'' ''u'' ''main'' demo_projects))) = []"
    using first_deploy_loses_overrides[OF r demo_resolved(2) demo_resolved(1) n g] by simp
qed

section \<open>What compose reads\<close>

definition env_key :: "string \<Rightarrow> bool" where
  "env_key k \<longleftrightarrow> k \<noteq> [] \<and> trim_space k = k \<and> hd k \<noteq> CHR ''#'' \<and> CHR ''='' \<notin> set k \<and> newline \<notin> set k"

definition env_value :: "string \<Rightarrow> bool" where
  "env_value v \<longleftrightarrow> trim_space v = v \<and> newline \<notin> set v"

definition env_pairs :: "(string \<times> string) list \<Rightarrow> bool" where
  "env_pairs kvs \<longleftrightarrow> list_all (\<lambda>(k, v). env_key k \<and> env_value v) kvs \<and> distinct (map fst kvs)"

lemma env_line_pair:
  assumes "env_key k" and "env_value v"
  shows "env_line (setting (k, v)) = Some (k, v)"
proof -
  have k: "k \<noteq> []" "trim_space k = k" "\<not> is_space (hd k)" using assms(1) trimmed_ends by (auto simp: env_key_def)
  have v: "v = [] \<or> \<not> is_space (last v)" using assms(2) trimmed_ends by (auto simp: env_value_def)
  have t: "trim_space (setting (k, v)) = setting (k, v)"
    using k v by (intro trim_space_id) (auto simp: setting_def is_space_def)
  have c: "cut (setting (k, v)) ''='' = Some (k, v)" using cut_at_sep[of k v] assms(1) by (simp add: setting_def env_key_def)
  have "\<not> has_prefix (setting (k, v)) ''#''" using assms(1) k(1) by (cases k) (auto simp: setting_def has_prefix_def env_key_def)
  moreover have "setting (k, v) \<noteq> []" by (simp add: setting_def)
  ultimately show ?thesis using t c k assms(2) by (simp add: env_line_def env_value_def Let_def)
qed

lemma trim_space_subset: "c \<in> set (trim_space s) \<Longrightarrow> c \<in> set s"
  using set_trim_by[of is_space s] by (auto simp: trim_space_def)

lemma cut_sets: "cut s p = Some (a, b) \<Longrightarrow> set a \<subseteq> set s \<and> set b \<subseteq> set s"
  by (auto simp: cut_def split: option.splits dest: in_set_takeD in_set_dropD)

lemma cut_before: "cut s [d] = Some (a, b) \<Longrightarrow> d \<notin> set a"
proof -
  have "str_index s [d] = Some i \<Longrightarrow> d \<notin> set (take i s)" for i
    by (induction s arbitrary: i) (auto simp: has_prefix_def split: if_splits)
  then show "cut s [d] = Some (a, b) \<Longrightarrow> d \<notin> set a" by (auto simp: cut_def split: option.splits)
qed

lemma trim_space_hd: "a \<noteq> [] \<Longrightarrow> \<not> is_space (hd a) \<Longrightarrow> trim_space a \<noteq> [] \<Longrightarrow> hd (trim_space a) = hd a"
proof -
  assume a: "a \<noteq> []" "\<not> is_space (hd a)" "trim_space a \<noteq> []"
  have "a = rev (dropWhile is_space (rev a)) @ rev (takeWhile is_space (rev a))"
    by (metis rev_append rev_rev_ident takeWhile_dropWhile_id)
  moreover have "dropWhile is_space a = a" using a by (cases a) auto
  ultimately show ?thesis using a(3) by (metis hd_append2 trim_by_def trim_right_by_def trim_space_def)
qed

lemma env_line_pairs:
  assumes "env_line raw = Some (k, v)" and "newline \<notin> set raw"
  shows "env_key k \<and> env_value v"
proof -
  let ?l = "trim_space raw"
  obtain a b where c: "cut ?l ''='' = Some (a, b)" and k: "k = trim_space a" "v = trim_space b" "k \<noteq> []" and h: "\<not> has_prefix ?l ''#''"
    using assms(1) by (auto simp: env_line_def Let_def split: if_splits option.splits prod.splits)
  have nl: "newline \<notin> set ?l" using assms(2) trim_space_subset by blast
  have sets: "set a \<subseteq> set ?l" "set b \<subseteq> set ?l" using cut_sets[OF c] by auto
  have eq: "CHR ''='' \<notin> set k" using cut_before[OF c] trim_space_subset k(1) by blast
  have "newline \<notin> set k" "newline \<notin> set v" using nl sets trim_space_subset k by blast+
  moreover have "hd k \<noteq> CHR ''#''"
  proof -
    obtain i where "a = take i ?l" using c by (auto simp: cut_def split: option.splits)
    moreover have "?l \<noteq> [] \<Longrightarrow> \<not> is_space (hd ?l)" using trimmed_ends[of ?l] by simp
    ultimately have "a \<noteq> [] \<Longrightarrow> \<not> is_space (hd a) \<and> hd a = hd ?l" by (cases i; cases ?l) auto
    moreover have "a \<noteq> []" using k by auto
    ultimately have "hd a = hd ?l" "\<not> is_space (hd a)" by auto
    then have "hd k = hd ?l" using k(1,3) \<open>a \<noteq> []\<close> trim_space_hd by simp
    then show ?thesis using h c by (cases ?l) (auto simp: has_prefix_def cut_def)
  qed
  ultimately show ?thesis using k eq by (simp add: env_key_def env_value_def)
qed

lemma set_update_subset: "set (AList.update k v vs) \<subseteq> insert (k, v) (set vs)"
  by (induction vs) auto

lemma update_pairs:
  assumes "env_pairs vs" and "env_key k" and "env_value v"
  shows "env_pairs (AList.update k v vs)"
  using assms set_update_subset[of k v vs] distinct_update[of vs k v] unfolding env_pairs_def list_all_iff by blast

lemma env_vars_split_pairs: "env_pairs (env_vars (split_on newline s))"
proof -
  have "env_pairs (foldl (\<lambda>vs l. case env_line l of None \<Rightarrow> vs | Some (k, v) \<Rightarrow> AList.update k v vs) vs ls)"
    if "env_pairs vs" "\<And>l. l \<in> set ls \<Longrightarrow> newline \<notin> set l" for vs ls
    using that
  proof (induction ls arbitrary: vs)
    case (Cons l ls)
    have "env_pairs (case env_line l of None \<Rightarrow> vs | Some (k, v) \<Rightarrow> AList.update k v vs)"
      using Cons.prems env_line_pairs[of l] update_pairs by (auto split: option.split)
    then show ?case using Cons by simp
  qed simp
  from this[of "[]" "split_on newline s"] show ?thesis
    using split_on_no_sep by (auto simp: env_vars_def env_pairs_def)
qed

lemma merge_env_pairs:
  "env_pairs base \<Longrightarrow> list_all (\<lambda>(k, v). env_key k \<and> env_value v) over \<Longrightarrow> env_pairs (merge_env base over)"
  unfolding merge_env_def by (induction over arbitrary: base) (auto simp: update_pairs)

lemma merge_env_map: "distinct (map fst over) \<Longrightarrow> map_of (merge_env base over) = map_of base ++ map_of over"
proof (induction over arbitrary: base)
  case (Cons kv over)
  obtain k v where kv: "kv = (k, v)" by (cases kv)
  have none: "map_of over k = None" using Cons.prems kv by (simp add: map_of_eq_None_iff)
  have "map_of (merge_env base (kv # over)) = (map_of base)(k \<mapsto> v) ++ map_of over"
    using Cons kv by (simp add: merge_env_def update_conv')
  also have "\<dots> = map_of base ++ map_of (kv # over)"
    using none kv by (auto simp: map_add_def fun_eq_iff split: option.splits)
  finally show ?case .
qed (simp add: merge_env_def)

lemma env_vars_settings:
  assumes "env_pairs kvs"
  shows "map_of (foldl (\<lambda>vs l. case env_line l of None \<Rightarrow> vs | Some (k, v) \<Rightarrow> AList.update k v vs) base (map setting kvs @ [[]]))
    = map_of base ++ map_of kvs"
proof -
  have "foldl (\<lambda>vs l. case env_line l of None \<Rightarrow> vs | Some (k, v) \<Rightarrow> AList.update k v vs) base (map setting kvs @ [[]]) = merge_env base kvs"
    using assms
  proof (induction kvs arbitrary: base)
    case (Cons kv kvs)
    then show ?case by (cases kv) (simp add: env_pairs_def env_line_pair merge_env_def)
  qed (simp add: env_line_Nil merge_env_def)
  then show ?thesis using merge_env_map assms by (simp add: env_pairs_def)
qed

lemma split_settings:
  "env_pairs kvs \<Longrightarrow> split_on newline (concat (map (\<lambda>(k, v). k @ ''='' @ v @ [newline]) kvs)) = map setting kvs @ [[]]"
proof (induction kvs)
  case (Cons kv kvs)
  obtain k v where kv: "kv = (k, v)" by (cases kv)
  have "newline \<notin> set (setting (k, v))" using Cons.prems kv by (simp add: env_pairs_def env_key_def env_value_def setting_def)
  from split_on_append_sep[OF this, of "concat (map (\<lambda>(k, v). k @ ''='' @ v @ [newline]) kvs)"]
  show ?case using Cons kv by (simp add: env_pairs_def setting_def)
qed simp

lemma env_file_reads_back:
  assumes "env_pairs kvs" and "env_pairs (de_visit de kvs)" and "set (de_visit de kvs) = set kvs"
  shows "map_of (env_vars (split_on newline (env_file_text de kvs))) = map_of kvs"
proof -
  let ?c = "''# Generated by Tug.sh (Git .env + Dashboard overrides)''"
  have c: "newline \<notin> set ?c" "env_line ?c = None" by (simp_all add: env_line_def has_prefix_def Let_def trim_space_def trim_by_def trim_right_by_def is_space_def)
  have "split_on newline (env_file_text de kvs) = ?c # map setting (de_visit de kvs) @ [[]]"
    using split_on_append_sep[OF c(1)] split_settings[OF assms(2)] by (simp add: env_file_text_def)
  then have "map_of (env_vars (split_on newline (env_file_text de kvs))) = map_of (de_visit de kvs)"
    using env_vars_settings[OF assms(2), of "[]"] c(2) by (simp add: env_vars_def)
  also have "\<dots> = map_of kvs"
    using assms by (subst map_of_inject_set) (simp_all add: env_pairs_def)
  finally show ?thesis .
qed

lemma read_file_calm_host: "faults h = [] \<Longrightarrow> read_file p h = (r, h1) \<Longrightarrow> h1 = h"
  by (auto simp: read_file_def Let_def pop_fault_def split: option.splits node.splits if_splits)

lemma read_env_file_calm: "faults h = [] \<Longrightarrow> snd (read_env_file p h) = h"
  by (auto simp: read_env_file_def split: prod.split sum.split dest: read_file_calm_host)

lemma read_overrides_calm: "faults h = [] \<Longrightarrow> snd (read_dashboard_env_overrides de root project h) = h"
  by (auto simp: read_dashboard_env_overrides_def split: prod.split sum.split option.split dest: read_file_calm_host)

lemma read_env_file_pairs: "env_pairs (fst (read_env_file p h))"
  using env_vars_split_pairs by (auto simp: read_env_file_def env_pairs_def split: prod.splits sum.splits)

text \<open>
  C28: After a deployment's variables were merged, the agent's own reader (\<open>readEnvFile\<close>, which the next deployment
  starts from) finds in the written file the environment of the repository overridden by the dashboard's: for every
  name the dashboard's value where there is one and the repository's otherwise, in whatever order the map was
  walked. This is for dashboard variables that fit on a line: a name that is trimmed, not empty, starts with no hash sign and holds no
  equals sign, and a trimmed value of a single line (\<open>env_pairs\<close>); any other value is written as it is and does
  not read back. How compose itself reads the file (quotes, interpolation) is not modelled.
\<close>

theorem merged_env_reads_back:
  assumes calm: "faults h = []" and room: "dir_at h (butlast (loc h (path_join [dir, ''.env''])))" "\<not> dir_at h (loc h (path_join [dir, ''.env'']))"
    and over: "fst (read_dashboard_env_overrides de root project h) = over" "env_pairs over"
    and visit: "\<And>vs. distinct (map fst vs) \<Longrightarrow> distinct (map fst (de_visit de vs)) \<and> set (de_visit de vs) = set vs"
  shows "map_of (fst (read_env_file (path_join [dir, ''.env'']) (snd (sync_project_env_file de root dir project ls h)))) =
    map_of (fst (read_env_file (path_join [dir, ''.env'']) h)) ++ map_of over"
proof -
  let ?p = "path_join [dir, ''.env'']"
  define base where "base = fst (read_env_file ?p h)"
  have rb: "read_env_file ?p h = (base, h)" using read_env_file_calm[OF calm] base_def by (metis prod.collapse)
  have ro: "read_dashboard_env_overrides de root project h = (over, h)" using read_overrides_calm[OF calm] over(1) by (metis prod.collapse)
  define vars where "vars = merge_env base over"
  have ov: "list_all (\<lambda>(k, v). env_key k \<and> env_value v) over" "distinct (map fst over)" using over(2) by (simp_all add: env_pairs_def)
  have pv: "env_pairs vars" using merge_env_pairs[OF _ ov(1)] read_env_file_pairs[of ?p h] by (simp add: vars_def base_def)
  have mv: "map_of vars = map_of base ++ map_of over" using merge_env_map[OF ov(2)] by (simp add: vars_def)
  show ?thesis
  proof (cases "vars = []")
    case True
    then have "snd (sync_project_env_file de root dir project ls h) = h"
      by (simp add: sync_project_env_file_def rb ro vars_def Let_def)
    moreover have "map_of base ++ map_of over = map_of base" using mv True by (simp add: map_add_eq_empty_iff)
    ultimately show ?thesis using rb by simp
  next
    case False
    have good: "env_pairs (de_visit de vars)" "set (de_visit de vars) = set vars"
      using visit[of vars] pv by (auto simp: env_pairs_def list_all_iff)
    let ?text = "env_file_text de vars"
    let ?h = "put_node (loc h ?p) (File ?text) (pop_fault h)"
    have w: "write_file ?p ?text h = (None, ?h)"
      using calm room by (simp add: write_file_def write_with_def Let_def fault_of_def split: option.split node.split)
    have "snd (sync_project_env_file de root dir project ls h) = ?h"
      using False by (simp add: sync_project_env_file_def rb ro vars_def[symmetric] Let_def w)
    moreover have "read_file ?p ?h = (Inr ?text, pop_fault ?h)"
      by (rule read_file_found) (use calm in \<open>simp_all add: loc_def file_at_def\<close>)
    ultimately show ?thesis
      using env_file_reads_back[OF pv good] mv base_def by (simp add: read_env_file_def)
  qed
qed

theorem merged_env_reads_back_witness:
  "map_of (fst (read_env_file (path_join [''/r/projects/p'', ''.env''])
     (snd (sync_project_env_file demo_deploy ''/r'' ''/r/projects/p'' ''p'' [] demo_projects)))) = [''A'' \<mapsto> ''2'']"
proof -
  have o: "fst (read_dashboard_env_overrides demo_deploy ''/r'' ''p'' demo_projects) = [(''A'', ''2'')]"
    using first_deploy_overrides_before .
  have c: "faults demo_projects = []" by (simp add: demo_projects_def)
  have room: "dir_at demo_projects (butlast (loc demo_projects (path_join [''/r/projects/p'', ''.env''])))"
    "\<not> dir_at demo_projects (loc demo_projects (path_join [''/r/projects/p'', ''.env'']))"
    by (simp_all add: demo_projects_def model_defs)
  have p: "env_pairs [(''A'', ''2'')]" by (simp add: env_pairs_def env_key_def env_value_def model_defs)
  have v: "distinct (map fst vs) \<Longrightarrow> distinct (map fst (de_visit demo_deploy vs)) \<and> set (de_visit demo_deploy vs) = set vs" for vs
    by (simp add: demo_deploy_def)
  have b: "map_of (fst (read_env_file (path_join [''/r/projects/p'', ''.env'']) demo_projects)) = [''A'' \<mapsto> ''1'']"
    by (simp add: demo_projects_def read_env_file_def env_vars_def env_line_def Let_def model_defs)
  show ?thesis
    using merged_env_reads_back[OF c room o p v, where ls="[]"] b by simp
qed

text \<open>The name of an image built from any project id is one docker takes.\<close>

lemma nixpacks_image_name_safe:
  "list_all (\<lambda>c. is_lower_letter c \<or> is_digit c \<or> c = CHR ''-'' \<or> c = CHR ''_'') (nixpacks_image_name project)"
proof -
  let ?safe = "\<lambda>c. is_lower_letter c \<or> is_digit c \<or> c = CHR ''-'' \<or> c = CHR ''_''"
  have "?safe c" if "c \<in> set (trim_by p (map image_char s))" for c p s
    using subsetD[OF set_trim_by that] by (auto simp: image_char_def)
  then show ?thesis
    by (auto simp: nixpacks_image_name_def Let_def list_all_iff) (simp_all add: is_lower_letter_def is_digit_def code_def)
qed

end
