(* ===== verification/Import_Text.thy ===== *)
theory Import_Text
  imports Deploy "HOL-Library.Multiset"
begin

text \<open>
  \<open>internal/importer/compose\_cleaner.go\<close> and the text functions of \<open>dokploy.go\<close> and \<open>detector.go\<close>: the
  routes and ports read off the labels of a compose file, the labels stripped from it, the environment
  file, and the names of imported projects. The regular expressions are fixed, so each is written out as a
  matcher of its own; the greedy runs in them are disjoint from what follows, so no match
  depends on backtracking. The order in which the map of routes is ranged over is a parameter.
\<close>

section \<open>Matching\<close>

text \<open>A matcher tries one position: the captured group and the text after the match.\<close>

type_synonym matcher = "string \<Rightarrow> (string \<times> string) option"

fun first_match :: "matcher \<Rightarrow> matcher" where
  "first_match m [] = m []"
| "first_match m (c # s) = (case m (c # s) of Some r \<Rightarrow> Some r | None \<Rightarrow> first_match m s)"

text \<open>
  \<open>FindAllStringSubmatch\<close>: each search starts behind the match before. All matchers here consume text, so
  the guard that keeps the recursion going always holds after a match.
\<close>

function all_matches :: "matcher \<Rightarrow> string \<Rightarrow> string list" where
  "all_matches m s =
     (case first_match m s of
        None \<Rightarrow> []
      | Some (g, rest) \<Rightarrow> g # (if length rest < length s then all_matches m rest else []))"
  by pat_completeness auto
termination by (relation "measure (\<lambda>(m, s). length s)") auto

declare all_matches.simps [simp del]

text \<open>\<open>Host\(([^)]+)\)\<close>\<close>

definition host_rule :: matcher where
  "host_rule s =
     (let rest = drop 5 s; g = takeWhile (\<lambda>c. c \<noteq> CHR '')'') rest; after = drop (length g) rest in
      if has_prefix s ''Host('' \<and> g \<noteq> [] \<and> after \<noteq> [] then Some (g, tl after) else None)"

definition is_quote :: "char \<Rightarrow> bool" where
  "is_quote c \<longleftrightarrow> c = CHR 0x27 \<or> c = CHR 0x60 \<or> c = CHR 0x22"

definition is_alnum :: "char \<Rightarrow> bool" where
  "is_alnum c \<longleftrightarrow> is_lower_letter c \<or> is_upper_letter c \<or> is_digit c"

definition domain_char :: "char \<Rightarrow> bool" where
  "domain_char c \<longleftrightarrow> is_alnum c \<or> c = CHR ''.'' \<or> c = CHR ''-''"

text \<open>A domain between two quotes of any kind.\<close>

definition quoted_domain :: matcher where
  "quoted_domain s =
     (case s of
        [] \<Rightarrow> None
      | q # t \<Rightarrow>
          (let g = takeWhile domain_char t; after = drop (length g) t in
           if is_quote q \<and> g \<noteq> [] \<and> after \<noteq> [] \<and> is_quote (hd after) then Some (g, tl after) else None))"

text \<open>\<open>(?:loadbalancer\.server\.port|port)[:=\s]+["']?([0-9]+)["']?\<close>, where \<open>\s\<close> has no vertical tab.\<close>

definition port_separator :: "char \<Rightarrow> bool" where
  "port_separator c \<longleftrightarrow> c \<in> {CHR '':'', CHR ''='', CHR '' '', tab, newline, CHR 0x0C, CHR 0x0D}"

definition single_or_double :: "char \<Rightarrow> bool" where
  "single_or_double c \<longleftrightarrow> c = CHR 0x22 \<or> c = CHR 0x27"

definition skip_one :: "(char \<Rightarrow> bool) \<Rightarrow> string \<Rightarrow> string" where
  "skip_one p s = (if s \<noteq> [] \<and> p (hd s) then tl s else s)"

definition lb_port :: string where "lb_port = ''loadbalancer.server.port''"

definition port_label :: matcher where
  "port_label s =
     (let body = (if has_prefix s lb_port then Some (drop (length lb_port) s)
                  else if has_prefix s ''port'' then Some (drop 4 s) else None)
      in case body of
           None \<Rightarrow> None
         | Some t \<Rightarrow>
             (let u = skip_one single_or_double (dropWhile port_separator t); g = takeWhile is_digit u in
              if t \<noteq> [] \<and> port_separator (hd t) \<and> g \<noteq> []
              then Some (g, skip_one single_or_double (drop (length g) u)) else None))"

text \<open>\<open>^[ \t]{2}([a-zA-Z0-9_-]+):[ \t]*$\<close> on one line.\<close>

definition service_name :: "string \<Rightarrow> string option" where
  "service_name l =
     (let blank = (\<lambda>c. c = CHR '' '' \<or> c = tab); g = takeWhile (\<lambda>c. is_alnum c \<or> c = CHR ''_'' \<or> c = CHR ''-'') (drop 2 l);
          after = drop (length g) (drop 2 l)
      in if length (take 2 l) = 2 \<and> list_all blank (take 2 l) \<and> g \<noteq> [] \<and> after \<noteq> [] \<and> hd after = CHR '':'' \<and> list_all blank (tl after)
         then Some g else None)"

section \<open>Routes (compose\_cleaner.go)\<close>

record domain_route =
  dr_domain :: string
  dr_service :: string
  dr_port :: int
  dr_https :: bool

definition max_scan_token :: nat where "max_scan_token = 64 * 1024"

record cleaning =
  cl_service :: string
  cl_routes :: "(string \<times> domain_route) list"
  cl_kept :: "string list"

definition is_router_rule :: "string \<Rightarrow> bool" where
  "is_router_rule l \<longleftrightarrow> contains l ''traefik.http.routers'' \<and> contains l ''rule''"

text \<open>The domains of a rule, as they are looked up.\<close>

definition rule_domains :: "string \<Rightarrow> string list" where
  "rule_domains rule = filter (\<lambda>d. d \<noteq> []) (map (\<lambda>d. to_lower (trim_space d)) (all_matches quoted_domain rule))"

definition line_domains :: "string \<Rightarrow> string list" where
  "line_domains l =
     (if is_router_rule l
      then (case first_match host_rule l of None \<Rightarrow> [] | Some (rule, _) \<Rightarrow> rule_domains rule) else [])"

definition put_route :: "string \<Rightarrow> string \<Rightarrow> (string \<times> domain_route) list \<Rightarrow> (string \<times> domain_route) list" where
  "put_route service d rs =
     AList.update d \<lparr>dr_domain = d, dr_service = service, dr_port = (case map_of rs d of None \<Rightarrow> 0 | Some r \<Rightarrow> dr_port r), dr_https = True\<rparr> rs"

definition line_port :: "string \<Rightarrow> int option" where
  "line_port l =
     (if contains l lb_port
      then (case first_match port_label l of
              None \<Rightarrow> None
            | Some (g, _) \<Rightarrow> (case atoi g of None \<Rightarrow> None | Some p \<Rightarrow> if p > 0 then Some p else None))
      else None)"

definition put_port :: "string \<Rightarrow> int \<Rightarrow> (string \<times> domain_route) list \<Rightarrow> (string \<times> domain_route) list" where
  "put_port service p rs = map (\<lambda>(d, r). (d, if dr_service r = service \<and> dr_port r = 0 then r\<lparr>dr_port := p\<rparr> else r)) rs"

definition panel_labels :: "string list" where
  "panel_labels = [''traefik.'', ''coolify.managed'', ''coolify.type'', ''coolify.name'', ''coolify.applicationid'', ''coolify.serviceid'']"

definition is_label_to_strip :: "string \<Rightarrow> bool" where
  "is_label_to_strip l = list_ex (contains (to_lower l)) panel_labels"

definition next_service :: "string \<Rightarrow> string \<Rightarrow> string" where
  "next_service cur l =
     (case service_name l of
        Some g \<Rightarrow> if has_prefix (trim_space l) ''volumes:'' \<or> has_prefix (trim_space l) ''networks:'' then cur else g
      | None \<Rightarrow> cur)"

definition clean_line :: "cleaning \<Rightarrow> string \<Rightarrow> cleaning" where
  "clean_line st l =
     (let service = next_service (cl_service st) l;
          rs = foldl (\<lambda>rs d. put_route service d rs) (cl_routes st) (line_domains l);
          rs2 = (case line_port l of None \<Rightarrow> rs | Some p \<Rightarrow> put_port service p rs)
      in \<lparr>cl_service = service, cl_routes = rs2,
          cl_kept = (if is_label_to_strip (trim_space l) then cl_kept st else cl_kept st @ [l])\<rparr>)"

definition nothing_read :: cleaning where
  "nothing_read = \<lparr>cl_service = [], cl_routes = [], cl_kept = []\<rparr>"

definition extract_routes_and_clean_compose ::
  "(domain_route list \<Rightarrow> domain_route list) \<Rightarrow> string \<Rightarrow> string \<times> domain_route list" where
  "extract_routes_and_clean_compose order raw =
     (let st = foldl clean_line nothing_read (fst (scan_lines max_scan_token raw))
      in (trim_space (join [newline] (cl_kept st)), order (map snd (cl_routes st))))"

section \<open>The environment file\<close>

definition unquoted :: "string \<Rightarrow> string" where
  "unquoted v =
     (if length v \<ge> 2 \<and> (hd v = CHR 0x22 \<and> last v = CHR 0x22 \<or> hd v = CHR 0x27 \<and> last v = CHR 0x27) then butlast (tl v) else v)"

definition env_entry :: "string \<Rightarrow> (string \<times> string) option" where
  "env_entry raw =
     (let l = trim_space raw in
      if l = [] \<or> has_prefix l ''#'' then None
      else (case cut l ''='' of
              None \<Rightarrow> None
            | Some (a, b) \<Rightarrow> (if trim_space a = [] then None else Some (trim_space a, unquoted (trim_space b)))))"

definition parse_env_file :: "string \<Rightarrow> (string \<times> string) list" where
  "parse_env_file content =
     foldl (\<lambda>env l. case env_entry l of None \<Rightarrow> env | Some (k, v) \<Rightarrow> AList.update k v env) []
       (fst (scan_lines max_scan_token content))"

section \<open>Names (dokploy.go)\<close>

text \<open>The process id is an argument.\<close>

definition slug_char :: "char \<Rightarrow> string" where
  "slug_char c =
     (if is_lower_letter c \<or> is_digit c \<or> c = CHR ''-'' then [c]
      else if c = CHR ''_'' \<or> c = CHR '' '' then [CHR ''-''] else [])"

definition slugify :: "int \<Rightarrow> string \<Rightarrow> string" where
  "slugify pid s =
     (let res = trim_by (\<lambda>c. c = CHR ''-'') (concat (map slug_char (to_lower (trim_space s))))
      in if res = [] then ''project-'' @ itoa pid else res)"

section \<open>Versions (detector.go)\<close>

definition extract_version_from_image :: "string \<Rightarrow> string" where
  "extract_version_from_image img =
     (if img = [] then [] else (let parts = split_on CHR '':'' img in if length parts \<ge> 2 then last parts else img))"

section \<open>What is found, and what is left\<close>

lemma first_match_matches: "first_match m s = Some (g, rest) \<Longrightarrow> \<exists>t. m t = Some (g, rest)"
  by (induction s) (auto split: option.splits)

lemma all_matches_match: "g \<in> set (all_matches m s) \<Longrightarrow> \<exists>t rest. m t = Some (g, rest)"
proof (induction m s rule: all_matches.induct)
  case (1 m s)
  note unfolded = all_matches.simps[of m s]
  show ?case
  proof (cases "first_match m s")
    case None
    then show ?thesis using 1(2) unfolded by simp
  next
    case (Some r)
    obtain a b where r: "r = (a, b)" by fastforce
    then have "g = a \<or> length b < length s \<and> g \<in> set (all_matches m b)"
      using 1(2) Some unfolded by (simp split: if_splits)
    then show ?thesis using 1(1)[OF Some r[symmetric]] first_match_matches[of m s a b] Some r by blast
  qed
qed

lemma quoted_domain_group: "quoted_domain s = Some (g, rest) \<Longrightarrow> g \<noteq> [] \<and> list_all domain_char g"
  by (auto simp: quoted_domain_def Let_def list_all_iff split: list.splits if_splits dest: set_takeWhileD)

lemma domain_char_lower: "domain_char c \<Longrightarrow> domain_char (lower_char c)"
  by (auto simp: domain_char_def is_alnum_def lower_char_def is_upper_letter_def is_lower_letter_def is_digit_def code_def)

definition domain_ok :: "string \<Rightarrow> bool" where
  "domain_ok d \<longleftrightarrow> d \<noteq> [] \<and> list_all domain_char d \<and> to_lower d = d"

lemma rule_domains_ok: "d \<in> set (rule_domains rule) \<Longrightarrow> domain_ok d"
proof -
  assume "d \<in> set (rule_domains rule)"
  then obtain g where g: "g \<in> set (all_matches quoted_domain rule)" "d = to_lower (trim_space g)" "d \<noteq> []"
    by (auto simp: rule_domains_def)
  have "list_all domain_char g" using all_matches_match[OF g(1)] quoted_domain_group by blast
  then have "list_all domain_char (trim_space g)" using trim_space_subset[of _ g] by (auto simp: list_all_iff)
  then have "list_all domain_char d" using g(2) by (auto simp: to_lower_def list_all_iff domain_char_lower)
  then show "domain_ok d" using g by (simp add: domain_ok_def)
qed

lemma line_domains_ok: "d \<in> set (line_domains l) \<Longrightarrow> domain_ok d"
  by (cases "is_router_rule l"; cases "first_match host_rule l") (auto simp: line_domains_def dest: rule_domains_ok)

lemma line_port_pos: "line_port l = Some p \<Longrightarrow> p > 0"
  by (auto simp: line_port_def split: if_splits option.splits)

text \<open>The service in force on each line.\<close>

fun in_services :: "string \<Rightarrow> string list \<Rightarrow> (string \<times> string) list" where
  "in_services cur [] = []"
| "in_services cur (l # ls) = (next_service cur l, l) # in_services (next_service cur l) ls"

lemma in_services_append:
  "in_services cur (ls @ [l]) = in_services cur ls @ [(next_service (foldl next_service cur ls) l, l)]"
  by (induction ls arbitrary: cur) simp_all

definition named_on :: "string \<Rightarrow> (string \<times> string) list \<Rightarrow> string list" where
  "named_on d sls = map fst (filter (\<lambda>(_, l). d \<in> set (line_domains l)) sls)"

definition named_domains :: "string list \<Rightarrow> string set" where
  "named_domains ls = (\<Union>l\<in>set ls. set (line_domains l))"

text \<open>What a route found on some lines says: the service last in force where its domain was named, and no port but one of a label.\<close>

definition route_ok :: "string list \<Rightarrow> domain_route \<Rightarrow> bool" where
  "route_ok ls r \<longleftrightarrow>
     dr_domain r \<in> named_domains ls \<and> dr_https r \<and> dr_service r = last (named_on (dr_domain r) (in_services [] ls)) \<and>
     (dr_port r = 0 \<or> (\<exists>l\<in>set ls. line_port l = Some (dr_port r)))"

definition found_ok :: "string list \<Rightarrow> (string \<times> domain_route) list \<Rightarrow> bool" where
  "found_ok ls rs \<longleftrightarrow>
     distinct (map fst rs) \<and>
     (\<forall>d. case map_of rs d of None \<Rightarrow> d \<notin> named_domains ls | Some r \<Rightarrow> dr_domain r = d \<and> route_ok ls r)"

lemma map_of_put_routes:
  "map_of (foldl (\<lambda>rs d. put_route s d rs) rs ds) d =
     (if d \<in> set ds then Some \<lparr>dr_domain = d, dr_service = s, dr_port = (case map_of rs d of None \<Rightarrow> 0 | Some r \<Rightarrow> dr_port r), dr_https = True\<rparr>
      else map_of rs d)"
  by (induction ds arbitrary: rs) (simp_all add: put_route_def update_conv')

lemma map_of_put_port:
  "map_of (put_port s p rs) d = map_option (\<lambda>r. if dr_service r = s \<and> dr_port r = 0 then r\<lparr>dr_port := p\<rparr> else r) (map_of rs d)"
  by (induction rs) (simp_all add: put_port_def case_prod_beta)

lemma distinct_put: "distinct (map fst rs) \<Longrightarrow> distinct (map fst (foldl (\<lambda>rs d. put_route s d rs) rs ds))"
  "distinct (map fst rs) \<Longrightarrow> distinct (map fst (put_port s p rs))"
  by (induction ds arbitrary: rs) (simp_all add: put_route_def distinct_update put_port_def comp_def case_prod_beta)

lemma named_domains_append: "named_domains (ls @ [l]) = named_domains ls \<union> set (line_domains l)"
  by (auto simp: named_domains_def)

lemma named_on_append:
  "named_on d (in_services [] (ls @ [l])) =
     named_on d (in_services [] ls) @ (if d \<in> set (line_domains l) then [next_service (foldl next_service [] ls) l] else [])"
  by (simp add: in_services_append named_on_def)

text \<open>One more line: the routes it names are put first, and then its port.\<close>

lemma found_ok_routes:
  assumes "found_ok ls rs"
  shows "found_ok (ls @ [l]) (foldl (\<lambda>rs d. put_route (next_service (foldl next_service [] ls) l) d rs) rs (line_domains l))"
proof -
  have "case map_of (foldl (\<lambda>rs d. put_route (next_service (foldl next_service [] ls) l) d rs) rs (line_domains l)) d of
      None \<Rightarrow> d \<notin> named_domains (ls @ [l]) | Some r \<Rightarrow> dr_domain r = d \<and> route_ok (ls @ [l]) r" for d
  proof -
    have "case map_of rs d of None \<Rightarrow> d \<notin> named_domains ls | Some r \<Rightarrow> dr_domain r = d \<and> route_ok ls r"
      using assms by (simp add: found_ok_def)
    then show ?thesis
      by (auto simp: map_of_put_routes route_ok_def named_domains_append named_on_append split: option.splits if_splits)
  qed
  then show ?thesis using assms by (simp add: found_ok_def distinct_put)
qed

lemma found_ok_port:
  assumes "found_ok ls rs" and "l \<in> set ls" and "line_port l = Some p"
  shows "found_ok ls (put_port s p rs)"
proof -
  have "case map_of (put_port s p rs) d of None \<Rightarrow> d \<notin> named_domains ls | Some r \<Rightarrow> dr_domain r = d \<and> route_ok ls r" for d
  proof -
    have "case map_of rs d of None \<Rightarrow> d \<notin> named_domains ls | Some r \<Rightarrow> dr_domain r = d \<and> route_ok ls r"
      using assms by (simp add: found_ok_def)
    then show ?thesis using assms(2,3) by (auto simp: map_of_put_port route_ok_def split: option.splits)
  qed
  then show ?thesis using assms by (simp add: found_ok_def distinct_put)
qed

lemma cleaning_after:
  "cl_service (foldl clean_line nothing_read ls) = foldl next_service [] ls \<and>
   cl_kept (foldl clean_line nothing_read ls) = filter (\<lambda>l. \<not> is_label_to_strip (trim_space l)) ls \<and>
   found_ok ls (cl_routes (foldl clean_line nothing_read ls))"
proof (induction ls rule: rev_induct)
  case Nil
  show ?case by (simp add: nothing_read_def found_ok_def named_domains_def)
next
  case (snoc l ls)
  let ?rs = "foldl (\<lambda>rs d. put_route (next_service (foldl next_service [] ls) l) d rs) (cl_routes (foldl clean_line nothing_read ls)) (line_domains l)"
  have "found_ok (ls @ [l]) ?rs" using snoc found_ok_routes by blast
  then show ?case using snoc found_ok_port[of "ls @ [l]" ?rs l] by (simp add: clean_line_def[of "foldl clean_line nothing_read ls" l] Let_def split: option.split)
qed

text \<open>What is in the map of routes is what comes out of it, in any order.\<close>

lemma found_ok_listed:
  assumes "found_ok ls rs" and ms: "mset routes = mset (map snd rs)"
  shows "distinct (map dr_domain routes) \<and> dr_domain ` set routes = named_domains ls \<and>
    list_all (\<lambda>r. domain_ok (dr_domain r) \<and> route_ok ls r) routes"
proof -
  have d: "distinct (map fst rs)" using assms(1) by (simp add: found_ok_def)
  have entry: "case map_of rs d of None \<Rightarrow> d \<notin> named_domains ls | Some r \<Rightarrow> dr_domain r = d \<and> route_ok ls r" for d
    using assms(1) by (simp add: found_ok_def)
  have each: "dr_domain r = d \<and> route_ok ls r" if "(d, r) \<in> set rs" for d r
    using entry[of d] map_of_is_SomeI[OF d that] by simp
  have keys: "map dr_domain (map snd rs) = map fst rs" using each by (auto simp: comp_def)
  have "mset (map dr_domain routes) = mset (map fst rs)" using ms keys by (metis mset_map)
  then have "distinct (map dr_domain routes)" using d by (metis mset_eq_imp_distinct_iff)
  moreover have set: "set routes = snd ` set rs" using mset_eq_setD[OF ms] by simp
  moreover have "d \<in> fst ` set rs \<longleftrightarrow> d \<in> named_domains ls" for d
  proof (cases "map_of rs d")
    case None
    moreover have "d \<notin> named_domains ls" using entry[of d] None by simp
    ultimately show ?thesis by (simp add: map_of_eq_None_iff)
  next
    case (Some r)
    then have "d \<in> named_domains ls" using entry[of d] by (auto simp: route_ok_def)
    then show ?thesis using map_of_SomeD[OF Some] by force
  qed
  moreover have "dr_domain ` snd ` set rs = fst ` set rs" using arg_cong[OF keys, of set] by (simp add: image_image)
  moreover have "domain_ok (dr_domain r) \<and> route_ok ls r" if r_in: "r \<in> snd ` set rs" for r
  proof -
    have "route_ok ls r" using r_in each by fastforce
    moreover have "dr_domain r \<in> named_domains ls" using calculation by (simp add: route_ok_def)
    ultimately show ?thesis using line_domains_ok unfolding named_domains_def by blast
  qed
  ultimately show ?thesis by (auto simp: list_all_iff)
qed

text \<open>
  C30: A scan reads exactly the routes a compose file declares, when no line of it reaches the 64 KiB at which the
  scanner stops, and whatever order the map of routes is ranged over in. There is one route for each domain
  named in a Traefik router rule and for no other; it is a lower-case host name, it points to the service in
  force at the last rule that names it, and its port is none or the port of a label in the file. What is left
  of the file are its lines in order, each without one carriage return at its end, but for every line that
  contains one of the texts the agent takes for a panel's label (such as \<open>traefik.\<close>) in any case,
  label or not; the white space around the whole is trimmed.
\<close>

theorem imported_routes_exact:
  assumes "\<And>rs. mset (order rs) = mset rs"
    and "list_all (\<lambda>l. length l < max_scan_token) (split_on newline raw)"
    and "extract_routes_and_clean_compose order raw = (cleaned, routes)"
  shows "distinct (map dr_domain routes) \<and> dr_domain ` set routes = named_domains (map drop_cr (text_lines raw)) \<and>
    list_all (\<lambda>r. domain_ok (dr_domain r) \<and> route_ok (map drop_cr (text_lines raw)) r) routes \<and>
    cleaned = trim_space (join [newline] (filter (\<lambda>l. \<not> is_label_to_strip (trim_space l)) (map drop_cr (text_lines raw))))"
proof -
  let ?ls = "map drop_cr (text_lines raw)"
  let ?st = "foldl clean_line nothing_read ?ls"
  have "fst (scan_lines max_scan_token raw) = ?ls" using scan_lines_short[OF assms(2)] by simp
  then have out: "cleaned = trim_space (join [newline] (cl_kept ?st))" "routes = order (map snd (cl_routes ?st))"
    using assms(3) by (simp_all add: extract_routes_and_clean_compose_def Let_def)
  have "mset routes = mset (map snd (cl_routes ?st))" using out(2) assms(1) by simp
  moreover have "found_ok ?ls (cl_routes ?st)" "cl_kept ?st = filter (\<lambda>l. \<not> is_label_to_strip (trim_space l)) ?ls"
    using cleaning_after[of ?ls] by simp_all
  ultimately show ?thesis using found_ok_listed[of ?ls "cl_routes ?st" routes] out(1) by simp
qed

definition demo_compose :: string where
  "demo_compose = join [newline]
     [''services:'', ''  web:'', ''      - traefik.http.routers.web.rule=Host('' @ quote @ ''A.io'' @ quote @ '')'',
      ''      - traefik.http.services.web.loadbalancer.server.port=80'', ''    image: web'']"

theorem imported_routes_exact_witness:
  "dr_domain ` set (snd (extract_routes_and_clean_compose rev demo_compose)) = {''a.io''} \<and>
   fst (extract_routes_and_clean_compose rev demo_compose) = join [newline] [''services:'', ''  web:'', ''    image: web'']"
proof -
  have m: "mset (rev rs) = mset rs" for rs :: "domain_route list" by simp
  let ?ls = "[''services:'', ''  web:'', ''      - traefik.http.routers.web.rule=Host('' @ quote @ ''A.io'' @ quote @ '')'',
      ''      - traefik.http.services.web.loadbalancer.server.port=80'', ''    image: web'']"
  have sp: "split_on newline demo_compose = ?ls" by code_simp
  have s: "list_all (\<lambda>l. length l < max_scan_token) (split_on newline demo_compose)" unfolding sp by (simp add: max_scan_token_def)
  have n: "map drop_cr (text_lines demo_compose) = ?ls" by code_simp
  have d: "concat (map line_domains (map drop_cr (text_lines demo_compose))) = [''a.io'']" unfolding n by code_simp
  have k: "trim_space (join [newline] (filter (\<lambda>l. \<not> is_label_to_strip (trim_space l)) (map drop_cr (text_lines demo_compose)))) =
      join [newline] [''services:'', ''  web:'', ''    image: web'']" unfolding n by code_simp
  have "named_domains (map drop_cr (text_lines demo_compose)) = {''a.io''}"
    using arg_cong[OF d, of set] by (simp add: named_domains_def)
  then show ?thesis
    using imported_routes_exact[OF m s, of _ "snd (extract_routes_and_clean_compose rev demo_compose)"] k by (metis prod.collapse)
qed


end
