(* ===== verification/Router.thy ===== *)
theory Router
  imports Docker Config Outbox
begin

text \<open>
  \<open>internal/router\<close>: the edge proxy's container, the persisted routes, and the configuration rendered
  from them. The JSON form of the route list is a parameter.
\<close>

section \<open>The installation (router.go)\<close>

record router_spec =
  rs_image :: string
  rs_network :: string
  rs_restart :: string
  rs_http_port :: int
  rs_https_port :: int
  rs_config_path :: path
  rs_reload :: "string list"

definition spec_from_config :: "config \<Rightarrow> router_spec" where
  "spec_from_config c =
     (let p = trim_space (cf_router_config c)
      in \<lparr>rs_image = trim_space (cf_router_image c), rs_network = trim_space (cf_router_network c), rs_restart = ''unless-stopped'',
          rs_http_port = cf_http_port c, rs_https_port = cf_https_port c, rs_config_path = p,
          rs_reload = [''caddy'', ''reload'', ''--config'', p]\<rparr>)"

definition err_not_installed :: go_error where
  "err_not_installed = Sentinel ''tug-router container is not installed''"

definition resolve_container_name :: "sys \<Rightarrow> host \<Rightarrow> (go_error, string) result \<times> host" where
  "resolve_container_name sys = find_container_name_by_label sys ''tug.app=tug-router''"

text \<open>The four random bytes are an argument; \<open>None\<close> when the reader fails.\<close>

definition generate_container_name :: "8 word list option \<Rightarrow> (go_error, string) result" where
  "generate_container_name rnd =
     (case rnd of None \<Rightarrow> Inl (IOError ''rand'') | Some bs \<Rightarrow> Inr (''tug-router-'' @ to_lower (hex bs)))"

definition remove_previous :: "sys \<Rightarrow> string list \<Rightarrow> host \<Rightarrow> outcome \<times> host" where
  "remove_previous sys lines h =
     (case resolve_container_name sys h of
        (Inl _, h1) \<Rightarrow> ((lines @ [''No previous TugRouter container found.''], None), h1)
      | (Inr name, h1) \<Rightarrow>
          (let ((out, err), h2) = remove_container sys name h1
           in ((lines @ [''Removing previous TugRouter container '' @ name @ ''...''] @ output_lines out,
                map_option (\<lambda>e. Wrapf ''cannot remove previous tug-router container: '' e []) err), h2)))"

definition router_install :: "sys \<Rightarrow> router_spec \<Rightarrow> 8 word list option \<Rightarrow> string \<Rightarrow> host \<Rightarrow> outcome \<times> host" where
  "router_install sys spec rnd override h =
     (case generate_container_name rnd of
        Inl e \<Rightarrow> (([], Some e), h)
      | Inr name \<Rightarrow>
          (let img = (if trim_space override = [] then rs_image spec else trim_space override) in
           case remove_previous sys [''Preparing TugRouter installation...''] h of
             ((ls, Some e), h1) \<Rightarrow> ((ls, Some e), h1)
           | ((ls, None), h1) \<Rightarrow>
               (let ((out, err), h2) = run_container sys
                      \<lparr>cs_name = name, cs_image = img, cs_network = rs_network spec, cs_restart = rs_restart spec,
                       cs_labels = [(''tug.app'', ''tug-router''), (''tug.managed'', ''true'')],
                       cs_ports = [\<lparr>host_port = rs_http_port spec, container_port = rs_http_port spec\<rparr>,
                                   \<lparr>host_port = rs_https_port spec, container_port = rs_https_port spec\<rparr>]\<rparr> h1;
                    ls2 = ls @ [''Starting TugRouter container '' @ name @ ''...'', ''Using image '' @ img] @ output_lines out
                in case err of
                     Some e \<Rightarrow> ((ls2, Some (Wrapf ''cannot start tug-router container: '' e [])), h2)
                   | None \<Rightarrow> ((ls2 @ [''TugRouter is installed and running.''], None), h2))))"

section \<open>Routes (routes.go)\<close>

record route =
  rt_domain :: string
  rt_target :: string
  rt_port :: int
  rt_target_id :: string

record route_codec =
  enc_routes :: "route list \<Rightarrow> string option"
  dec_routes :: "string \<Rightarrow> route list option"

definition decode_routes :: "route_codec \<Rightarrow> string \<Rightarrow> (go_error, route list) result" where
  "decode_routes rc raw =
     (if raw = [] then Inr []
      else (case dec_routes rc raw of None \<Rightarrow> Inl (Msg ''invalid character'') | Some rs \<Rightarrow> Inr rs))"

definition routes_path :: "host \<Rightarrow> path" where
  "routes_path h = path_join [data_dir h, ''tug-router'', ''routes.json'']"

text \<open>\<open>os.TempDir\<close>.\<close>

definition temp_dir :: "host \<Rightarrow> path" where
  "temp_dir h = (if getenv h ''TMPDIR'' = [] then ''/tmp'' else getenv h ''TMPDIR'')"

definition staged_config_path :: "host \<Rightarrow> string \<Rightarrow> path" where
  "staged_config_path h name = path_join [temp_dir h, name @ ''-Caddyfile'']"

definition persist_routes :: "route_codec \<Rightarrow> route list \<Rightarrow> host \<Rightarrow> go_error option \<times> host" where
  "persist_routes rc routes h =
     (case enc_routes rc routes of
        None \<Rightarrow> (Some (Msg ''json: unsupported value''), h)
      | Some raw \<Rightarrow>
          (case mkdir_all (path_dir (routes_path h)) h of
             (Some e, h1) \<Rightarrow> (Some e, h1)
           | (None, h1) \<Rightarrow> write_file (routes_path h) raw h1))"

definition load_routes :: "route_codec \<Rightarrow> string \<Rightarrow> host \<Rightarrow> (go_error, route list) result \<times> host" where
  "load_routes rc name h =
     (case read_file (routes_path h) h of
        (Inr raw, h1) \<Rightarrow> (decode_routes rc raw, h1)
      | (Inl e, h1) \<Rightarrow>
          (if \<not> is_not_exist e then (Inl e, h1)
           else (case read_file (path_join [temp_dir h1, name @ ''-routes.json'']) h1 of
                   (Inl e2, h2) \<Rightarrow> (if is_not_exist e2 then (Inr [], h2) else (Inl e2, h2))
                 | (Inr raw, h2) \<Rightarrow>
                     (case decode_routes rc raw of
                        Inl e2 \<Rightarrow> (Inl e2, h2)
                      | Inr rs \<Rightarrow> (Inr rs, snd (persist_routes rc rs h2))))))"

definition same_container :: "route \<Rightarrow> route \<Rightarrow> bool" where
  "same_container r desired \<longleftrightarrow>
     (trim_space (rt_target_id r) \<noteq> [] \<and> rt_target_id desired \<noteq> [] \<and> trim_space (rt_target_id r) = rt_target_id desired) \<or>
     equal_fold (trim_space (rt_target r)) (rt_target desired)"

fun upsert_route :: "route list \<Rightarrow> route \<Rightarrow> (go_error, route list) result" where
  "upsert_route [] desired = Inr [desired]"
| "upsert_route (r # rs) desired =
     (if \<not> equal_fold (rt_domain r) (rt_domain desired)
      then (case upsert_route rs desired of Inl e \<Rightarrow> Inl e | Inr rs' \<Rightarrow> Inr (r # rs'))
      else if \<not> same_container r desired
      then Inl (Msg (''domain '' @ rt_domain desired @ '' is already assigned to container '' @ trim_space (rt_target r)))
      else Inr (desired # rs))"

definition render_config :: "router_spec \<Rightarrow> route list \<Rightarrow> string" where
  "render_config spec routes =
     (if routes = []
      then '':'' @ itoa (rs_http_port spec) @ '' {'' @ [newline, tab] @ ''respond '' @ quote @ ''tug-router is running'' @ quote @ '' 200'' @ [newline] @ ''}'' @ [newline]
      else concat (map (\<lambda>r. trim_space (rt_domain r) @ '' {'' @ [newline, tab] @ ''reverse_proxy '' @ trim_space (rt_target r) @
                              '':'' @ itoa (rt_port r) @ [newline] @ ''}'' @ [newline, newline]) routes))"

definition apply_routes :: "sys \<Rightarrow> route_codec \<Rightarrow> router_spec \<Rightarrow> string \<Rightarrow> route list \<Rightarrow> host \<Rightarrow> outcome \<times> host" where
  "apply_routes sys rc spec name routes h =
     (case persist_routes rc routes h of
        (Some e, h1) \<Rightarrow> (([], Some e), h1)
      | (None, h1) \<Rightarrow>
          (let staged = staged_config_path h1 name in
           case write_file staged (render_config spec routes) h1 of
             (Some e, h2) \<Rightarrow> (([], Some e), h2)
           | (None, h2) \<Rightarrow>
               (case copy_to_container sys staged name (rs_config_path spec) h2 of
                  ((out, Some e), h3) \<Rightarrow> (([], Some (Wrapf (''cannot upload router config: '' @ out @ '': '') e [])), h3)
                | ((out, None), h3) \<Rightarrow>
                    (case exec_in_container sys name (rs_reload spec) h3 of
                       ((out2, Some e), h4) \<Rightarrow> (([''Router config updated.''], Some (Wrapf (''cannot reload router config: '' @ out2 @ '': '') e [])), h4)
                     | ((out2, None), h4) \<Rightarrow> (([''Router config updated.'', ''Router config reloaded.''], None), h4)))))"

record route_request =
  rq_domain :: string
  rq_target_id :: string
  rq_target_name :: string
  rq_target_port :: int

definition desired_route :: "route_request \<Rightarrow> route" where
  "desired_route rq =
     \<lparr>rt_domain = to_lower (trim_space (rq_domain rq)), rt_target = trim_space (rq_target_name rq), rt_port = rq_target_port rq,
      rt_target_id = trim_space (rq_target_id rq)\<rparr>"

definition configure_route :: "sys \<Rightarrow> route_codec \<Rightarrow> router_spec \<Rightarrow> route_request \<Rightarrow> host \<Rightarrow> outcome \<times> host" where
  "configure_route sys rc spec rq h =
     (let d = desired_route rq;
          ls = [''Configuring TugRouter route...'', ''Domain: '' @ rt_domain d, ''Target: '' @ rt_target d @ '':'' @ itoa (rt_port d)]
      in case resolve_container_name sys h of
           (Inl _, h1) \<Rightarrow> ((ls, Some err_not_installed), h1)
         | (Inr name, h1) \<Rightarrow>
             (case load_routes rc name h1 of
                (Inl e, h2) \<Rightarrow> ((ls, Some e), h2)
              | (Inr routes, h2) \<Rightarrow>
                  (case upsert_route routes d of
                     Inl e \<Rightarrow> ((ls, Some e), h2)
                   | Inr updated \<Rightarrow>
                       (case apply_routes sys rc spec name updated h2 of
                          ((al, Some e), h3) \<Rightarrow> ((ls @ al, Some e), h3)
                        | ((al, None), h3) \<Rightarrow> ((ls @ al @ [''Route applied successfully.''], None), h3)))))"

definition delete_route :: "sys \<Rightarrow> route_codec \<Rightarrow> router_spec \<Rightarrow> string \<Rightarrow> host \<Rightarrow> outcome \<times> host" where
  "delete_route sys rc spec raw h =
     (let domain = trim_space raw; ls = [''Removing TugRouter route...'', ''Domain: '' @ domain] in
      if domain = [] then ((ls, Some (Msg ''domain is required'')), h)
      else (case resolve_container_name sys h of
              (Inl _, h1) \<Rightarrow> ((ls, Some err_not_installed), h1)
            | (Inr name, h1) \<Rightarrow>
                (case load_routes rc name h1 of
                   (Inl e, h2) \<Rightarrow> ((ls, Some e), h2)
                 | (Inr routes, h2) \<Rightarrow>
                     (let remaining = filter (\<lambda>r. \<not> equal_fold (trim_space (rt_domain r)) domain) routes in
                      if length remaining = length routes
                      then ((ls, Some (Msg (''route for domain '' @ domain @ '' not found''))), h2)
                      else (case apply_routes sys rc spec name remaining h2 of
                              ((al, Some e), h3) \<Rightarrow> ((ls @ al, Some e), h3)
                            | ((al, None), h3) \<Rightarrow> ((ls @ al @ [''Route removed successfully.''], None), h3))))))"

definition list_routes :: "sys \<Rightarrow> route_codec \<Rightarrow> host \<Rightarrow> (go_error, route list) result \<times> host" where
  "list_routes sys rc h =
     (case resolve_container_name sys h of
        (Inl _, h1) \<Rightarrow>
          (case load_routes rc [] h1 of (Inl _, h2) \<Rightarrow> (Inr [], h2) | (Inr rs, h2) \<Rightarrow> (Inr rs, h2))
      | (Inr name, h1) \<Rightarrow> load_routes rc name h1)"

section \<open>Domains are never stolen\<close>

definition domains_distinct :: "route list \<Rightarrow> bool" where
  "domains_distinct routes \<longleftrightarrow> distinct (map (\<lambda>r. to_lower (rt_domain r)) routes)"

lemma equal_fold_lower: "equal_fold a b \<longleftrightarrow> to_lower a = to_lower b"
  by (simp add: equal_fold_def)

lemma upsert_route_domains:
  "upsert_route rs d = Inr rs' \<Longrightarrow>
   map (\<lambda>r. to_lower (rt_domain r)) rs' =
     (if to_lower (rt_domain d) \<in> set (map (\<lambda>r. to_lower (rt_domain r)) rs)
      then map (\<lambda>r. to_lower (rt_domain r)) rs else map (\<lambda>r. to_lower (rt_domain r)) rs @ [to_lower (rt_domain d)])"
  by (induction rs arbitrary: rs') (auto simp: equal_fold_lower split: if_splits sum.splits)

lemma domains_distinct_ConsD:
  "domains_distinct (r # rs) \<Longrightarrow> equal_fold (rt_domain r) (rt_domain d) \<Longrightarrow>
   \<forall>q\<in>set rs. to_lower (rt_domain q) \<noteq> to_lower (rt_domain d)"
  by (simp add: domains_distinct_def equal_fold_lower) (metis image_eqI)

lemma upsert_route_members:
  "upsert_route rs d = Inr rs' \<Longrightarrow> domains_distinct rs \<Longrightarrow>
   set rs' = insert d {r \<in> set rs. to_lower (rt_domain r) \<noteq> to_lower (rt_domain d)}"
proof (induction rs arbitrary: rs')
  case (Cons r rs)
  show ?case
  proof (cases "equal_fold (rt_domain r) (rt_domain d)")
    case True
    then have "rs' = d # rs" using Cons.prems(1) by (auto split: if_splits)
    moreover note domains_distinct_ConsD[OF Cons.prems(2) True]
    ultimately show ?thesis using True by (auto simp: equal_fold_lower)
  next
    case False
    then obtain rs2 where "upsert_route rs d = Inr rs2" "rs' = r # rs2" using Cons.prems(1) by (auto split: sum.splits)
    then show ?thesis using Cons.IH Cons.prems(2) False by (auto simp: domains_distinct_def equal_fold_lower)
  qed
qed simp

lemma upsert_route_refused:
  "upsert_route rs d = Inl e \<Longrightarrow> \<exists>r\<in>set rs. to_lower (rt_domain r) = to_lower (rt_domain d) \<and> \<not> same_container r d"
  by (induction rs) (auto simp: equal_fold_lower split: if_splits sum.splits)

lemma upsert_route_accepted:
  assumes "upsert_route routes d = Inr routes'" and "domains_distinct routes"
  shows "\<forall>r\<in>set routes. to_lower (rt_domain r) = to_lower (rt_domain d) \<longrightarrow> same_container r d"
  using assms
proof (induction routes arbitrary: routes')
  case (Cons r rs)
  show ?case
  proof (cases "equal_fold (rt_domain r) (rt_domain d)")
    case True
    then have "same_container r d" using Cons.prems(1) by (auto split: if_splits)
    moreover note domains_distinct_ConsD[OF Cons.prems(2) True]
    ultimately show ?thesis by auto
  next
    case False
    then obtain rs2 where "upsert_route rs d = Inr rs2" using Cons.prems(1) by (auto split: sum.splits)
    then show ?thesis using Cons.IH Cons.prems(2) False by (auto simp: domains_distinct_def equal_fold_lower)
  qed
qed simp

text \<open>
  C26: Two projects can not take each other's domain. Configuring a route keeps one route per domain
  (letter case aside), leaves every route of another domain as it was, and afterwards the domain
  goes to the requested container; it is refused exactly when the domain is already assigned to a
  different container.
\<close>

theorem upsert_route_exclusive:
  assumes "domains_distinct routes"
  shows "case upsert_route routes d of
      Inr routes' \<Rightarrow> domains_distinct routes' \<and>
        set routes' = insert d {r \<in> set routes. to_lower (rt_domain r) \<noteq> to_lower (rt_domain d)} \<and>
        (\<forall>r\<in>set routes. to_lower (rt_domain r) = to_lower (rt_domain d) \<longrightarrow> same_container r d)
    | Inl e \<Rightarrow> \<exists>r\<in>set routes. to_lower (rt_domain r) = to_lower (rt_domain d) \<and> \<not> same_container r d"
proof (cases "upsert_route routes d")
  case (Inl e)
  then show ?thesis using upsert_route_refused[OF Inl] by simp
next
  case (Inr routes')
  have dd: "domains_distinct routes'"
    using upsert_route_domains[OF Inr] assms by (simp add: domains_distinct_def)
  show ?thesis using Inr dd upsert_route_members[OF Inr assms] upsert_route_accepted[OF Inr assms] by simp
qed

definition demo_route :: route where
  "demo_route = \<lparr>rt_domain = ''a.io'', rt_target = ''web'', rt_port = 80, rt_target_id = ''c1''\<rparr>"

theorem upsert_route_exclusive_witness:
  "upsert_route [demo_route] (demo_route\<lparr>rt_port := 81\<rparr>) = Inr [demo_route\<lparr>rt_port := 81\<rparr>] \<and>
   domains_distinct [demo_route\<lparr>rt_port := 81\<rparr>]"
proof -
  have d: "domains_distinct [demo_route]" by (simp add: domains_distinct_def)
  have u: "upsert_route [demo_route] (demo_route\<lparr>rt_port := 81\<rparr>) = Inr [demo_route\<lparr>rt_port := 81\<rparr>]"
    by (simp add: demo_route_def same_container_def equal_fold_def model_defs)
  show ?thesis using upsert_route_exclusive[OF d, of "demo_route\<lparr>rt_port := 81\<rparr>"] u by simp
qed

section \<open>Persisted before it is applied\<close>

text \<open>A machine whose processes leave the agent's files and environment alone and break no file operation.\<close>

definition leaves_files :: "sys \<Rightarrow> bool" where
  "leaves_files sys \<longleftrightarrow> (\<forall>c h. tree (snd (sys c h)) = tree h \<and> cwd (snd (sys c h)) = cwd h \<and> environ (snd (sys c h)) = environ h \<and>
     faults (snd (sys c h)) = faults h)"

lemma leaves_files_combined:
  "leaves_files sys \<Longrightarrow> docker_combined sys args h = (r, h1) \<Longrightarrow>
   tree h1 = tree h \<and> cwd h1 = cwd h \<and> environ h1 = environ h \<and> faults h1 = faults h"
  by (auto simp: leaves_files_def docker_combined_def exec_def exec_in_def Let_def split: prod.splits)
    (metis snd_conv)+

lemma routes_path_env: "environ h1 = environ h \<Longrightarrow> routes_path h1 = routes_path h"
  by (simp add: routes_path_def data_dir_def user_home_dir_def getenv_def)

lemma file_at_tree: "tree h1 = tree h \<Longrightarrow> file_at h1 = file_at h"
  by (simp add: file_at_def node_at_def fun_eq_iff)

lemma persist_routes_NoneD:
  assumes "persist_routes rc routes h = (None, h1)" and "enc_routes rc routes = Some raw"
  shows "file_at h1 = (file_at h)(loc h (routes_path h) \<mapsto> raw) \<and> cwd h1 = cwd h \<and> environ h1 = environ h \<and> faults h1 = tl (tl (faults h))"
proof -
  obtain r ha where m: "mkdir_all (path_dir (routes_path h)) h = (r, ha)" by fastforce
  note md = mkdir_all_NoneD[OF m]
  have r: "r = None" and w: "write_with (\<lambda>_. []) (routes_path h) raw ha = (None, h1)"
    using assms m routes_path_env[of ha h] md by (auto simp: persist_routes_def write_file_def split: option.splits)
  have "loc ha = loc h" using md by (intro loc_fun_cong) simp
  then show ?thesis using write_with_NoneD[OF w] md by (simp split: option.split)
qed

text \<open>
  A route that the proxy refuses is kept all the same. When the uploaded configuration does not
  load, the operation reports the error, but the routes were persisted before: the next operation on
  the routes, and the dashboard's listing, find them as if they had been applied.
\<close>

theorem refused_routes_are_kept:
  assumes "apply_routes sys rc spec name routes h = (([''Router config updated.''], Some e), h')"
    and "leaves_files sys" and "faults h = []"
    and "enc_routes rc routes = Some raw" and "raw \<noteq> []" and "dec_routes rc raw = Some routes"
    and "loc h (staged_config_path h name) \<noteq> loc h (routes_path h)"
  shows "fst (load_routes rc name' h') = Inr routes"
proof -
  obtain r1 h1 where p: "persist_routes rc routes h = (r1, h1)" by fastforce
  have r1: "r1 = None" using assms(1) p by (cases r1) (auto simp: apply_routes_def)
  note pd = persist_routes_NoneD[OF p[unfolded r1] assms(4)]
  let ?staged = "staged_config_path h1 name"
  obtain r2 h2 where w: "write_file ?staged (render_config spec routes) h1 = (r2, h2)" by fastforce
  have r2: "r2 = None" using assms(1) p r1 w by (cases r2) (auto simp: apply_routes_def Let_def)
  note wd = write_with_NoneD[OF w[unfolded r2 write_file_def]]
  obtain o3 e3 h3 where c: "copy_to_container sys ?staged name (rs_config_path spec) h2 = ((o3, e3), h3)" by (metis surj_pair)
  have e3: "e3 = None" using assms(1) p r1 w r2 c by (cases e3) (auto simp: apply_routes_def Let_def)
  obtain o4 e4 where x: "exec_in_container sys name (rs_reload spec) h3 = ((o4, e4), h')"
    using assms(1) p r1 w r2 c e3 by (auto simp: apply_routes_def Let_def split: prod.splits option.splits)
  note l3 = leaves_files_combined[OF assms(2) c[unfolded copy_to_container_def]]
  note l4 = leaves_files_combined[OF assms(2) x[unfolded exec_in_container_def]]
  have l1: "loc h1 = loc h" using pd by (intro loc_fun_cong) simp
  have same: "?staged = staged_config_path h name" using pd by (simp add: staged_config_path_def temp_dir_def getenv_def)
  have t: "tree h' = tree h2" using l3 l4 by simp
  have "file_at h' (loc h (routes_path h)) = Some raw"
    unfolding file_at_tree[OF t] using wd l1 same assms(7) pd by simp
  moreover have "loc h' = loc h" using l3 l4 wd pd by (intro loc_fun_cong) simp
  moreover have "routes_path h' = routes_path h" using l3 l4 wd pd by (intro routes_path_env) simp
  moreover have "faults h' = []" using l3 l4 wd pd assms(3) by simp
  ultimately have "read_file (routes_path h') h' = (Inr raw, pop_fault h')" by (intro read_file_found) simp_all
  then show ?thesis using assms(5,6) by (simp add: load_routes_def decode_routes_def)
qed

text \<open>A proxy that takes the file and refuses to reload.\<close>

definition stubborn :: sys where
  "stubborn c h = (\<lparr>p_out = [], p_all = ''bad'', p_err = (if hd (tl (snd c)) = ''exec'' then Some (ExitError ''exit status 1'') else None)\<rparr>, h)"

theorem refused_routes_are_kept_witness:
  "let h = bare_host\<lparr>tree := [([''tmp''], Dir)], environ := [(''TUG_DATA_DIR'', ''/d'')]\<rparr>;
       rc = \<lparr>enc_routes = (\<lambda>_. Some ''[1]''), dec_routes = (\<lambda>_. Some [demo_route])\<rparr>;
       spec = \<lparr>rs_image = [], rs_network = [], rs_restart = [], rs_http_port = 80, rs_https_port = 443, rs_config_path = ''/c'', rs_reload = []\<rparr>
   in fst (load_routes rc ''r'' (snd (apply_routes stubborn rc spec ''r'' [demo_route] h))) = Inr [demo_route]"
proof -
  let ?h = "bare_host\<lparr>tree := [([''tmp''], Dir)], environ := [(''TUG_DATA_DIR'', ''/d'')]\<rparr>"
  let ?rc = "\<lparr>enc_routes = (\<lambda>_. Some ''[1]''), dec_routes = (\<lambda>_. Some [demo_route])\<rparr>"
  let ?spec = "\<lparr>rs_image = [], rs_network = [], rs_restart = [], rs_http_port = 80, rs_https_port = 443, rs_config_path = ''/c'', rs_reload = []\<rparr>"
  let ?h1 = "bare_host\<lparr>environ := [(''TUG_DATA_DIR'', ''/d'')], tree := [([''tmp''], Dir), ([''d''], Dir), ([''d'', ''tug-router''], Dir), ([''d'', ''tug-router'', ''routes.json''], File ''[1]'')]\<rparr>"
  let ?run = "\<lambda>argv h. h\<lparr>ran := ran h @ [([], argv)]\<rparr>"
  have rp: "routes_path ?h = ''/d/tug-router/routes.json''" "staged_config_path ?h1 ''r'' = ''/tmp/r-Caddyfile''"
    by (simp_all add: routes_path_def data_dir_def staged_config_path_def temp_dir_def model_defs)
  have p: "persist_routes ?rc [demo_route] ?h = (None, ?h1)"
    by (simp add: persist_routes_def rp Let_def model_defs)
  obtain h2 where w: "write_file ''/tmp/r-Caddyfile'' (render_config ?spec [demo_route]) ?h1 = (None, h2)"
    by (simp add: Let_def model_defs)
  have c: "copy_to_container stubborn x ''r'' y h = ((''bad'', None), ?run [''docker'', ''cp'', x, ''r:'' @ y] h)" for x y h
    by (simp add: copy_to_container_def docker_combined_def exec_def exec_in_def stubborn_def)
  have e: "exec_in_container stubborn ''r'' [] h = ((''bad'', Some (ExitError ''exit status 1'')), ?run [''docker'', ''exec'', ''r''] h)" for h
    by (simp add: exec_in_container_def docker_combined_def exec_def exec_in_def stubborn_def)
  obtain h1 where o: "apply_routes stubborn ?rc ?spec ''r'' [demo_route] ?h =
      (([''Router config updated.''], Some (Wrapf ''cannot reload router config: bad: '' (ExitError ''exit status 1'') [])), h1)"
    by (simp add: apply_routes_def p rp w c e Let_def)
  have l: "leaves_files stubborn" by (simp add: leaves_files_def stubborn_def)
  have n: "loc ?h (staged_config_path ?h ''r'') \<noteq> loc ?h (routes_path ?h)"
    by (simp add: routes_path_def data_dir_def user_home_dir_def staged_config_path_def temp_dir_def model_defs)
  have "fst (load_routes ?rc ''r'' h1) = Inr [demo_route]"
    by (rule refused_routes_are_kept[OF o l _ _ _ _ n]) (simp_all, simp_all)
  then show ?thesis using o by simp
qed

end
