(* ===== verification/Importer.thy ===== *)
theory Importer
  imports Import_Text Router
begin

text \<open>
  \<open>internal/importer\<close>: what is already installed on the machine (\<open>detector.go\<close>), the projects that a scan finds
  (\<open>docker.go\<close>, \<open>dokploy.go\<close>, \<open>coolify.go\<close>), and the projects that are taken over
  (\<open>importer.go\<close>). The orders of map ranges, the process id and the decoder of the request are parameters.
  An environment is the list of its settings, each name once.
\<close>

section \<open>Panels (detector.go)\<close>

record panel_info =
  pn_name :: string
  pn_version :: string
  pn_installed :: bool
  pn_compatible :: bool
  pn_status :: string
  pn_notes :: string
  pn_base :: path

definition no_panel :: "string \<Rightarrow> panel_info" where
  "no_panel name =
     \<lparr>pn_name = name, pn_version = [], pn_installed = False, pn_compatible = False, pn_status = [], pn_notes = [], pn_base = []\<rparr>"

definition inspect_container_image :: "sys \<Rightarrow> string \<Rightarrow> host \<Rightarrow> (bool \<times> string) \<times> host" where
  "inspect_container_image sys fragment h =
     (case docker_output sys [''ps'', ''-a'', ''--filter'', ''name='' @ fragment, ''--format'', ''{{.Image}}''] h of
        (Inl _, h1) \<Rightarrow> ((False, []), h1)
      | (Inr out, h1) \<Rightarrow>
          (if trim_space out = [] then ((False, []), h1) else ((True, hd (split_on newline (trim_space out))), h1)))"

definition is_dir_at :: "path \<Rightarrow> host \<Rightarrow> bool \<times> host" where
  "is_dir_at p h = (case Host.stat p h of (Inr Dir, h1) \<Rightarrow> (True, h1) | (_, h1) \<Rightarrow> (False, h1))"

definition is_file_at :: "path \<Rightarrow> host \<Rightarrow> bool \<times> host" where
  "is_file_at p h = (case Host.stat p h of (Inr (File _), h1) \<Rightarrow> (True, h1) | (_, h1) \<Rightarrow> (False, h1))"

definition check_dokploy :: "sys \<Rightarrow> host \<Rightarrow> panel_info \<times> host" where
  "check_dokploy sys h =
     (let base = ''/etc/dokploy''; (dir, h1) = is_dir_at base h; ((running, tag), h2) = inspect_container_image sys ''dokploy'' h1
      in if \<not> dir \<and> \<not> running then (no_panel ''dokploy'', h2)
         else (let v = extract_version_from_image tag; version = (if v = [] then ''0.8.x (auto-detected)'' else v)
               in (\<lparr>pn_name = ''dokploy'', pn_version = version, pn_installed = True, pn_compatible = True, pn_status = ''compatible'',
                    pn_notes = (if contains (to_lower version) ''latest'' \<or> contains (to_lower version) ''auto''
                                then ''Dokploy detected. Format verified with compose workspace.''
                                else ''Dokploy detected with compose directory and database schema support.''),
                    pn_base = base\<rparr>, h2)))"

definition check_coolify :: "sys \<Rightarrow> host \<Rightarrow> panel_info \<times> host" where
  "check_coolify sys h =
     (let base = ''/data/coolify''; (dir, h1) = is_dir_at base h; ((running, tag), h2) = inspect_container_image sys ''coolify'' h1
      in if \<not> dir \<and> \<not> running then (no_panel ''coolify'', h2)
         else (let v = extract_version_from_image tag; version = (if v = [] then ''v4.x (auto-detected)'' else v); old = contains version ''v3''
               in (\<lparr>pn_name = ''coolify'', pn_version = version, pn_installed = True, pn_compatible = True,
                    pn_status = (if old then ''warning'' else ''compatible''),
                    pn_notes = (if old then ''Coolify v3 legacy structure detected. Using universal container inspection fallback.''
                                else ''Coolify v4 detected. Service compose stacks and Traefik route extraction supported.''),
                    pn_base = base\<rparr>, h2)))"

definition check_generic_docker :: "sys \<Rightarrow> host \<Rightarrow> panel_info \<times> host" where
  "check_generic_docker sys h =
     (case docker_output sys [''version'', ''--format'', ''{{.Server.Version}}''] h of
        (Inl _, h1) \<Rightarrow>
          ((no_panel ''none'')\<lparr>pn_version := ''unknown'', pn_status := ''none'',
             pn_notes := ''Docker Engine is not running or accessible on this host.''\<rparr>, h1)
      | (Inr out, h1) \<Rightarrow>
          (\<lparr>pn_name = ''docker'', pn_version = trim_space out, pn_installed = True, pn_compatible = True, pn_status = ''compatible'',
            pn_notes = ''Direct Docker Compose discovery mode active (reading stacks directly from host engine).'', pn_base = []\<rparr>, h1))"

definition detect_panel :: "sys \<Rightarrow> host \<Rightarrow> panel_info \<times> host" where
  "detect_panel sys h =
     (let (dok, h1) = check_dokploy sys h in
      if pn_installed dok then (dok, h1)
      else (let (cool, h2) = check_coolify sys h1 in if pn_installed cool then (cool, h2) else check_generic_docker sys h2))"

record proxy_status =
  px_running :: bool
  px_id :: string
  px_name :: string
  px_port80 :: bool
  px_port443 :: bool

definition no_proxy :: proxy_status where
  "no_proxy = \<lparr>px_running = False, px_id = [], px_name = [], px_port80 = False, px_port443 = False\<rparr>"

definition proxy_of_line :: "string \<Rightarrow> proxy_status option" where
  "proxy_of_line l =
     (case split_on tab l of
        cid # raw # raw_image # ports # _ \<Rightarrow>
          (let name = to_lower raw; img = to_lower raw_image in
           if contains name ''traefik'' \<or> contains img ''traefik'' \<or> contains name ''coolify-proxy'' \<or> contains name ''dokploy-traefik''
           then Some \<lparr>px_running = True, px_id = cid, px_name = raw,
                  px_port80 = (contains ports '':80->'' \<or> contains ports '':80/tcp''),
                  px_port443 = (contains ports '':443->'' \<or> contains ports '':443/tcp'')\<rparr>
           else None)
      | _ \<Rightarrow> None)"

definition detect_proxy_status :: "sys \<Rightarrow> host \<Rightarrow> proxy_status \<times> host" where
  "detect_proxy_status sys h =
     (case docker_output sys [''ps'', ''--format'', ''{{.ID}}'' @ [tab] @ ''{{.Names}}'' @ [tab] @ ''{{.Image}}'' @ [tab] @ ''{{.Ports}}''] h of
        (Inl _, h1) \<Rightarrow> (no_proxy, h1)
      | (Inr out, h1) \<Rightarrow>
          ((case List.map_filter proxy_of_line (split_on newline (trim_space out)) of [] \<Rightarrow> no_proxy | p # _ \<Rightarrow> p), h1))"

section \<open>Compose stacks (docker.go)\<close>

record import_plan =
  pl_id :: string
  pl_name :: string
  pl_original :: string
  pl_cleaned :: string
  pl_env :: "(string \<times> string) list"
  pl_domains :: "domain_route list"
  pl_containers :: "string list"
  pl_warnings :: "string list"

record stack_meta =
  sk_project :: string
  sk_dir :: path
  sk_files :: string
  sk_containers :: "string list"

record apply_route =
  ad_domain :: string
  ad_service :: string
  ad_port :: int

record import_project =
  ip_name :: string
  ip_compose :: string
  ip_env :: "(string \<times> string) list"
  ip_domains :: "apply_route list"

record apply_request =
  ar_disable_proxy :: bool
  ar_projects :: "import_project list"

record importer_env =
  im_order :: "domain_route list \<Rightarrow> domain_route list"
  im_stacks :: "stack_meta list \<Rightarrow> stack_meta list"
  im_pid :: int
  im_router :: "(route_codec \<times> router_spec) option"
  im_decode :: "string \<Rightarrow> (go_error, apply_request) result"

definition ignored_names :: "string list" where
  "ignored_names = [''tug-agent'', ''tug-router'', ''tug-metrics'', ''dokploy-traefik'', ''dokploy-postgres'',
     ''coolify-proxy'', ''coolify-db'', ''coolify-redis'', ''coolify-realtime'']"

definition should_ignore_project :: "string \<Rightarrow> string \<Rightarrow> bool" where
  "should_ignore_project project name \<longleftrightarrow>
     list_ex (\<lambda>i. contains (to_lower project) i \<or> contains (to_lower name) i) ignored_names"

definition nth_or_empty :: "string list \<Rightarrow> nat \<Rightarrow> string" where
  "nth_or_empty ps n = (if n < length ps then trim_space (ps ! n) else [])"

text \<open>A line of \<open>docker ps\<close> that counts: the container's name, its project, directory and files.\<close>

definition stack_line :: "string \<Rightarrow> (string \<times> stack_meta) option" where
  "stack_line l =
     (let ps = split_on tab l; name = nth_or_empty ps 1; project = nth_or_empty ps 2 in
      if trim_space l = [] \<or> length ps < 3 \<or> should_ignore_project project name \<or> project = [] then None
      else Some (name, \<lparr>sk_project = project, sk_dir = nth_or_empty ps 3, sk_files = nth_or_empty ps 4, sk_containers = [name]\<rparr>))"

definition join_stack :: "stack_meta \<Rightarrow> stack_meta \<Rightarrow> stack_meta" where
  "join_stack old new =
     old\<lparr>sk_containers := sk_containers old @ sk_containers new,
         sk_dir := (if sk_dir old = [] then sk_dir new else sk_dir old),
         sk_files := (if sk_files old = [] then sk_files new else sk_files old)\<rparr>"

fun add_stack :: "stack_meta \<Rightarrow> stack_meta list \<Rightarrow> stack_meta list" where
  "add_stack s [] = [s]"
| "add_stack s (t # ts) = (if sk_project t = sk_project s then join_stack t s # ts else t # add_stack s ts)"

definition stacks_of :: "string \<Rightarrow> stack_meta list" where
  "stacks_of out = foldl (\<lambda>ss (_, s). add_stack s ss) [] (List.map_filter stack_line (split_on newline (trim_space out)))"

definition compose_candidates :: "path list" where
  "compose_candidates = [''docker-compose.yml'', ''docker-compose.yaml'', ''compose.yml'', ''compose.yaml'']"

fun first_file :: "path list \<Rightarrow> host \<Rightarrow> path \<times> host" where
  "first_file [] h = ([], h)"
| "first_file (p # ps) h = (let (found, h1) = is_file_at p h in if found then (p, h1) else first_file ps h1)"

definition find_compose_file_in_dir :: "path \<Rightarrow> host \<Rightarrow> path \<times> host" where
  "find_compose_file_in_dir dir = first_file (map (\<lambda>c. path_join [dir, c]) compose_candidates)"

definition resolve_compose_path :: "string \<Rightarrow> path \<Rightarrow> host \<Rightarrow> path \<times> host" where
  "resolve_compose_path config_files dir h =
     (let (p, h1) = first_file (filter (\<lambda>f. f \<noteq> []) (map trim_space (split_on CHR '','' config_files))) h
      in if p \<noteq> [] then (p, h1) else if dir \<noteq> [] then find_compose_file_in_dir dir h1 else ([], h1))"

definition names_of :: "string \<Rightarrow> string list" where
  "names_of out = filter (\<lambda>l. l \<noteq> []) (map trim_space (split_on newline (trim_space out)))"

definition find_containers_for_project :: "sys \<Rightarrow> string \<Rightarrow> host \<Rightarrow> string list \<times> host" where
  "find_containers_for_project sys project h =
     (case docker_output sys [''ps'', ''-a'', ''--filter'', ''label=com.docker.compose.project='' @ project, ''--format'', ''{{.Names}}''] h of
        (Inl _, h1) \<Rightarrow> ([], h1)
      | (Inr out, h1) \<Rightarrow> (names_of out, h1))"

definition add_route :: "string \<Rightarrow> string \<Rightarrow> domain_route list \<Rightarrow> domain_route list" where
  "add_route name d rs =
     (if d \<in> set (map dr_domain rs) then rs else rs @ [\<lparr>dr_domain = d, dr_service = name, dr_port = 0, dr_https = True\<rparr>])"

definition label_routes :: "string \<Rightarrow> string \<Rightarrow> domain_route list \<Rightarrow> domain_route list" where
  "label_routes name raw rs =
     (let found = foldl (\<lambda>rs d. add_route name d rs) rs (concat (map rule_domains (all_matches host_rule raw)))
      in case first_match port_label raw of
           None \<Rightarrow> found
         | Some (g, _) \<Rightarrow>
             (case atoi g of
                None \<Rightarrow> found
              | Some p \<Rightarrow> map (\<lambda>r. if dr_service r = name \<and> dr_port r = 0 then r\<lparr>dr_port := p\<rparr> else r) found))"

fun extract_routes_from_containers :: "sys \<Rightarrow> string list \<Rightarrow> domain_route list \<Rightarrow> host \<Rightarrow> domain_route list \<times> host" where
  "extract_routes_from_containers sys [] rs h = (rs, h)"
| "extract_routes_from_containers sys (name # names) rs h =
     (case docker_output sys [''inspect'', name, ''--format'', ''{{json .Config.Labels}}''] h of
        (Inl _, h1) \<Rightarrow> extract_routes_from_containers sys names rs h1
      | (Inr raw, h1) \<Rightarrow> extract_routes_from_containers sys names (label_routes name raw rs) h1)"

fun fallback_services :: "sys \<Rightarrow> int \<Rightarrow> string list \<Rightarrow> host \<Rightarrow> string \<times> host" where
  "fallback_services sys pid [] h = ([], h)"
| "fallback_services sys pid (name # names) h =
     (let (r, h1) = exec sys [''docker'', ''inspect'', name, ''--format'', ''{{.Config.Image}}''] h;
          img = (if trim_space (p_out r) = [] then ''unknown:latest'' else trim_space (p_out r));
          (rest, h2) = fallback_services sys pid names h1
      in (''  '' @ slugify pid name @ '':'' @ [newline] @ ''    image: '' @ img @ [newline] @ ''    restart: unless-stopped'' @ [newline] @ rest, h2))"

definition generate_fallback_compose :: "sys \<Rightarrow> int \<Rightarrow> string list \<Rightarrow> host \<Rightarrow> string \<times> host" where
  "generate_fallback_compose sys pid names h =
     (let (ss, h1) = fallback_services sys pid names h
      in (''version: '' @ [CHR 0x27] @ ''3.8'' @ [CHR 0x27, newline] @ ''services:'' @ [newline] @ ss, h1))"

text \<open>A file that cannot be read is no file.\<close>

definition read_or_empty :: "path \<Rightarrow> host \<Rightarrow> string \<times> host" where
  "read_or_empty p h = (case read_file p h of (Inl _, h1) \<Rightarrow> ([], h1) | (Inr s, h1) \<Rightarrow> (s, h1))"

definition read_env :: "path \<Rightarrow> host \<Rightarrow> (string \<times> string) list \<times> host" where
  "read_env dir h =
     (case read_file (path_join [dir, ''.env'']) h of (Inl _, h1) \<Rightarrow> ([], h1) | (Inr s, h1) \<Rightarrow> (parse_env_file s, h1))"

text \<open>The routes of a cleaned compose file, or else those on the labels of the containers.\<close>

definition routes_or_labels :: "sys \<Rightarrow> domain_route list \<Rightarrow> string list \<Rightarrow> host \<Rightarrow> domain_route list \<times> host" where
  "routes_or_labels sys rs names h = (if rs = [] \<and> names \<noteq> [] then extract_routes_from_containers sys names [] h else (rs, h))"

definition plan_of_stack :: "importer_env \<Rightarrow> sys \<Rightarrow> stack_meta \<Rightarrow> host \<Rightarrow> import_plan \<times> host" where
  "plan_of_stack im sys s h =
     (let (p, h1) = resolve_compose_path (sk_files s) (sk_dir s) h;
          (raw, h2) = (if p \<noteq> [] then read_or_empty p h1 else ([], h1));
          (env, h3) = (if sk_dir s \<noteq> [] then read_env (sk_dir s) h2 else ([], h2));
          (cleaned, rs) = extract_routes_and_clean_compose (im_order im) raw;
          (routes, h4) = routes_or_labels sys rs (sk_containers s) h3;
          missing = (trim_space raw = []);
          (made, h5) = (if missing then generate_fallback_compose sys (im_pid im) (sk_containers s) h4 else ([], h4))
      in (\<lparr>pl_id = slugify (im_pid im) (sk_project s), pl_name = sk_project s,
           pl_original = (if missing then made else raw), pl_cleaned = (if missing then made else cleaned),
           pl_env = env, pl_domains = routes, pl_containers = sk_containers s,
           pl_warnings = (if routes = [] then [''No domain routing labels detected for this project.''] else [])\<rparr>, h5))"

fun plans_of_stacks :: "importer_env \<Rightarrow> sys \<Rightarrow> stack_meta list \<Rightarrow> host \<Rightarrow> import_plan list \<times> host" where
  "plans_of_stacks im sys [] h = ([], h)"
| "plans_of_stacks im sys (s # ss) h =
     (let (p, h1) = plan_of_stack im sys s h; (ps, h2) = plans_of_stacks im sys ss h1 in (p # ps, h2))"

definition stack_format :: string where
  "stack_format = ''{{.ID}}'' @ [tab] @ ''{{.Names}}'' @ [tab] @ ''{{.Label '' @ quote @ ''com.docker.compose.project'' @ quote @ ''}}'' @ [tab] @
     ''{{.Label '' @ quote @ ''com.docker.compose.project.working_dir'' @ quote @ ''}}'' @ [tab] @
     ''{{.Label '' @ quote @ ''com.docker.compose.project.config_files'' @ quote @ ''}}''"

definition scan_docker_compose :: "importer_env \<Rightarrow> sys \<Rightarrow> host \<Rightarrow> (go_error, import_plan list) result \<times> host" where
  "scan_docker_compose im sys h =
     (case docker_output sys [''ps'', ''-a'', ''--format'', stack_format] h of
        (Inl e, h1) \<Rightarrow> (Inl (Wrapf ''failed to list docker containers: '' e []), h1)
      | (Inr out, h1) \<Rightarrow> (let (ps, h2) = plans_of_stacks im sys (im_stacks im (stacks_of out)) h1 in (Inr ps, h2)))"

section \<open>Dokploy and Coolify (dokploy.go, coolify.go)\<close>

text \<open>What both scanners make of one directory with a compose file in it; \<open>warn\<close> is said of a project without routes.\<close>

definition plan_of_dir :: "importer_env \<Rightarrow> sys \<Rightarrow> string \<Rightarrow> (string \<Rightarrow> (string \<times> string) list \<Rightarrow> string) \<Rightarrow> string \<Rightarrow> path \<Rightarrow> host \<Rightarrow> import_plan option \<times> host" where
  "plan_of_dir im sys warn name_of entry dir h =
     (let (p, h1) = find_compose_file_in_dir dir h in
      if p = [] then (None, h1)
      else (case read_file p h1 of
              (Inl _, h2) \<Rightarrow> (None, h2)
            | (Inr raw, h2) \<Rightarrow>
                (let (env, h3) = read_env dir h2;
                     (cleaned, rs) = extract_routes_and_clean_compose (im_order im) raw;
                     name = name_of entry env;
                     (cs, h4) = find_containers_for_project sys name h3;
                     (routes, h5) = routes_or_labels sys rs cs h4
                 in (Some \<lparr>pl_id = slugify (im_pid im) name, pl_name = name, pl_original = raw, pl_cleaned = cleaned, pl_env = env,
                           pl_domains = routes, pl_containers = cs, pl_warnings = (if routes = [] then [warn] else [])\<rparr>, h5))))"

fun plans_of_dirs :: "(string \<Rightarrow> host \<Rightarrow> import_plan option \<times> host) \<Rightarrow> (string \<times> node) list \<Rightarrow> host \<Rightarrow> import_plan list \<times> host" where
  "plans_of_dirs f [] h = ([], h)"
| "plans_of_dirs f ((n, v) # es) h =
     (if v \<noteq> Dir then plans_of_dirs f es h
      else (case f n h of
              (None, h1) \<Rightarrow> plans_of_dirs f es h1
            | (Some p, h1) \<Rightarrow> (let (ps, h2) = plans_of_dirs f es h1 in (p # ps, h2))))"

definition dokploy_dir :: "importer_env \<Rightarrow> sys \<Rightarrow> path \<Rightarrow> string \<Rightarrow> host \<Rightarrow> import_plan option \<times> host" where
  "dokploy_dir im sys dir n h =
     (if equal_fold n ''dokploy'' \<or> equal_fold n ''traefik'' then (None, h)
      else plan_of_dir im sys ''No domain routing labels detected; project will run as internal service.'' (\<lambda>n _. n) n (path_join [dir, n]) h)"

definition scan_dokploy :: "importer_env \<Rightarrow> sys \<Rightarrow> path \<Rightarrow> host \<Rightarrow> (go_error, import_plan list) result \<times> host" where
  "scan_dokploy im sys base h =
     (let dir = path_join [base, ''compose''] in
      case read_dir dir h of
        (Inl _, h1) \<Rightarrow> scan_docker_compose im sys h1
      | (Inr es, h1) \<Rightarrow> (let (ps, h2) = plans_of_dirs (dokploy_dir im sys dir) es h1 in (Inr ps, h2)))"

definition coolify_name :: "string \<Rightarrow> (string \<times> string) list \<Rightarrow> string" where
  "coolify_name entry env =
     (case map_of env ''COOLIFY_SERVICE_NAME'' of None \<Rightarrow> entry | Some n \<Rightarrow> if n \<noteq> [] then n else entry)"

definition coolify_services :: "importer_env \<Rightarrow> sys \<Rightarrow> path \<Rightarrow> host \<Rightarrow> import_plan list \<times> host" where
  "coolify_services im sys dir h =
     (case read_dir dir h of
        (Inl _, h1) \<Rightarrow> ([], h1)
      | (Inr es, h1) \<Rightarrow>
          plans_of_dirs (\<lambda>n. plan_of_dir im sys ''No domain routing labels found for this service.'' coolify_name n (path_join [dir, n])) es h1)"

definition coolify_stack :: "import_plan \<Rightarrow> bool" where
  "coolify_stack p \<longleftrightarrow> list_ex (\<lambda>c. contains (to_lower c) ''coolify'') (pl_containers p) \<or> contains (pl_original p) ''coolify''"

text \<open>The stacks of docker that belong to Coolify and whose id has not been seen.\<close>

definition add_coolify_stacks :: "import_plan list \<Rightarrow> import_plan list \<Rightarrow> import_plan list" where
  "add_coolify_stacks ps ds = foldl (\<lambda>ps d. if pl_id d \<in> set (map pl_id ps) \<or> \<not> coolify_stack d then ps else ps @ [d]) ps ds"

definition scan_coolify :: "importer_env \<Rightarrow> sys \<Rightarrow> path \<Rightarrow> host \<Rightarrow> (go_error, import_plan list) result \<times> host" where
  "scan_coolify im sys base h =
     (let (ps, h1) = coolify_services im sys (path_join [base, ''services'']) h;
          (found, h2) = scan_docker_compose im sys h1;
          all = (case found of Inl _ \<Rightarrow> ps | Inr ds \<Rightarrow> add_coolify_stacks ps ds)
      in if all = [] then scan_docker_compose im sys h2 else (Inr all, h2))"

section \<open>The scan (importer.go)\<close>

record scan_result =
  sr_panel :: panel_info
  sr_projects :: "import_plan list"
  sr_proxy :: proxy_status

definition choose_panel :: "sys \<Rightarrow> string \<Rightarrow> host \<Rightarrow> panel_info \<times> host" where
  "choose_panel sys preference h =
     (let pref = to_lower (trim_space preference) in
      if pref = ''dokploy''
      then (let (p, h1) = check_dokploy sys h
            in (if pn_installed p then p else p\<lparr>pn_notes := ''Dokploy directory not found; falling back to Docker compose scanner.''\<rparr>, h1))
      else if pref = ''coolify''
      then (let (p, h1) = check_coolify sys h
            in (if pn_installed p then p else p\<lparr>pn_notes := ''Coolify directory not found; falling back to Docker compose scanner.''\<rparr>, h1))
      else if pref = ''docker'' then check_generic_docker sys h
      else detect_panel sys h)"

definition scan_panel :: "importer_env \<Rightarrow> sys \<Rightarrow> panel_info \<Rightarrow> host \<Rightarrow> (go_error, import_plan list) result \<times> host" where
  "scan_panel im sys p h =
     (if pn_name p = ''dokploy'' then scan_dokploy im sys (pn_base p) h
      else if pn_name p = ''coolify'' then scan_coolify im sys (pn_base p) h
      else scan_docker_compose im sys h)"

definition import_scan :: "importer_env \<Rightarrow> sys \<Rightarrow> string \<Rightarrow> host \<Rightarrow> (go_error, scan_result) result \<times> host" where
  "import_scan im sys preference h =
     (let (panel, h1) = choose_panel sys preference h in
      case scan_panel im sys panel h1 of
        (Inl e, h2) \<Rightarrow> (Inl (Wrapf (''failed to scan '' @ pn_name panel @ '' workloads: '') e []), h2)
      | (Inr ps, h2) \<Rightarrow>
          (let (proxy, h3) = detect_proxy_status sys h2
           in (Inr \<lparr>sr_panel = panel, sr_projects = ps, sr_proxy = proxy\<rparr>, h3)))"

section \<open>Taking projects over (importer.go)\<close>

record apply_result =
  ap_imported :: "string list"
  ap_routes :: "string list"
  ap_errors :: "string list"
  ap_stopped :: bool

definition nothing_applied :: apply_result where
  "nothing_applied = \<lparr>ap_imported = [], ap_routes = [], ap_errors = [], ap_stopped = False\<rparr>"

definition disable_old_proxy :: "sys \<Rightarrow> host \<Rightarrow> apply_result \<times> host" where
  "disable_old_proxy sys h =
     (let (px, h1) = detect_proxy_status sys h in
      if px_running px \<and> px_id px \<noteq> []
      then (case docker_combined sys [''stop'', px_id px] h1 of
              ((out, Some e), h2) \<Rightarrow> (nothing_applied\<lparr>ap_errors := [''failed to stop old proxy: '' @ out @ '' ('' @ error_text e @ '')'']\<rparr>, h2)
            | ((_, None), h2) \<Rightarrow> (nothing_applied\<lparr>ap_stopped := True\<rparr>, h2))
      else (nothing_applied, h1))"

text \<open>A value with one of these characters is written as \<open>%q\<close> prints it.\<close>

definition needs_quotes :: "string \<Rightarrow> bool" where
  "needs_quotes v \<longleftrightarrow> list_ex (\<lambda>c. c \<in> {CHR '' '', tab, newline, CHR 0x22, CHR 0x27, CHR 0x24}) v"

definition env_line_of :: "string \<times> string \<Rightarrow> string" where
  "env_line_of kv = fst kv @ CHR ''='' # (if needs_quotes (snd kv) then go_quote (snd kv) else snd kv)"

definition import_env_text :: "(string \<times> string) list \<Rightarrow> string" where
  "import_env_text env =
     join [newline] (map (\<lambda>k. env_line_of (k, case map_of env k of None \<Rightarrow> [] | Some v \<Rightarrow> v)) (sorted_keys env)) @ [newline]"

definition with_error :: "string \<Rightarrow> apply_result \<Rightarrow> apply_result" where
  "with_error e r = r\<lparr>ap_errors := ap_errors r @ [e]\<rparr>"

text \<open>The files of one project; \<open>None\<close> when the project is given up, and what was reported on the way.\<close>

definition write_project_env :: "path \<Rightarrow> import_project \<Rightarrow> host \<Rightarrow> string list \<times> host" where
  "write_project_env dir pj h =
     (if ip_env pj = [] then ([], h)
      else (case write_file (path_join [dir, ''.env'']) (import_env_text (ip_env pj)) h of
              (Some e, h1) \<Rightarrow> ([''cannot write .env file for '' @ ip_name pj @ '': '' @ error_text e], h1)
            | (None, h1) \<Rightarrow> ([], h1)))"

definition write_project_files :: "path \<Rightarrow> import_project \<Rightarrow> host \<Rightarrow> (bool \<times> string list) \<times> host" where
  "write_project_files dir pj h =
     (case mkdir_all dir h of
        (Some e, h1) \<Rightarrow> ((False, [''cannot create project directory '' @ dir @ '': '' @ error_text e]), h1)
      | (None, h1) \<Rightarrow>
          (case (if trim_space (ip_compose pj) = [] then (None, h1) else write_file (path_join [dir, ''docker-compose.yml'']) (ip_compose pj) h1) of
             (Some e, h2) \<Rightarrow> ((False, [''cannot write compose file for '' @ ip_name pj @ '': '' @ error_text e]), h2)
           | (None, h2) \<Rightarrow> (let (es, h3) = write_project_env dir pj h2 in ((True, es), h3))))"

definition materialize :: "importer_env \<Rightarrow> path \<Rightarrow> import_project \<Rightarrow> host \<Rightarrow> (bool \<times> string list) \<times> host" where
  "materialize im root pj h =
     (case resolve_path root (path_join [''projects'', slugify (im_pid im) (ip_name pj)]) of
        Inl e \<Rightarrow> ((False, [''cannot resolve sandbox path for '' @ ip_name pj @ '': '' @ error_text e]), h)
      | Inr dir \<Rightarrow> write_project_files dir pj h)"

text \<open>The routes of one project: those configured, and the errors.\<close>

fun configure_domains :: "sys \<Rightarrow> route_codec \<Rightarrow> router_spec \<Rightarrow> string \<Rightarrow> apply_route list \<Rightarrow> apply_result \<Rightarrow> host \<Rightarrow> apply_result \<times> host" where
  "configure_domains sys rc spec slug [] r h = (r, h)"
| "configure_domains sys rc spec slug (d # ds) r h =
     (if ad_domain d = [] then configure_domains sys rc spec slug ds r h
      else (case configure_route sys rc spec
                   \<lparr>rq_domain = ad_domain d, rq_target_id = [], rq_target_name = (if ad_service d = [] then slug else ad_service d),
                    rq_target_port = (if ad_port d \<le> 0 then 80 else ad_port d)\<rparr> h of
              ((_, Some e), h1) \<Rightarrow>
                configure_domains sys rc spec slug ds (with_error (''cannot configure route '' @ ad_domain d @ '': '' @ error_text e) r) h1
            | ((_, None), h1) \<Rightarrow> configure_domains sys rc spec slug ds (r\<lparr>ap_routes := ap_routes r @ [ad_domain d]\<rparr>) h1))"

definition apply_project :: "importer_env \<Rightarrow> sys \<Rightarrow> path \<Rightarrow> import_project \<Rightarrow> apply_result \<Rightarrow> host \<Rightarrow> apply_result \<times> host" where
  "apply_project im sys root pj r h =
     (let ((stored, es), h1) = materialize im root pj h; r1 = fold with_error es r in
      if \<not> stored then (r1, h1)
      else (let (r2, h2) = (case im_router im of
                              None \<Rightarrow> (r1, h1)
                            | Some (rc, spec) \<Rightarrow> configure_domains sys rc spec (slugify (im_pid im) (ip_name pj)) (ip_domains pj) r1 h1)
            in (r2\<lparr>ap_imported := ap_imported r2 @ [ip_name pj]\<rparr>, h2)))"

fun apply_projects :: "importer_env \<Rightarrow> sys \<Rightarrow> path \<Rightarrow> import_project list \<Rightarrow> apply_result \<Rightarrow> host \<Rightarrow> apply_result \<times> host" where
  "apply_projects im sys root [] r h = (r, h)"
| "apply_projects im sys root (pj # pjs) r h =
     (let (r1, h1) = apply_project im sys root pj r h in apply_projects im sys root pjs r1 h1)"

definition import_apply :: "importer_env \<Rightarrow> sys \<Rightarrow> path \<Rightarrow> apply_request \<Rightarrow> host \<Rightarrow> apply_result \<times> host" where
  "import_apply im sys root req h =
     (let (r, h1) = (if ar_disable_proxy req then disable_old_proxy sys h else (nothing_applied, h))
      in apply_projects im sys root (ar_projects req) r h1)"


section \<open>The environment of an imported project\<close>

definition read_back :: "string \<Rightarrow> string" where
  "read_back v = (if needs_quotes v then concat (map quote_char v) else v)"

lemma env_entry_line: "env_entry raw = map_option (\<lambda>(k, v). (k, unquoted v)) (env_line raw)"
  by (simp add: env_entry_def env_line_def Let_def split: option.split)

lemma hex_char_no_newline: "n < 16 \<Longrightarrow> hex_char n \<noteq> newline"
  by (auto simp: hex_char_def char_of_eq_iff take_bit_eq_mod)

lemma quote_char_no_newline: "newline \<notin> set (quote_char c)"
  by (auto simp: quote_char_def Let_def code_def hex_char_no_newline hex_char_no_newline[THEN not_sym])

lemma quote_char_single: "quote_char c = [c] \<or> length (quote_char c) \<ge> 2"
  by (simp add: quote_char_def Let_def)

lemma quoted_same: "concat (map quote_char v) = v \<longleftrightarrow> list_all (\<lambda>c. quote_char c = [c]) v"
proof -
  have len: "length (concat (map quote_char v)) \<ge> length v" for v
  proof (induction v)
    case (Cons c v)
    then show ?case using quote_char_single[of c] by auto
  qed simp
  show ?thesis
  proof (induction v)
    case (Cons c v)
    show ?case
    proof (cases "quote_char c = [c]")
      case False
      then have "length (concat (map quote_char (c # v))) > length (c # v)" using quote_char_single[of c] len[of v] by simp
      then have "concat (map quote_char (c # v)) \<noteq> c # v" by (metis less_irrefl)
      then show ?thesis using False by simp
    qed (use Cons in simp)
  qed simp
qed

lemma unquoted_quoted: "unquoted (go_quote v) = concat (map quote_char v)"
  by (simp add: unquoted_def go_quote_def butlast_append)

lemma unquoted_plain: "\<not> needs_quotes v \<Longrightarrow> unquoted v = v"
proof -
  assume "\<not> needs_quotes v"
  then have "v \<noteq> [] \<Longrightarrow> hd v \<noteq> CHR 0x22 \<and> hd v \<noteq> CHR 0x27" by (cases v) (auto simp: needs_quotes_def)
  then show ?thesis by (cases v) (auto simp: unquoted_def)
qed

definition written :: "string \<Rightarrow> string" where
  "written v = (if needs_quotes v then go_quote v else v)"

lemma env_line_of_setting: "env_line_of (k, v) = setting (k, written v)"
  by (simp add: env_line_of_def setting_def written_def)

lemma written_value: "needs_quotes v \<or> trim_space v = v \<Longrightarrow> env_value (written v)"
proof (cases "needs_quotes v")
  case True
  have "trim_space (go_quote v) = go_quote v" by (intro trim_space_id) (simp_all add: go_quote_def is_space_def)
  moreover have "newline \<notin> set (go_quote v)" using quote_char_no_newline by (auto simp: go_quote_def)
  ultimately show ?thesis using True by (simp add: written_def env_value_def)
next
  case False
  assume "needs_quotes v \<or> trim_space v = v"
  then show ?thesis using False by (auto simp: written_def env_value_def needs_quotes_def list_ex_iff)
qed

lemma unquoted_written: "unquoted (written v) = read_back v"
  by (simp add: written_def read_back_def unquoted_quoted unquoted_plain)

lemma env_entry_written: "env_key k \<Longrightarrow> needs_quotes v \<or> trim_space v = v \<Longrightarrow> env_entry (env_line_of (k, v)) = Some (k, read_back v)"
  by (simp add: env_entry_line env_line_of_setting env_line_pair written_value unquoted_written)

lemma join_snoc_empty: "ls \<noteq> [] \<Longrightarrow> join [newline] (ls @ [[]]) = join [newline] ls @ [newline]"
  by (subst join_append) simp_all

definition readable_env :: "(string \<times> string) list \<Rightarrow> bool" where
  "readable_env env \<longleftrightarrow>
     env \<noteq> [] \<and> distinct (map fst env) \<and>
     list_all (\<lambda>(k, v). env_key k \<and> (needs_quotes v \<or> trim_space v = v) \<and> length (env_line_of (k, v)) < max_scan_token) env"

lemma env_lines_scanned:
  assumes "readable_env env"
  shows "fst (scan_lines max_scan_token (import_env_text env)) =
    map (\<lambda>k. env_line_of (k, case map_of env k of None \<Rightarrow> [] | Some v \<Rightarrow> v)) (sorted_keys env)"
proof -
  let ?ls = "map (\<lambda>k. env_line_of (k, case map_of env k of None \<Rightarrow> [] | Some v \<Rightarrow> v)) (sorted_keys env)"
  have ne: "?ls \<noteq> []" using assms by (auto simp: readable_env_def sorted_keys_def) (metis list.map_disc_iff list.size(3) length_0_conv length_map length_sort)
  have "newline \<notin> set l \<and> length l < max_scan_token \<and> drop_cr l = l" if l_in: "l \<in> set ?ls" for l
  proof -
    obtain k where k: "k \<in> set (map fst env)" "l = env_line_of (k, case map_of env k of None \<Rightarrow> [] | Some v \<Rightarrow> v)"
      using l_in by (auto simp: sorted_keys_def)
    then obtain v where v: "map_of env k = Some v" by (metis map_of_eq_None_iff not_None_eq set_map)
    then have "(k, v) \<in> set env" by (rule map_of_SomeD)
    then have ok: "env_key k" "needs_quotes v \<or> trim_space v = v" "length (env_line_of (k, v)) < max_scan_token"
      using assms by (auto simp: readable_env_def list_all_iff)
    have l: "l = setting (k, written v)" using k(2) v by (simp add: env_line_of_setting)
    have w: "env_value (written v)" by (rule written_value[OF ok(2)])
    have "newline \<notin> set l" using l w ok(1) by (auto simp: setting_def env_key_def env_value_def)
    moreover have "\<not> is_space (last l)" "l \<noteq> []"
      using l w trimmed_ends[of "written v"] by (auto simp: setting_def env_value_def is_space_def)
    ultimately show ?thesis using drop_cr_id[of l] ok(3) l by (simp add: env_line_of_setting)
  qed
  then have "scan_lines max_scan_token (join [newline] (?ls @ [[]])) = (?ls, [])"
    by (intro scan_lines_join) (simp add: list_all_iff)
  then show ?thesis by (simp only: import_env_text_def join_snoc_empty[OF ne] fst_conv)
qed

lemma parsed_entries:
  assumes "\<And>k. k \<in> set ks \<Longrightarrow> env_entry (f k) = Some (k, g k)"
  shows "map_of (foldl (\<lambda>env l. case env_entry l of None \<Rightarrow> env | Some (k, v) \<Rightarrow> AList.update k v env) env (map f ks)) q =
    (if q \<in> set ks then Some (g q) else map_of env q)"
  using assms
proof (induction ks arbitrary: env)
  case (Cons k ks)
  then show ?case by (simp add: update_conv')
qed simp

text \<open>
  C33: The agent's own parser reads back from the \<open>.env\<close> file of a project that is taken over what was written, except
  that a value printed with quotes comes back as \<open>%q\<close> escaped it. This is for an environment that can be read at
  all (\<open>readable_env\<close>): distinct names that are trimmed, not empty, start with no hash sign and hold no equals sign
  and no line end; values that are quoted or have no white space, carriage returns included, at either end; and
  lines below the 64 KiB of the scanner. Of such an environment the file reads back unchanged exactly when no
  quoted value holds a character that is escaped.
\<close>

theorem imported_env_reads_back:
  assumes "readable_env env"
  shows "map_of (parse_env_file (import_env_text env)) k = map_option read_back (map_of env k) \<and>
    (map_of (parse_env_file (import_env_text env)) = map_of env \<longleftrightarrow>
       list_all (\<lambda>(k, v). needs_quotes v \<longrightarrow> list_all (\<lambda>c. quote_char c = [c]) v) env)"
proof -
  let ?val = "\<lambda>k. case map_of env k of None \<Rightarrow> [] | Some v \<Rightarrow> v"
  have d: "distinct (map fst env)" using assms by (simp add: readable_env_def)
  have entry: "env_entry (env_line_of (k, ?val k)) = Some (k, read_back (?val k))" if k_in: "k \<in> set (sorted_keys env)" for k
  proof -
    have "map_of env k \<noteq> None" using k_in by (simp add: sorted_keys_def map_of_eq_None_iff)
    then obtain v where v: "map_of env k = Some v" by blast
    then have "env_key k \<and> (needs_quotes v \<or> trim_space v = v)"
      using assms map_of_SomeD[OF v] by (auto simp: readable_env_def list_all_iff)
    then show ?thesis using v env_entry_written by simp
  qed
  have each: "map_of (parse_env_file (import_env_text env)) k = map_option read_back (map_of env k)" for k
    using parsed_entries[of "sorted_keys env" "\<lambda>k. env_line_of (k, ?val k)" "\<lambda>k. read_back (?val k)" "[]" k, OF entry]
    by (auto simp: parse_env_file_def env_lines_scanned[OF assms] sorted_keys_def map_of_eq_None_iff split: option.splits)
  have "map_of (parse_env_file (import_env_text env)) = map_of env \<longleftrightarrow> (\<forall>(k, v)\<in>set env. read_back v = v)"
  proof
    assume same: "map_of (parse_env_file (import_env_text env)) = map_of env"
    have "read_back v = v" if "(k, v) \<in> set env" for k v
      using each[of k] same map_of_is_SomeI[OF d that] by simp
    then show "\<forall>(k, v)\<in>set env. read_back v = v" by blast
  next
    assume "\<forall>(k, v)\<in>set env. read_back v = v"
    then have "map_option read_back (map_of env k) = map_of env k" for k by (cases "map_of env k") (auto dest: map_of_SomeD)
    then show "map_of (parse_env_file (import_env_text env)) = map_of env" using each by fastforce
  qed
  moreover have "read_back v = v \<longleftrightarrow> (needs_quotes v \<longrightarrow> list_all (\<lambda>c. quote_char c = [c]) v)" for v
    using quoted_same[of v] by (simp add: read_back_def)
  ultimately show ?thesis using each by (simp add: list_all_iff case_prod_beta)
qed

theorem imported_env_reads_back_witness:
  "map_of (parse_env_file (import_env_text [(''B'', ''x y''), (''A'', ''a'' @ quote @ ''b'')])) ''A'' = Some (''a'' @ [CHR 0x5C, CHR 0x22] @ ''b'')"
proof -
  let ?env = "[(''B'', ''x y''), (''A'', ''a'' @ quote @ ''b'')]"
  have q: "needs_quotes (''a'' @ quote @ ''b'')" "needs_quotes ''x y''" by (simp_all add: needs_quotes_def)
  have k: "env_key ''A''" "env_key ''B''"
    by (simp_all add: env_key_def trim_space_def trim_by_def trim_right_by_def is_space_def)
  have l: "length (env_line_of (''A'', ''a'' @ quote @ ''b'')) < max_scan_token" "length (env_line_of (''B'', ''x y'')) < max_scan_token"
    by (simp_all add: env_line_of_def q go_quote_def quote_char_def code_def max_scan_token_def Let_def)
  have r: "readable_env ?env" using q k l by (simp add: readable_env_def)
  have "read_back (''a'' @ quote @ ''b'') = ''a'' @ [CHR 0x5C, CHR 0x22] @ ''b''"
    unfolding read_back_def by (simp add: q[simplified] quote_char_def code_def Let_def)
  then show ?thesis using imported_env_reads_back[OF r, of "''A''"] by simp
qed

section \<open>Where a project is taken over to\<close>

definition slug_ok :: "string \<Rightarrow> bool" where
  "slug_ok s \<longleftrightarrow> s \<noteq> [] \<and> list_all (\<lambda>c. is_lower_letter c \<or> is_digit c \<or> c = CHR ''-'') s"

lemma slug_chars: "list_all (\<lambda>c. is_lower_letter c \<or> is_digit c \<or> c = CHR ''-'') (concat (map slug_char s))"
  by (induction s) (auto simp: slug_char_def)

lemma itoa_chars: "list_all (\<lambda>c. is_digit c \<or> c = CHR ''-'') (itoa n)"
  using nat_dec_digits by (auto simp: itoa_def list_all_iff)

lemma slugify_ok: "slug_ok (slugify pid s)"
proof -
  have t: "list_all (\<lambda>c. is_lower_letter c \<or> is_digit c \<or> c = CHR ''-'') (trim_by p (concat (map slug_char x)))" for p x
    using slug_chars[of x] set_trim_by[of p "concat (map slug_char x)"] unfolding list_all_iff by blast
  have p: "list_all (\<lambda>c. is_lower_letter c \<or> is_digit c \<or> c = CHR ''-'') ''project-''"
    by (simp add: is_lower_letter_def code_def)
  show ?thesis using t p itoa_chars[of pid] by (auto simp: slugify_def slug_ok_def Let_def list_all_iff)
qed

lemma slug_plain: "slug_ok s \<Longrightarrow> plain s"
  by (cases s) (auto simp: slug_ok_def plain_def list_all_iff is_lower_letter_def is_digit_def code_def)

lemma loc_join_name:
  assumes "rooted dir" and "plain n"
  shows "loc h (path_join [dir, n]) = loc h dir @ [n]"
proof -
  have ne: "dir \<noteq> []" using assms(1) by (auto simp: rooted_iff)
  have "split_on slash n = [n]" using assms(2) by (intro split_on_single) (simp add: plain_def)
  then have "clean_comps (path_join [dir, n]) = clean_comps dir @ [n]"
    using clean_comps_path_join_two[OF ne, of n] norm_comps_plain[of "[n]"] assms(2) by simp
  then show ?thesis using rooted_path_join_two[OF ne, of n] assms(1) by (simp add: loc_rooted)
qed

lemma write_project_env_frame:
  assumes "q \<noteq> loc h (path_join [dir, ''.env''])"
  shows "file_at (snd (write_project_env dir pj h)) q = file_at h q"
proof -
  obtain r h1 where w: "write_file (path_join [dir, ''.env'']) (import_env_text (ip_env pj)) h = (r, h1)" by fastforce
  then have "file_at h1 q = file_at h q" using write_with_frame assms unfolding write_file_def by blast
  then show ?thesis using w by (simp add: write_project_env_def split: option.split)
qed

lemma write_project_files_frame:
  assumes "q \<noteq> loc h (path_join [dir, ''docker-compose.yml''])" and "q \<noteq> loc h (path_join [dir, ''.env''])"
  shows "file_at (snd (write_project_files dir pj h)) q = file_at h q"
proof -
  obtain r h1 where m: "mkdir_all dir h = (r, h1)" by fastforce
  note m' = mkdir_all_NoneD[OF m]
  then have l: "loc h1 = loc h" using loc_fun_cong by blast
  obtain r2 h2 where w: "(if trim_space (ip_compose pj) = [] then (None, h1) else write_file (path_join [dir, ''docker-compose.yml'']) (ip_compose pj) h1) = (r2, h2)"
    by fastforce
  have w': "file_at h2 q = file_at h1 q \<and> cwd h2 = cwd h1"
  proof (cases "trim_space (ip_compose pj) = []")
    case False
    then have "write_with (\<lambda>_. []) (path_join [dir, ''docker-compose.yml'']) (ip_compose pj) h1 = (r2, h2)" using w by (simp add: write_file_def)
    from write_with_frame[OF this] show ?thesis using assms(1) l by simp
  qed (use w in simp)
  then have "loc h2 = loc h" using l loc_fun_cong by metis
  then have e: "file_at (snd (write_project_env dir pj h2)) q = file_at h q"
    using write_project_env_frame[of q h2 dir pj] assms(2) w' m' by simp
  show ?thesis
  proof (cases r)
    case None
    show ?thesis
    proof (cases r2)
      case None2: None
      have "snd (write_project_files dir pj h) = snd (write_project_env dir pj h2)"
        by (simp only: write_project_files_def m None w None2 prod.case option.case Let_def) (simp add: case_prod_beta)
      then show ?thesis using e by simp
    next
      case (Some x)
      have "snd (write_project_files dir pj h) = h2"
        by (simp only: write_project_files_def m None w Some prod.case option.case) simp
      then show ?thesis using w' m' by simp
    qed
  next
    case (Some x)
    then have "snd (write_project_files dir pj h) = h1" using m by (simp add: write_project_files_def)
    then show ?thesis using m' by simp
  qed
qed

text \<open>A name that is already a slug: a word with no dash at either end. It stays as it is.\<close>

definition dashed_word :: "string \<Rightarrow> bool" where
  "dashed_word s \<longleftrightarrow> slug_ok s \<and> hd s \<noteq> CHR ''-'' \<and> last s \<noteq> CHR ''-''"

lemma slugify_word: "dashed_word s \<Longrightarrow> slugify pid s = s"
proof -
  assume w: "dashed_word s"
  then have ne: "s \<noteq> []" and ends: "hd s \<noteq> CHR ''-''" "last s \<noteq> CHR ''-''" by (auto simp: dashed_word_def slug_ok_def)
  have chars: "is_lower_letter c \<or> is_digit c \<or> c = CHR ''-''" if "c \<in> set s" for c
    using w that by (auto simp: dashed_word_def slug_ok_def list_all_iff)
  have plain: "\<not> is_space c" "lower_char c = c" "slug_char c = [c]" if "c \<in> set s" for c
    using chars[OF that] by (auto simp: is_space_def lower_char_def slug_char_def is_lower_letter_def is_digit_def is_upper_letter_def code_def)
  have "trim_space s = s" using ne plain(1)[of "hd s"] plain(1)[of "last s"] trimmed_iff[of s] by simp
  moreover have "to_lower s = s" using plain(2) by (simp add: to_lower_def map_idI)
  moreover have "concat (map slug_char s) = s" using plain(3) by (induction s) auto
  moreover have "trim_by (\<lambda>c. c = CHR ''-'') s = s"
    using ne ends trim_right_by_id[of s "\<lambda>c. c = CHR ''-''"] by (cases s) (auto simp: trim_by_def)
  ultimately show ?thesis using ne by (simp add: slugify_def Let_def)
qed

lemma written_project:
  assumes "write_project_files dir pj h = ((True, es), h')"
    and "loc h (path_join [dir, ''docker-compose.yml'']) \<noteq> loc h (path_join [dir, ''.env''])"
  shows "trim_space (ip_compose pj) \<noteq> [] \<Longrightarrow> file_at h' (loc h (path_join [dir, ''docker-compose.yml''])) = Some (ip_compose pj)"
    and "es = [] \<Longrightarrow> ip_env pj \<noteq> [] \<Longrightarrow> file_at h' (loc h (path_join [dir, ''.env''])) = Some (import_env_text (ip_env pj))"
proof -
  obtain r h1 where m: "mkdir_all dir h = (r, h1)" by fastforce
  have r: "r = None" using assms(1) m by (cases r) (simp_all add: write_project_files_def)
  have l: "loc h1 = loc h" using mkdir_all_NoneD[OF m] loc_fun_cong by blast
  obtain r2 h2 where w: "(if trim_space (ip_compose pj) = [] then (None, h1) else write_file (path_join [dir, ''docker-compose.yml'']) (ip_compose pj) h1) = (r2, h2)"
    by fastforce
  have r2: "r2 = None" using assms(1) m r w by (cases r2) (simp_all add: write_project_files_def)
  obtain es' h3 where e: "write_project_env dir pj h2 = (es', h3)" by fastforce
  have fin: "es' = es" "h3 = h'" using assms(1) m r w r2 e by (simp_all add: write_project_files_def)
  have l2: "loc h2 = loc h"
  proof (cases "trim_space (ip_compose pj) = []")
    case False
    then have "write_with (\<lambda>_. []) (path_join [dir, ''docker-compose.yml'']) (ip_compose pj) h1 = (r2, h2)" using w by (simp add: write_file_def)
    from write_with_frame[OF this] have "cwd h2 = cwd h1" by simp
    then show ?thesis using l loc_fun_cong[of h2 h1] by simp
  qed (use w l in simp)
  show "file_at h' (loc h (path_join [dir, ''docker-compose.yml''])) = Some (ip_compose pj)" if c: "trim_space (ip_compose pj) \<noteq> []"
  proof -
    have "write_with (\<lambda>_. []) (path_join [dir, ''docker-compose.yml'']) (ip_compose pj) h1 = (None, h2)"
      using w c r2 by (simp add: write_file_def)
    note this[THEN write_with_NoneD]
    then have "file_at h2 (loc h (path_join [dir, ''docker-compose.yml''])) = Some (ip_compose pj)" by (simp add: l split: option.splits)
    moreover have "file_at (snd (write_project_env dir pj h2)) (loc h (path_join [dir, ''docker-compose.yml''])) =
        file_at h2 (loc h (path_join [dir, ''docker-compose.yml'']))"
      by (rule write_project_env_frame) (use assms(2) in \<open>simp add: l2\<close>)
    ultimately show ?thesis using e fin(2) by simp
  qed
  show "file_at h' (loc h (path_join [dir, ''.env''])) = Some (import_env_text (ip_env pj))" if "es = []" "ip_env pj \<noteq> []"
  proof -
    obtain r3 h4 where x: "write_file (path_join [dir, ''.env'']) (import_env_text (ip_env pj)) h2 = (r3, h4)" by fastforce
    have "r3 = None" "h4 = h'" using that e fin x by (cases r3; simp add: write_project_env_def)+
    then have "write_with (\<lambda>_. []) (path_join [dir, ''.env'']) (import_env_text (ip_env pj)) h2 = (None, h')" using x by (simp add: write_file_def)
    note this[THEN write_with_NoneD]
    then show ?thesis by (simp add: l2 split: option.splits)
  qed
qed

text \<open>
  C23: A project that is taken over is written into the directory of its slug below the projects of the sandbox,
  and nowhere else. Whatever its name, the slug is a word of lower-case letters, digits and dashes; a name that is such
  a word already, with no dash at either end, is its own slug, so two projects with different names of that form
  never share a directory (names that differ in case, blanks, underscores or dropped characters can, see
  \<open>slugs_collide\<close>). No file but the compose file and the environment file of that directory changes;
  a project reported as taken over has its compose file there word for word when it brought one, and its
  environment file too unless an error of writing it was reported.
\<close>

theorem imported_project_confined:
  assumes "rooted root"
    and "dir = clean_comps root @ [''projects'', slugify (im_pid im) (ip_name pj)]"
    and "materialize im root pj h = ((stored, es), h')"
  shows "slug_ok (slugify (im_pid im) (ip_name pj)) \<and>
    (dashed_word (ip_name pj) \<longrightarrow> slugify (im_pid im) (ip_name pj) = ip_name pj) \<and>
    (\<forall>q. q \<notin> {dir @ [''docker-compose.yml''], dir @ [''.env'']} \<longrightarrow> file_at h' q = file_at h q) \<and>
    (stored \<and> trim_space (ip_compose pj) \<noteq> [] \<longrightarrow> file_at h' (dir @ [''docker-compose.yml'']) = Some (ip_compose pj)) \<and>
    (stored \<and> es = [] \<and> ip_env pj \<noteq> [] \<longrightarrow> file_at h' (dir @ [''.env'']) = Some (import_env_text (ip_env pj)))"
proof -
  let ?s = "slugify (im_pid im) (ip_name pj)"
  have p: "plain ?s" using slugify_ok slug_plain by blast
  have files: "(\<forall>q. q \<notin> {dir @ [''docker-compose.yml''], dir @ [''.env'']} \<longrightarrow> file_at h' q = file_at h q) \<and>
    (stored \<and> trim_space (ip_compose pj) \<noteq> [] \<longrightarrow> file_at h' (dir @ [''docker-compose.yml'']) = Some (ip_compose pj)) \<and>
    (stored \<and> es = [] \<and> ip_env pj \<noteq> [] \<longrightarrow> file_at h' (dir @ [''.env'']) = Some (import_env_text (ip_env pj)))"
  proof (cases "resolve_path root (path_join [''projects'', ?s])")
    case (Inl e)
    then show ?thesis using assms(3) by (simp add: materialize_def)
  next
    case (Inr d)
    have d: "loc h d = dir" "rooted d" using project_key[OF assms(1) p, of "[]" d] Inr by (simp_all add: assms(2))
    have at: "loc h (path_join [d, n]) = dir @ [n]" if "plain n" for n
      using loc_join_name[OF d(2) that] d(1) by simp
    have names: "plain ''docker-compose.yml''" "plain ''.env''" by (simp_all add: plain_def)
    have w: "write_project_files d pj h = ((stored, es), h')" using assms(3) Inr by (simp add: materialize_def)
    have "file_at h' q = file_at h q" if "q \<notin> {dir @ [''docker-compose.yml''], dir @ [''.env'']}" for q
      using write_project_files_frame[of q h d pj] that at[OF names(1)] at[OF names(2)] w by simp
    moreover have "loc h (path_join [d, ''docker-compose.yml'']) \<noteq> loc h (path_join [d, ''.env''])" using at names by simp
    ultimately show ?thesis using written_project[of d pj h es h'] w at[OF names(1)] at[OF names(2)] by (cases stored) simp_all
  qed
  have "dashed_word (ip_name pj) \<longrightarrow> ?s = ip_name pj" using slugify_word by blast
  then show ?thesis using slugify_ok files by blast
qed

definition demo_importer :: importer_env where
  "demo_importer = \<lparr>im_order = (\<lambda>rs. rs), im_stacks = (\<lambda>ss. ss), im_pid = 7, im_router = None, im_decode = (\<lambda>_. Inr \<lparr>ar_disable_proxy = False, ar_projects = []\<rparr>)\<rparr>"

definition demo_project :: import_project where
  "demo_project = \<lparr>ip_name = ''../Etc'', ip_compose = ''services:'', ip_env = [(''A'', ''1'')], ip_domains = []\<rparr>"

theorem imported_project_confined_witness:
  "slugify 7 ''../Etc'' = ''etc'' \<and>
   file_at (snd (materialize demo_importer ''/r'' demo_project (bare_host\<lparr>tree := [([''etc''], Dir), ([''etc'', ''.env''], File ''old'')]\<rparr>))) [''etc'', ''.env''] = Some ''old'' \<and>
   file_at (snd (materialize demo_importer ''/r'' demo_project (bare_host\<lparr>tree := [([''etc''], Dir), ([''etc'', ''.env''], File ''old'')]\<rparr>)))
     [''r'', ''projects'', ''etc'', ''docker-compose.yml''] = Some ''services:''"
proof -
  let ?h = "bare_host\<lparr>tree := [([''etc''], Dir), ([''etc'', ''.env''], File ''old'')]\<rparr>"
  let ?m = "materialize demo_importer ''/r'' demo_project ?h"
  have r: "rooted ''/r''" by (simp add: rooted_iff)
  have c: "clean_comps ''/r'' = [''r'']" by (simp add: clean_comps_def)
  have s: "slugify 7 ''../Etc'' = ''etc''" by code_simp
  have d: "[''r'', ''projects'', ''etc''] = clean_comps ''/r'' @ [''projects'', slugify (im_pid demo_importer) (ip_name demo_project)]"
    by (simp add: c s demo_importer_def demo_project_def)
  obtain stored es h' where m: "?m = ((stored, es), h')" by (metis surj_pair)
  have "fst (fst ?m)" by code_simp
  then have "stored" using m by simp
  moreover have "trim_space (ip_compose demo_project) \<noteq> []" by (simp add: demo_project_def model_defs)
  moreover have "file_at ?h [''etc'', ''.env''] = Some ''old''" by (simp add: file_at_def node_at_def)
  ultimately show ?thesis using imported_project_confined[OF r d m] m s by (simp add: demo_project_def)
qed

text \<open>Names that differ can become one directory; the project taken over last wins.\<close>

lemma slugs_collide: "slugify pid ''My App'' = slugify pid ''my_app''"
proof -
  have "concat (map slug_char (to_lower (trim_space ''My App''))) = concat (map slug_char (to_lower (trim_space ''my_app'')))" by code_simp
  then show ?thesis by (simp only: slugify_def)
qed

section \<open>What a scan misses\<close>

text \<open>The labels of a running container are JSON, where a quote stands between the label and the colon: no port is found.\<close>

lemma port_of_json_label_unseen:
  "first_match port_label (''{'' @ quote @ ''traefik.http.services.web.loadbalancer.server.port'' @ quote @ '':'' @ quote @ ''8080'' @ quote @ ''}'') = None"
  by code_simp

text \<open>A port before the rule it belongs to is not taken.\<close>

lemma port_before_rule_unseen:
  "map (\<lambda>(d, r). (d, dr_port r)) (cl_routes (foldl clean_line nothing_read
     [''  web:'', ''      - traefik.http.services.web.loadbalancer.server.port=80'', ''      - traefik.http.routers.web.rule=Host(`a.io`)''])) = [(''a.io'', 0)]"
  by code_simp

end
