(* ===== verification/Handlers.thy ===== *)
theory Handlers
  imports Terminal Security Importer
begin

text \<open>
  The handlers of the dashboard's commands: \<open>commands\_docker.go\<close>, \<open>commands\_files.go\<close>,
  \<open>commands\_system.go\<close>, \<open>commands\_router.go\<close>, \<open>commands\_security.go\<close>, \<open>commands\_import.go\<close> and the rest of
  \<open>commands.go\<close> in \<open>internal/agent\<close>. A handler gives its lines, its error, its payload and the agent after it.
  Deadlines are not modelled; progress that a handler sends while it works is sent here in the same
  order once the work is done.
\<close>

section \<open>What handlers work with\<close>

datatype payload =
    DiskPayload disk_report
  | ContainersPayload "container list"
  | ListingPayload "(string \<times> bool \<times> int) list"
  | PreparedPayload string
  | HostPathPayload bool bool
  | ExecPayload string int
  | RoutesPayload "route list"
  | Fail2banPayload bool bool
  | ScanPayload scan_result
  | ImportPayload apply_result

text \<open>
  What the handlers get from outside the agent: the decoders and encoders of JSON, the ticks of a running
  deployment, the user database, the dialer of the migration, the random bytes of a name, the size reported
  for a directory, the exit status of a process, the first element of a JSON array, and the schedules a
  slice holds after text was decoded into it.
\<close>

record handler_env =
  hv_deps :: deps
  hv_payload :: "payload \<Rightarrow> string option"
  hv_ticks :: "bool list"
  hv_root :: path
  hv_disk :: "string \<Rightarrow> raw_disk_item option"
  hv_first :: "string \<Rightarrow> string option"
  hv_dir_size :: int
  hv_exit_code :: "proc_result \<Rightarrow> int"
  hv_accounts :: accounts
  hv_dial :: "string \<Rightarrow> go_error option"
  hv_key_file :: path
  hv_inspecting :: inspecting
  hv_routes :: route_codec
  hv_spec :: router_spec
  hv_random :: "8 word list option"
  hv_deploy :: deploy_env
  hv_update :: update_env
  hv_import :: "importer_env option"
  hv_enc_schedules :: "schedule list \<Rightarrow> string option"
  hv_schedules_in :: "string \<Rightarrow> schedule list"

abbreviation hv_sys :: "handler_env \<Rightarrow> sys" where "hv_sys he \<equiv> dp_sys (hv_deps he)"

definition on_host :: "(host \<Rightarrow> 'a \<times> host) \<Rightarrow> agent \<Rightarrow> 'a \<times> agent" where
  "on_host f ag = (let (r, h) = f (ag_host ag) in (r, ag\<lparr>ag_host := h\<rparr>))"

text \<open>\<open>setPayload\<close>: a value that cannot be encoded is no payload.\<close>

definition set_payload :: "handler_env \<Rightarrow> payload \<Rightarrow> string" where
  "set_payload he v = (case hv_payload he v of None \<Rightarrow> [] | Some raw \<Rightarrow> raw)"

definition said :: "outcome \<Rightarrow> outcome_of" where
  "said r = (fst r, snd r, [])"

definition refused :: "go_error \<Rightarrow> outcome_of" where
  "refused e = ([], Some e, [])"

definition done_with :: "string \<Rightarrow> outcome_of" where
  "done_with line = ([line], None, [])"

section \<open>Docker (commands\_docker.go)\<close>

definition default_logs_tail_lines :: int where "default_logs_tail_lines = 200"
definition max_logs_tail_lines :: int where "max_logs_tail_lines = 2000"

definition handle_docker_disk_usage :: "handler_env \<Rightarrow> handler" where
  "handle_docker_disk_usage he cmd ag =
     (case on_host (disk_usage (hv_sys he) (hv_disk he)) ag of
        (Inl e, ag1) \<Rightarrow> (refused e, ag1)
      | (Inr rep, ag1) \<Rightarrow> (([''Fetched Docker disk usage report successfully.''], None, set_payload he (DiskPayload rep)), ag1))"

definition handle_docker_prune :: "handler_env \<Rightarrow> handler" where
  "handle_docker_prune he cmd ag = (let (r, ag1) = on_host (docker_prune (hv_sys he)) ag in (said r, ag1))"

text \<open>The directories that go with a removed container.\<close>

definition remove_project_dir :: "path \<Rightarrow> string \<Rightarrow> host \<Rightarrow> host" where
  "remove_project_dir root name h =
     (case resolve_path root (path_join [''projects'', name]) of Inl _ \<Rightarrow> h | Inr p \<Rightarrow> snd (remove_all p h))"

definition remove_working_dir :: "path \<Rightarrow> path \<Rightarrow> host \<Rightarrow> host" where
  "remove_working_dir root dir h =
     (case resolve_path root ''.'' of
        Inl _ \<Rightarrow> h
      | Inr sb \<Rightarrow> if dir \<noteq> [] \<and> has_prefix dir sb then snd (remove_all dir h) else h)"

definition remove_container_dirs :: "path \<Rightarrow> string \<Rightarrow> path \<Rightarrow> string \<Rightarrow> host \<Rightarrow> host" where
  "remove_container_dirs root project dir cid h =
     remove_working_dir root dir
       (remove_project_dir root cid (if project \<noteq> [] then remove_project_dir root project h else h))"

definition container_labels :: "sys \<Rightarrow> string \<Rightarrow> string \<Rightarrow> host \<Rightarrow> (string \<times> string) \<times> host" where
  "container_labels sys action cid h =
     (if action = ''remove''
      then (let (project, h1) = compose_label sys cid ''com.docker.compose.project'' h;
                (dir, h2) = compose_label sys cid ''com.docker.compose.project.working_dir'' h1
            in ((project, dir), h2))
      else (([], []), h))"

definition act_on_container :: "sys \<Rightarrow> path \<Rightarrow> command \<Rightarrow> string \<Rightarrow> host \<Rightarrow> go_error option \<times> host" where
  "act_on_container sys root cmd cid h =
     (let ((project, dir), h1) = container_labels sys (cm_action cmd) cid h in
      case control_container sys cid (cm_action cmd) (cm_remove_volumes cmd) (cm_remove_image cmd) h1 of
        (Some e, h2) \<Rightarrow> (Some e, h2)
      | (None, h2) \<Rightarrow> (None, if cm_action cmd = ''remove'' then remove_container_dirs root project dir cid h2 else h2))"

definition handle_container_action :: "handler_env \<Rightarrow> handler" where
  "handle_container_action he cmd ag =
     (case require_container_id cmd of
        Inl e \<Rightarrow> (refused e, ag)
      | Inr cid \<Rightarrow>
          (case on_host (act_on_container (hv_sys he) (hv_root he) cmd cid) ag of
             (Some e, ag1) \<Rightarrow> (refused e, ag1)
           | (None, ag1) \<Rightarrow>
               (case send_snapshot (hv_deps he) ag1 of
                  (Some e, ag2) \<Rightarrow> (refused e, ag2)
                | (None, ag2) \<Rightarrow>
                    (done_with (''Container '' @ cid @ '' '' @ cm_action cmd @ '' succeeded.''),
                     publish_container_status (hv_deps he) cid ag2))))"

definition handle_container_rename :: "handler_env \<Rightarrow> handler" where
  "handle_container_rename he cmd ag =
     (case require_container_id cmd of
        Inl e \<Rightarrow> (refused e, ag)
      | Inr cid \<Rightarrow>
          (case require (cm_new_name cmd) ''new_name'' of
             Inl e \<Rightarrow> (refused e, ag)
           | Inr name \<Rightarrow>
               (case on_host (rename_container (hv_sys he) cid name) ag of
                  (Some e, ag1) \<Rightarrow> (refused e, ag1)
                | (None, ag1) \<Rightarrow>
                    (case send_snapshot (hv_deps he) ag1 of
                       (Some e, ag2) \<Rightarrow> (refused e, ag2)
                     | (None, ag2) \<Rightarrow> (done_with (''Container '' @ cid @ '' renamed to '' @ name @ ''.''), ag2)))))"

definition handle_server_action :: "handler_env \<Rightarrow> handler" where
  "handle_server_action he cmd ag =
     (let action = trim_space (cm_action cmd) in
      if action = ''restart_docker'' then (let (r, ag1) = on_host (restart_daemon (hv_sys he)) ag in (said r, ag1))
      else if action = ''reset_server'' then (let (r, ag1) = on_host (schedule_server_reset (hv_sys he)) ag in (said r, ag1))
      else (refused (Msg (''unsupported server action '' @ cm_action cmd)), ag))"

definition change_network :: "handler_env \<Rightarrow> (string \<Rightarrow> host \<Rightarrow> outcome \<times> host) \<Rightarrow> handler" where
  "change_network he apply' cmd ag =
     (case require (cm_network cmd) ''network_name'' of
        Inl e \<Rightarrow> (refused e, ag)
      | Inr name \<Rightarrow>
          (case on_host (apply' name) ag of
             ((logs, Some e), ag1) \<Rightarrow> ((logs, Some e, []), ag1)
           | ((logs, None), ag1) \<Rightarrow> (let (r, ag2) = send_snapshot (hv_deps he) ag1 in ((logs, r, []), ag2))))"

definition handle_network_create :: "handler_env \<Rightarrow> handler" where
  "handle_network_create he = change_network he (create_network (hv_sys he))"

definition handle_network_delete :: "handler_env \<Rightarrow> handler" where
  "handle_network_delete he = change_network he (delete_network (hv_sys he))"

text \<open>The batches of a deployment as progress; afterwards the containers are reported.\<close>

definition send_batches :: "handler_env \<Rightarrow> command \<Rightarrow> string list list \<Rightarrow> agent \<Rightarrow> agent" where
  "send_batches he cmd bs ag =
     fold (\<lambda>ls. send_progress (hv_deps he)
       \<lparr>cp_id = cm_id cmd, cp_status = st_running (dp_proto (hv_deps he)), cp_error = [], cp_logs = ls, cp_payload = []\<rparr>) bs ag"

definition report_containers :: "handler_env \<Rightarrow> string list \<Rightarrow> agent \<Rightarrow> outcome_of \<times> agent" where
  "report_containers he logs ag =
     (case send_snapshot (hv_deps he) ag of
        (Some e, ag1) \<Rightarrow> ((logs, Some e, []), ag1)
      | (None, ag1) \<Rightarrow> ((logs, None, []), publish_all_container_statuses (hv_deps he) ag1))"

text \<open>A handler that may never return.\<close>

type_synonym slow_handler = "command \<Rightarrow> agent \<Rightarrow> (outcome_of \<times> agent) option"

definition store_compose :: "path \<Rightarrow> string \<Rightarrow> host \<Rightarrow> host" where
  "store_compose p content h =
     (if trim_space content = [] then h
      else (case mkdir_all (path_dir p) h of (Some _, h1) \<Rightarrow> h1 | (None, h1) \<Rightarrow> snd (write_file p content h1)))"

definition handle_deploy :: "handler_env \<Rightarrow> slow_handler" where
  "handle_deploy he cmd ag =
     (case require_project_id cmd of
        Inl e \<Rightarrow> Some (refused e, ag)
      | Inr project \<Rightarrow>
          (case resolve_path (hv_root he) (path_join [''projects'', project, ''docker-compose.yml'']) of
             Inl e \<Rightarrow> Some (refused e, ag)
           | Inr p \<Rightarrow>
               (let h1 = store_compose p (da_compose (cm_deploy cmd)) (ag_host ag) in
                case deploy_compose_with_report (hv_sys he) (hv_ticks he) p (cm_command cmd) h1 of
                  (None, h2) \<Rightarrow> None
                | (Some ((logs, err), bs), h2) \<Rightarrow>
                    (let h3 = write_deployment_log (hv_deploy he) (hv_root he) project (cm_id cmd) logs err h2;
                         ag1 = send_batches he cmd bs (ag\<lparr>ag_host := h3\<rparr>)
                     in Some (case err of Some e \<Rightarrow> ((logs, Some e, []), ag1) | None \<Rightarrow> report_containers he logs ag1)))))"

definition handle_container_redeploy :: "handler_env \<Rightarrow> slow_handler" where
  "handle_container_redeploy he cmd ag =
     (case require_container_id cmd of
        Inl e \<Rightarrow> Some (refused e, ag)
      | Inr cid \<Rightarrow>
          (case redeploy_container_with_report (hv_sys he) (hv_ticks he) (hv_root he) cid (ag_host ag) of
             (None, h1) \<Rightarrow> None
           | (Some ((logs, err), bs), h1) \<Rightarrow>
               (let ag1 = send_batches he cmd bs (ag\<lparr>ag_host := h1\<rparr>)
                in Some (case err of Some e \<Rightarrow> ((logs, Some e, []), ag1) | None \<Rightarrow> report_containers he logs ag1))))"

definition handle_git_deploy_command :: "handler_env \<Rightarrow> slow_handler" where
  "handle_git_deploy_command he cmd ag =
     (case handle_git_deploy_with_report (hv_deploy he) (hv_sys he) (hv_ticks he) (hv_root he) cmd (ag_host ag) of
        (None, h1) \<Rightarrow> None
      | (Some ((logs, err), bs), h1) \<Rightarrow>
          (let (snap, ag1) = send_snapshot (hv_deps he) (send_batches he cmd bs (ag\<lparr>ag_host := h1\<rparr>));
               err1 = (if snap \<noteq> None \<and> err = None then snap else err)
           in Some ((logs, err1, []), publish_all_container_statuses (hv_deps he) ag1)))"

definition clamp_tail_lines :: "int \<Rightarrow> int" where
  "clamp_tail_lines requested =
     (if requested \<le> 0 then default_logs_tail_lines else if requested > max_logs_tail_lines then max_logs_tail_lines else requested)"

definition handle_container_logs_tail :: "handler_env \<Rightarrow> handler" where
  "handle_container_logs_tail he cmd ag =
     (case require_container_id cmd of
        Inl e \<Rightarrow> (refused e, ag)
      | Inr cid \<Rightarrow>
          (let (r, ag1) = on_host (get_logs_preview (hv_sys he) cid (clamp_tail_lines (cm_tail cmd))) ag in (said r, ag1)))"

definition handle_containers_snapshot_pull :: "handler_env \<Rightarrow> handler" where
  "handle_containers_snapshot_pull he cmd ag =
     (case on_host (list_containers (hv_sys he)) ag of
        (Inl e, ag1) \<Rightarrow> (refused e, ag1)
      | (Inr cs, ag1) \<Rightarrow>
          (([''Containers snapshot size: '' @ nat_dec (length cs)], None, set_payload he (ContainersPayload cs)), ag1))"

text \<open>The answers of \<open>docker inspect\<close> go back as they are, an array of one object as the object.\<close>

definition handle_container_mounts :: "handler_env \<Rightarrow> handler" where
  "handle_container_mounts he cmd ag =
     (case require_container_id cmd of
        Inl e \<Rightarrow> (refused e, ag)
      | Inr cid \<Rightarrow>
          (case on_host (docker_inspect (hv_sys he) cid [''--format={{json .Mounts}}'']) ag of
             (Inl e, ag1) \<Rightarrow> (refused e, ag1)
           | (Inr raw, ag1) \<Rightarrow> (([''Fetched container mounts for '' @ cid], None, raw), ag1)))"

definition handle_container_inspect :: "handler_env \<Rightarrow> handler" where
  "handle_container_inspect he cmd ag =
     (case require_container_id cmd of
        Inl e \<Rightarrow> (refused e, ag)
      | Inr cid \<Rightarrow>
          (case on_host (docker_inspect (hv_sys he) cid []) ag of
             (Inl e, ag1) \<Rightarrow> (refused e, ag1)
           | (Inr raw, ag1) \<Rightarrow>
               (([''Inspected container '' @ cid], None, case hv_first he raw of Some one \<Rightarrow> one | None \<Rightarrow> raw), ag1)))"

definition handle_prepare_migration_target :: "handler_env \<Rightarrow> handler" where
  "handle_prepare_migration_target he cmd ag =
     (let ma = cm_migration cmd in
      case on_host (prepare_migration_target_key (hv_accounts he) (hv_sys he) (ma_key ma) (ma_ssh_user ma)) ag of
        (Inl e, ag1) \<Rightarrow> (refused e, ag1)
      | (Inr user, ag1) \<Rightarrow>
          (([''Prepared target VPS migration SSH key for user '' @ go_quote user @ ''.''], None,
            set_payload he (PreparedPayload user)), ag1))"

definition handle_migration_preflight :: "handler_env \<Rightarrow> handler" where
  "handle_migration_preflight he cmd ag =
     (let ma = cm_migration cmd in
      if trim_space (ma_key ma) \<noteq> []
      then (let (r, ag1) = on_host (check_migration_connectivity (hv_sys he) (hv_dial he) (hv_key_file he)
                                      (ma_target_ip ma) (ma_ssh_port ma) (ma_ssh_user ma) (ma_key ma)) ag
            in (said r, ag1))
      else (said (check_migration_reachable (hv_dial he) (ma_target_ip ma) (ma_ssh_port ma)), ag))"

definition send_lines :: "handler_env \<Rightarrow> command \<Rightarrow> string list \<Rightarrow> agent \<Rightarrow> agent" where
  "send_lines he cmd ls ag = send_batches he cmd (map (\<lambda>l. [l]) ls) ag"

definition handle_migrate_container_source :: "handler_env \<Rightarrow> handler" where
  "handle_migrate_container_source he cmd ag =
     (case require_container_id cmd of
        Inl e \<Rightarrow> (refused e, ag)
      | Inr cid \<Rightarrow>
          (let ma = cm_migration cmd;
               ((err, ls), ag1) = on_host (migrate_container_to_target (hv_inspecting he) (hv_sys he) cid (ma_target_ip ma)
                                     (ma_ssh_port ma) (ma_ssh_user ma) (ma_key ma) (ma_move ma)) ag;
               ag2 = send_lines he cmd ls ag1
           in case err of
                Some e \<Rightarrow> ((ls, Some e, []), ag2)
              | None \<Rightarrow>
                  ((ls @ [''Migrated container '' @ cid @ '' to target '' @ ma_target_ip ma @ '' successfully.''], None, []),
                   snd (send_snapshot (hv_deps he) ag2))))"

section \<open>Files (commands\_files.go)\<close>

definition schedules_storage_path :: path where
  "schedules_storage_path = ''schedules/schedules.json''"

definition listing_entry :: "handler_env \<Rightarrow> string \<times> node \<Rightarrow> string \<times> bool \<times> int" where
  "listing_entry he e =
     (case snd e of File s \<Rightarrow> (fst e, False, int (length s)) | Dir \<Rightarrow> (fst e, True, hv_dir_size he))"

definition handle_file_list :: "handler_env \<Rightarrow> handler" where
  "handle_file_list he cmd ag =
     (case on_host (fm_list (hv_root he) (cm_file_path cmd)) ag of
        (Inl e, ag1) \<Rightarrow> (refused e, ag1)
      | (Inr es, ag1) \<Rightarrow>
          (([''Listed '' @ cm_file_path cmd], None, set_payload he (ListingPayload (map (listing_entry he) es))), ag1))"

text \<open>The content goes back as \<open>%q\<close> prints it.\<close>

definition handle_file_read :: "handler_env \<Rightarrow> handler" where
  "handle_file_read he cmd ag =
     (case on_host (fm_read (hv_root he) (cm_file_path cmd)) ag of
        (Inl e, ag1) \<Rightarrow> (refused e, ag1)
      | (Inr raw, ag1) \<Rightarrow> (([''Read '' @ cm_file_path cmd], None, go_quote raw), ag1))"

definition handle_file_write :: "handler_env \<Rightarrow> handler" where
  "handle_file_write he cmd ag =
     (case on_host (fm_write (hv_root he) (cm_file_path cmd) (cm_content cmd)) ag of
        (Some e, ag1) \<Rightarrow> (refused e, ag1)
      | (None, ag1) \<Rightarrow> (done_with (''Written to '' @ cm_file_path cmd), ag1))"

definition handle_file_delete :: "handler_env \<Rightarrow> handler" where
  "handle_file_delete he cmd ag =
     (case on_host (fm_delete (hv_root he) (cm_file_path cmd)) ag of
        (Some e, ag1) \<Rightarrow> (refused e, ag1)
      | (None, ag1) \<Rightarrow> (done_with (''Deleted '' @ cm_file_path cmd), ag1))"

definition handle_save_compose :: "handler_env \<Rightarrow> handler" where
  "handle_save_compose he cmd ag =
     (case require_project_id cmd of
        Inl e \<Rightarrow> (refused e, ag)
      | Inr project \<Rightarrow>
          (case require (cm_content cmd) ''compose content'' of
             Inl e \<Rightarrow> (refused e, ag)
           | Inr _ \<Rightarrow>
               (case on_host (fm_write (hv_root he) (path_join [''projects'', project, ''docker-compose.yml'']) (cm_content cmd)) ag of
                  (Some e, ag1) \<Rightarrow> (refused e, ag1)
                | (None, ag1) \<Rightarrow> (done_with ''Compose file saved.'', ag1))))"

text \<open>The path is the machine's, not one of the sandbox.\<close>

definition handle_check_host_path :: "handler_env \<Rightarrow> handler" where
  "handle_check_host_path he cmd ag =
     (case require (cm_file_path cmd) ''file_path'' of
        Inl e \<Rightarrow> (refused e, ag)
      | Inr _ \<Rightarrow>
          (case on_host (Host.stat (cm_file_path cmd)) ag of
             (Inl e, ag1) \<Rightarrow>
               (if is_not_exist e
                then (([''Path does not exist: '' @ cm_file_path cmd], None, set_payload he (HostPathPayload False False)), ag1)
                else (refused (Wrapf ''path access error: '' e []), ag1))
           | (Inr n, ag1) \<Rightarrow>
               (([''Checked path: '' @ cm_file_path cmd], None, set_payload he (HostPathPayload True (n = Dir))), ag1)))"

definition normalized_schedule :: "string \<Rightarrow> schedule \<Rightarrow> schedule" where
  "normalized_schedule server s = s\<lparr>sd_server := server, sd_source := ''dashboard''\<rparr>"

definition handle_cron_schedules_apply :: "handler_env \<Rightarrow> handler" where
  "handle_cron_schedules_apply he cmd ag =
     (let ss = map (normalized_schedule (ag_server ag)) (cm_schedules cmd) in
      case hv_enc_schedules he ss of
        None \<Rightarrow> (refused (Msg ''json: unsupported value''), ag)
      | Some raw \<Rightarrow>
          (case on_host (fm_write (hv_root he) schedules_storage_path raw) ag of
             (Some e, ag1) \<Rightarrow> (refused e, ag1)
           | (None, ag1) \<Rightarrow> (done_with (''Saved '' @ nat_dec (length ss) @ '' schedule(s).''), ag1)))"

definition handle_cron_schedules_pull :: "handler_env \<Rightarrow> handler" where
  "handle_cron_schedules_pull he cmd ag =
     (let (got, ag1) = on_host (fm_read (hv_root he) schedules_storage_path) ag;
          ss = (case got of Inl _ \<Rightarrow> [] | Inr raw \<Rightarrow> hv_schedules_in he raw);
          pr = dp_proto (hv_deps he)
      in case emit_fact (hv_deps he) (ent_cron pr) (act_snapshot pr) [] (CronMsg ss) ag1 of
           (Some e, ag2) \<Rightarrow> (refused e, ag2)
         | (None, ag2) \<Rightarrow> (done_with (''Pulled '' @ nat_dec (length ss) @ '' schedule(s).''), ag2))"

section \<open>The machine (commands\_system.go)\<close>

definition describe_command_output :: "string \<Rightarrow> go_error option \<Rightarrow> string" where
  "describe_command_output raw err =
     (if trim_space raw \<noteq> [] then raw
      else (case err of
              Some e \<Rightarrow> ''Command failed: '' @ error_text e
            | None \<Rightarrow> ''Command executed cleanly (no output).''))"

definition handle_exec_command :: "handler_env \<Rightarrow> handler" where
  "handle_exec_command he cmd ag =
     (case require (cm_command cmd) ''command'' of
        Inl e \<Rightarrow> (refused e, ag)
      | Inr command_line \<Rightarrow>
          (let (r, ag1) = on_host (exec (hv_sys he) (custom_argv command_line)) ag;
               output = describe_command_output (p_all r) (p_err r)
           in (([output], p_err r, set_payload he (ExecPayload output (hv_exit_code he r))), ag1)))"

text \<open>What a handler leaves to run after its answer.\<close>

datatype job = RestartService | Uninstall bool

type_synonym job_handler = "command \<Rightarrow> agent \<Rightarrow> (outcome_of \<times> job option) \<times> agent"

definition report_update :: "handler_env \<Rightarrow> command \<Rightarrow> update_report \<Rightarrow> agent \<Rightarrow> agent" where
  "report_update he cmd rs ag =
     fold (\<lambda>(got, all, pct) a.
       snd (emit_signal (hv_deps he) (ent_command (dp_proto (hv_deps he))) (act_progress (dp_proto (hv_deps he)))
             (UpdateProgressMsg (cm_id cmd) got all pct) a)) rs ag"

definition handle_self_update :: "handler_env \<Rightarrow> job_handler" where
  "handle_self_update he cmd ag =
     (let aa = cm_agent cmd;
          ((err, rs), ag1) = on_host (safe_update_with_progress (hv_update he) (hv_sys he) (aa_binary_url aa) (aa_version aa) True) ag;
          ag2 = report_update he cmd rs ag1;
          target = (if trim_space (aa_version aa) = [] then ''latest'' else trim_space (aa_version aa))
      in case err of
           Some e \<Rightarrow> ((refused e, None), ag2)
         | None \<Rightarrow>
             ((done_with (''Agent binary updated to v'' @ target @ '' successfully. Service restarting...''), Some RestartService), ag2))"

text \<open>The process is started and not waited for; only a failure to start is seen.\<close>

definition restart_service_after_update :: "sys \<Rightarrow> host \<Rightarrow> host" where
  "restart_service_after_update sys h =
     (let (r, h1) = exec sys [''systemctl'', ''restart'', ''tug-agent.service''] (pass_time 1000000000 h);
          not_started = (case p_err r of None \<Rightarrow> False | Some (ExitError _) \<Rightarrow> False | Some _ \<Rightarrow> True);
          h2 = (if not_started then snd (exec sys [''systemctl'', ''restart'', ''tug-agent''] h1) else h1)
      in pass_time 2000000000 h2)"

definition handle_disconnect :: "handler_env \<Rightarrow> job_handler" where
  "handle_disconnect he cmd ag =
     ((done_with ''Disconnect acknowledged. Agent process shutting down.'', Some (Uninstall (aa_clean_docker (cm_agent cmd)))), ag)"

definition run_job :: "sys \<Rightarrow> job \<Rightarrow> host \<Rightarrow> host" where
  "run_job sys j h =
     (case j of
        RestartService \<Rightarrow> restart_service_after_update sys h
      | Uninstall everything \<Rightarrow>
          pass_time 500000000 (snd (run_detached_uninstall sys everything (pass_time 1500000000 h))))"

section \<open>The router (commands\_router.go)\<close>

definition min_port :: int where "min_port = 1"
definition max_port :: int where "max_port = 65535"

definition handle_install_tug_router :: "handler_env \<Rightarrow> handler" where
  "handle_install_tug_router he cmd ag =
     (case on_host (router_install (hv_sys he) (hv_spec he) (hv_random he) (cm_image cmd)) ag of
        ((logs, Some e), ag1) \<Rightarrow> ((logs, Some e, []), ag1)
      | ((logs, None), ag1) \<Rightarrow> report_containers he logs ag1)"

definition handle_configure_tug_router_route :: "handler_env \<Rightarrow> handler" where
  "handle_configure_tug_router_route he cmd ag =
     (case require_domain cmd of
        Inl e \<Rightarrow> (refused e, ag)
      | Inr domain \<Rightarrow>
          (case require (tm_target_name (cm_terminal cmd)) ''target_container_name'' of
             Inl e \<Rightarrow> (refused e, ag)
           | Inr target \<Rightarrow>
               (if cm_target_port cmd < min_port \<or> cm_target_port cmd > max_port
                then (refused (Msg (''target_port must be between '' @ itoa min_port @ '' and '' @ itoa max_port)), ag)
                else (let (r, ag1) = on_host (configure_route (hv_sys he) (hv_routes he) (hv_spec he)
                             \<lparr>rq_domain = domain, rq_target_id = trim_space (tm_target_id (cm_terminal cmd)),
                              rq_target_name = target, rq_target_port = cm_target_port cmd\<rparr>) ag
                      in (said r, ag1)))))"

definition handle_list_tug_router_routes :: "handler_env \<Rightarrow> handler" where
  "handle_list_tug_router_routes he cmd ag =
     (case on_host (list_routes (hv_sys he) (hv_routes he)) ag of
        (Inl e, ag1) \<Rightarrow> (refused e, ag1)
      | (Inr rs, ag1) \<Rightarrow> (([''Loaded '' @ nat_dec (length rs) @ '' route(s).''], None, set_payload he (RoutesPayload rs)), ag1))"

definition handle_remove_tug_router_route :: "handler_env \<Rightarrow> handler" where
  "handle_remove_tug_router_route he cmd ag =
     (case require_domain cmd of
        Inl e \<Rightarrow> (refused e, ag)
      | Inr domain \<Rightarrow>
          (let (r, ag1) = on_host (delete_route (hv_sys he) (hv_routes he) (hv_spec he) domain) ag in (said r, ag1)))"

section \<open>Security (commands\_security.go)\<close>

definition requested_hardening :: "security_args \<Rightarrow> ssh_options" where
  "requested_hardening sa =
     \<lparr>so_disable_root = sa_disable_root sa, so_disable_password = sa_disable_password sa, so_port = sa_ssh_port sa\<rparr>"

definition requested_rule :: "security_args \<Rightarrow> firewall_rule" where
  "requested_rule sa =
     \<lparr>fw_port = sa_fw_port sa, fw_protocol = sa_fw_protocol sa, fw_action = sa_fw_action sa, fw_source = sa_fw_source sa\<rparr>"

definition harden :: "sys \<Rightarrow> security_args \<Rightarrow> host \<Rightarrow> go_error option \<times> host" where
  "harden sys sa h =
     (case apply_ssh_hardening sys (requested_hardening sa) h of
        (Some e, h1) \<Rightarrow> (Some (Wrapf ''failed to apply SSH hardening: '' e []), h1)
      | (None, h1) \<Rightarrow>
          (if sa_fail2ban sa
           then (case apply_fail2ban sys True h1 of
                   (Some e, h2) \<Rightarrow> (Some (Wrapf ''failed to configure fail2ban: '' e []), h2)
                 | (None, h2) \<Rightarrow> (None, h2))
           else (None, snd (apply_fail2ban sys False h1))))"

definition handle_apply_security_hardening :: "handler_env \<Rightarrow> handler" where
  "handle_apply_security_hardening he cmd ag =
     (case on_host (harden (hv_sys he) (cm_security cmd)) ag of
        (Some e, ag1) \<Rightarrow> (refused e, ag1)
      | (None, ag1) \<Rightarrow> (done_with ''Security hardening settings applied successfully to host.'', ag1))"

definition change_firewall ::
  "(firewall_rule \<Rightarrow> host \<Rightarrow> go_error option \<times> host) \<Rightarrow> string \<Rightarrow> string \<Rightarrow> handler" where
  "change_firewall f failing changed cmd ag =
     (let sa = cm_security cmd in
      case on_host (f (requested_rule sa)) ag of
        (Some e, ag1) \<Rightarrow> (refused (Wrapf failing e []), ag1)
      | (None, ag1) \<Rightarrow>
          (done_with (''Firewall rule '' @ sa_fw_action sa @ '' '' @ sa_fw_port sa @ ''/'' @ sa_fw_protocol sa @ changed), ag1))"

definition handle_apply_firewall_rule :: "handler_env \<Rightarrow> handler" where
  "handle_apply_firewall_rule he =
     change_firewall (apply_firewall_rule (hv_sys he)) ''failed to apply firewall rule: '' '' applied.''"

definition handle_delete_firewall_rule :: "handler_env \<Rightarrow> handler" where
  "handle_delete_firewall_rule he =
     change_firewall (delete_firewall_rule (hv_sys he)) ''failed to delete firewall rule: '' '' deleted.''"

definition bool_text :: "bool \<Rightarrow> string" where
  "bool_text b = (if b then ''true'' else ''false'')"

definition handle_check_fail2ban :: "handler_env \<Rightarrow> handler" where
  "handle_check_fail2ban he cmd ag =
     (let (installed, ag1) = on_host (is_fail2ban_installed (hv_sys he)) ag;
          (running, ag2) = on_host (is_fail2ban_running (hv_sys he)) ag1
      in (([''Fail2ban status: installed='' @ bool_text installed @ '', running='' @ bool_text running], None,
           set_payload he (Fail2banPayload installed running)), ag2))"

definition handle_install_fail2ban :: "handler_env \<Rightarrow> handler" where
  "handle_install_fail2ban he cmd ag =
     (case on_host (apply_fail2ban (hv_sys he) True) ag of
        (Some e, ag1) \<Rightarrow> (refused (Wrapf ''failed to install and enable fail2ban: '' e []), ag1)
      | (None, ag1) \<Rightarrow>
          ((([''Fail2ban installed and enabled successfully.''], None, set_payload he (Fail2banPayload True True))), ag1))"

section \<open>The importer (commands\_import.go)\<close>

definition err_no_importer :: go_error where
  "err_no_importer = Msg ''importer subsystem is not initialized''"

definition handle_import_scan :: "handler_env \<Rightarrow> handler" where
  "handle_import_scan he cmd ag =
     (case hv_import he of
        None \<Rightarrow> (refused err_no_importer, ag)
      | Some im \<Rightarrow>
          (case on_host (import_scan im (hv_sys he) (aa_import_source (cm_agent cmd))) ag of
             (Inl e, ag1) \<Rightarrow> (refused e, ag1)
           | (Inr r, ag1) \<Rightarrow>
               (([''Workload scan completed. Source: '' @ pn_name (sr_panel r) @ '' (version: '' @ pn_version (sr_panel r) @
                  ''). Detected '' @ nat_dec (length (sr_projects r)) @ '' projects.''], None, set_payload he (ScanPayload r)), ag1)))"

definition apply_lines :: "apply_result \<Rightarrow> string list" where
  "apply_lines r =
     [''Import applied: '' @ nat_dec (length (ap_imported r)) @ '' projects materialized, '' @ nat_dec (length (ap_routes r)) @ '' routes configured.''] @
     (if ap_stopped r then [''Stopped conflicting legacy proxy container.''] else []) @
     (if ap_errors r \<noteq> [] then [''Encountered '' @ nat_dec (length (ap_errors r)) @ '' warning(s) during apply.''] else [])"

definition requested_import :: "importer_env \<Rightarrow> command \<Rightarrow> (go_error, apply_request) result" where
  "requested_import im cmd =
     (let raw = aa_import_payload (cm_agent cmd) in
      if raw = [] then Inr \<lparr>ar_disable_proxy = False, ar_projects = []\<rparr>
      else (case im_decode im raw of Inl e \<Rightarrow> Inl (Wrapf ''invalid import payload: '' e []) | Inr req \<Rightarrow> Inr req))"

definition handle_import_apply :: "handler_env \<Rightarrow> handler" where
  "handle_import_apply he cmd ag =
     (case hv_import he of
        None \<Rightarrow> (refused err_no_importer, ag)
      | Some im \<Rightarrow>
          (case requested_import im cmd of
             Inl e \<Rightarrow> (refused e, ag)
           | Inr req \<Rightarrow>
               (let (r, ag1) = on_host (import_apply im (hv_sys he) (hv_root he) req) ag
                in ((apply_lines r, None, set_payload he (ImportPayload r)), ag1))))"

section \<open>The table (commands.go)\<close>

text \<open>
  The commands the API can send, one for each of the protocol's constants; what string a constant is
  does not stand in this repository.
\<close>

datatype kind =
    DockerDiskUsage | DockerPrune
  | TerminalStart | TerminalInput | TerminalResize | TerminalStop
  | RunCronTask | ExecCommand | GitDeploy
  | FileList | FileRead | FileWrite | FileDelete
  | SelfUpdate | Disconnect
  | ContainerAction | ContainerRename | MigrateContainerSource | PrepareMigrationTarget | MigrationPreflight
  | ServerAction | NetworkCreate | NetworkDelete | SaveCompose | CronSchedulesApply | CronSchedulesPull
  | ContainerLogsTail | ContainersSnapshot | DeployProject | ContainerRedeploy
  | RouterInstall | RouterRouteConfigure | RouterRouteList | RouterRouteRemove
  | CheckHostPath | ContainerMounts | ContainerInspect
  | ApplySecurityHardening | ApplyFirewallRule | DeleteFirewallRule | CheckFail2ban | InstallFail2ban
  | ImportScan | ImportApply

text \<open>
  A handler of the table always returns, may never return, leaves a job behind, or works on the
  terminals.
\<close>

datatype entry =
    Plain handler
  | Slow slow_handler
  | Leaving job_handler
  | OnTerminals

fun command_handlers :: "handler_env \<Rightarrow> kind \<Rightarrow> entry" where
  "command_handlers he DockerDiskUsage = Plain (handle_docker_disk_usage he)"
| "command_handlers he DockerPrune = Plain (handle_docker_prune he)"
| "command_handlers he TerminalStart = OnTerminals"
| "command_handlers he TerminalInput = OnTerminals"
| "command_handlers he TerminalResize = OnTerminals"
| "command_handlers he TerminalStop = OnTerminals"
| "command_handlers he RunCronTask = Plain (handle_exec_command he)"
| "command_handlers he ExecCommand = Plain (handle_exec_command he)"
| "command_handlers he GitDeploy = Slow (handle_git_deploy_command he)"
| "command_handlers he FileList = Plain (handle_file_list he)"
| "command_handlers he FileRead = Plain (handle_file_read he)"
| "command_handlers he FileWrite = Plain (handle_file_write he)"
| "command_handlers he FileDelete = Plain (handle_file_delete he)"
| "command_handlers he SelfUpdate = Leaving (handle_self_update he)"
| "command_handlers he Disconnect = Leaving (handle_disconnect he)"
| "command_handlers he ContainerAction = Plain (handle_container_action he)"
| "command_handlers he ContainerRename = Plain (handle_container_rename he)"
| "command_handlers he MigrateContainerSource = Plain (handle_migrate_container_source he)"
| "command_handlers he PrepareMigrationTarget = Plain (handle_prepare_migration_target he)"
| "command_handlers he MigrationPreflight = Plain (handle_migration_preflight he)"
| "command_handlers he ServerAction = Plain (handle_server_action he)"
| "command_handlers he NetworkCreate = Plain (handle_network_create he)"
| "command_handlers he NetworkDelete = Plain (handle_network_delete he)"
| "command_handlers he SaveCompose = Plain (handle_save_compose he)"
| "command_handlers he CronSchedulesApply = Plain (handle_cron_schedules_apply he)"
| "command_handlers he CronSchedulesPull = Plain (handle_cron_schedules_pull he)"
| "command_handlers he ContainerLogsTail = Plain (handle_container_logs_tail he)"
| "command_handlers he ContainersSnapshot = Plain (handle_containers_snapshot_pull he)"
| "command_handlers he DeployProject = Slow (handle_deploy he)"
| "command_handlers he ContainerRedeploy = Slow (handle_container_redeploy he)"
| "command_handlers he RouterInstall = Plain (handle_install_tug_router he)"
| "command_handlers he RouterRouteConfigure = Plain (handle_configure_tug_router_route he)"
| "command_handlers he RouterRouteList = Plain (handle_list_tug_router_routes he)"
| "command_handlers he RouterRouteRemove = Plain (handle_remove_tug_router_route he)"
| "command_handlers he CheckHostPath = Plain (handle_check_host_path he)"
| "command_handlers he ContainerMounts = Plain (handle_container_mounts he)"
| "command_handlers he ContainerInspect = Plain (handle_container_inspect he)"
| "command_handlers he ApplySecurityHardening = Plain (handle_apply_security_hardening he)"
| "command_handlers he ApplyFirewallRule = Plain (handle_apply_firewall_rule he)"
| "command_handlers he DeleteFirewallRule = Plain (handle_delete_firewall_rule he)"
| "command_handlers he CheckFail2ban = Plain (handle_check_fail2ban he)"
| "command_handlers he InstallFail2ban = Plain (handle_install_fail2ban he)"
| "command_handlers he ImportScan = Plain (handle_import_scan he)"
| "command_handlers he ImportApply = Plain (handle_import_apply he)"

text \<open>The terminal's commands have no lines of their own.\<close>

definition handle_terminal :: "pty_env \<Rightarrow> handler_env \<Rightarrow> command \<Rightarrow> terminals \<Rightarrow> outcome_of \<times> terminals" where
  "handle_terminal pe he cmd t =
     (let (r, t1) = handle_terminal_command pe (hv_sys he) cmd t in (([], r, []), t1))"

text \<open>
  The handlers that work on the agent alone, as the dispatcher of one session sees them: a slow
  handler is given the outcome it has when it returns. \<open>kind_of\<close> reads the protocol's constants.
\<close>

definition answered :: "entry \<Rightarrow> command \<Rightarrow> agent \<Rightarrow> (outcome_of \<times> agent) option" where
  "answered en cmd ag =
     (case en of
        Plain f \<Rightarrow> Some (f cmd ag)
      | Slow f \<Rightarrow> f cmd ag
      | Leaving f \<Rightarrow> (case f cmd ag of ((out, _), ag1) \<Rightarrow> Some (out, ag1))
      | OnTerminals \<Rightarrow> None)"

definition plain_handlers :: "handler_env \<Rightarrow> (string \<Rightarrow> kind option) \<Rightarrow> handlers" where
  "plain_handlers he kind_of ty =
     (case kind_of ty of
        None \<Rightarrow> None
      | Some k \<Rightarrow> (case command_handlers he k of Plain f \<Rightarrow> Some f | _ \<Rightarrow> None))"

section \<open>What the removal of a container takes with it\<close>

definition project_reach :: "path \<Rightarrow> string \<Rightarrow> host \<Rightarrow> key \<Rightarrow> bool" where
  "project_reach root name h k \<longleftrightarrow>
     (case resolve_path root (path_join [''projects'', name]) of Inl _ \<Rightarrow> False | Inr p \<Rightarrow> prefix (loc h p) k)"

definition working_dir_reach :: "path \<Rightarrow> path \<Rightarrow> host \<Rightarrow> key \<Rightarrow> bool" where
  "working_dir_reach root dir h k \<longleftrightarrow>
     (case resolve_path root ''.'' of
        Inl _ \<Rightarrow> False
      | Inr sb \<Rightarrow> dir \<noteq> [] \<and> has_prefix dir sb \<and> prefix (loc h dir) k)"

lemma remove_all_nodes:
  assumes "faults h = []"
  shows "node_at (snd (remove_all p h)) k = (if prefix (loc h p) k then None else node_at h k)"
    and "faults (snd (remove_all p h)) = []" and "cwd (snd (remove_all p h)) = cwd h"
proof -
  have "pop_fault h = h" using assms by (cases h) (simp add: pop_fault_def)
  then have r: "snd (remove_all p h) = drop_under (loc h p) h" using assms by (simp add: remove_all_def fault_of_def)
  show "node_at (snd (remove_all p h)) k = (if prefix (loc h p) k then None else node_at h k)"
    "faults (snd (remove_all p h)) = []" "cwd (snd (remove_all p h)) = cwd h"
    unfolding r using assms by simp_all
qed

lemma remove_project_dir_nodes:
  assumes "faults h = []"
  shows "node_at (remove_project_dir root name h) k = (if project_reach root name h k then None else node_at h k)"
    and "faults (remove_project_dir root name h) = []" and "cwd (remove_project_dir root name h) = cwd h"
  by (cases "resolve_path root (path_join [''projects'', name])";
      simp add: remove_project_dir_def project_reach_def remove_all_nodes[OF assms] assms)+

lemma remove_working_dir_nodes:
  assumes "faults h = []"
  shows "node_at (remove_working_dir root dir h) k = (if working_dir_reach root dir h k then None else node_at h k)"
  by (cases "resolve_path root ''.''") (simp_all add: remove_working_dir_def working_dir_reach_def remove_all_nodes(1)[OF assms])

lemma reach_cwd:
  assumes "cwd h' = cwd h"
  shows "project_reach root name h' k = project_reach root name h k"
    and "working_dir_reach root dir h' k = working_dir_reach root dir h k"
  by (simp_all only: project_reach_def working_dir_reach_def loc_fun_cong[OF assms])

text \<open>
  C39: The removal of a container takes exactly three directories with it: the projects named by its project
  label and by its id, as the sandbox resolves them, and the directory its working-directory label leads
  to whenever the text of the label begins with the text of the sandbox root. The label is not
  resolved, so what it leads to need not lie in the sandbox: the witness loses a file of \<open>/etc\<close>.
\<close>

theorem removal_reach:
  assumes "faults h = []"
  shows "node_at (remove_container_dirs root project dir cid h) k =
    (if (project \<noteq> [] \<and> project_reach root project h k) \<or> project_reach root cid h k \<or> working_dir_reach root dir h k
     then None else node_at h k)"
proof -
  let ?h1 = "if project \<noteq> [] then remove_project_dir root project h else h"
  have h1: "faults ?h1 = []" "cwd ?h1 = cwd h"
    "node_at ?h1 k = (if project \<noteq> [] \<and> project_reach root project h k then None else node_at h k)"
    using remove_project_dir_nodes[OF assms] assms by simp_all
  note p = remove_project_dir_nodes[OF h1(1), of root cid]
  have "cwd (remove_project_dir root cid ?h1) = cwd h" using p(3) h1(2) by simp
  note r = reach_cwd(1)[OF h1(2), of root cid k] reach_cwd(2)[OF this, of root dir k]
  show ?thesis
    unfolding remove_container_dirs_def remove_working_dir_nodes[OF p(2)] p(1) h1(3) r by simp
qed

theorem removal_reach_witness:
  "let h = bare_host\<lparr>tree := [([''etc''], Dir), ([''etc'', ''shadow''], File ''root''), ([''r''], Dir), ([''r'', ''notes''], File ''n'')]\<rparr>;
       h' = remove_container_dirs ''/r'' [] ''/r/../etc'' ''c1'' h
   in node_at h' [''etc'', ''shadow''] = None \<and> node_at h' [''r'', ''notes''] = Some (File ''n'')"
proof -
  let ?h = "bare_host\<lparr>tree := [([''etc''], Dir), ([''etc'', ''shadow''], File ''root''), ([''r''], Dir), ([''r'', ''notes''], File ''n'')]\<rparr>"
  have f: "faults ?h = []" by (simp add: bare_host_def)
  have e: "resolve_path ''/r'' ''.'' = Inr ''/r''" by (simp add: resolve_path_def model_defs)
  have w: "working_dir_reach ''/r'' ''/r/../etc'' ?h [''etc'', ''shadow'']" "\<not> working_dir_reach ''/r'' ''/r/../etc'' ?h [''r'', ''notes'']"
    by (simp_all add: working_dir_reach_def e loc_def model_defs)
  have c: "\<not> project_reach ''/r'' ''c1'' ?h [''r'', ''notes'']"
    by (simp add: project_reach_def resolve_path_def loc_def model_defs)
  show ?thesis using removal_reach[OF f, of "''/r''" "[]" "''/r/../etc''" "''c1''"] w c by (simp add: Let_def node_at_def)
qed


end
