(* ===== verification/Session.thy ===== *)
theory Session
  imports Dispatch Reconnect
begin

text \<open>
  \<open>internal/agent/session.go\<close>: one websocket session. What the read loop does with a frame, what the
  tickers do, and the whole session as a machine over these events, on which the promise of the
  queue is carried over to the running agent.
\<close>

section \<open>Opening a session\<close>

definition is_auth_rejection :: "int option \<Rightarrow> bool" where
  "is_auth_rejection status = (case status of None \<Rightarrow> False | Some n \<Rightarrow> n = 400 \<or> n = 401 \<or> n = 403)"

text \<open>
  \<open>dialAPI\<close>: the dialer is a parameter that gives the error and the status of the response, if
  there was one.
\<close>

definition dial_api :: "(string \<Rightarrow> (go_error \<times> int option, conn) result) \<Rightarrow> string \<Rightarrow> string \<Rightarrow> string \<Rightarrow> (go_error, conn) result" where
  "dial_api dialer url server token =
     (if trim_space server = [] then Inl (Msg ''server_id cannot be derived from token; run `tug init`'')
      else if trim_space token = [] then Inl (Msg ''agent token is missing; run `tug init`'')
      else (case dialer (url @ ''?server_id='' @ server) of
              Inr c \<Rightarrow> Inr c
            | Inl (e, status) \<Rightarrow>
                if is_auth_rejection status
                then Inl (PendingAuthError (Msg (''websocket authorization rejected (status '' @
                       itoa (case status of None \<Rightarrow> 0 | Some n \<Rightarrow> n) @ ''); token may be pending pairing in dashboard'')))
                else Inl (Wrapf ''websocket dial failed: '' e [])))"

definition stable_session_threshold :: int where "stable_session_threshold = 20000000000"

definition was_session_stable :: "int \<Rightarrow> int \<Rightarrow> bool" where
  "was_session_stable started now \<longleftrightarrow> now - started \<ge> stable_session_threshold"

section \<open>Frames\<close>

text \<open>The close frame an error carries, as \<open>errors.As\<close> finds it.\<close>

fun close_frame :: "go_error \<Rightarrow> (int \<times> string) option" where
  "close_frame (CloseError n s) = Some (n, s)"
| "close_frame (Wrapf pre e post) = close_frame e"
| "close_frame (NonRetriableError e) = close_frame e"
| "close_frame (PendingAuthError e) = close_frame e"
| "close_frame (DuplicateConnectionError e) = close_frame e"
| "close_frame e = None"

definition is_duplicate_server_close :: "proto \<Rightarrow> go_error \<Rightarrow> bool" where
  "is_duplicate_server_close pr e =
     (case close_frame e of None \<Rightarrow> False | Some (n, s) \<Rightarrow> contains s (close_duplicate pr))"

text \<open>\<open>dp_control\<close> decodes a control frame into its type and its error text.\<close>

definition handle_control_frame :: "deps \<Rightarrow> string \<Rightarrow> bool \<times> go_error option" where
  "handle_control_frame dp message =
     (case dp_control dp message of
        None \<Rightarrow> (False, None)
      | Some (t, err) \<Rightarrow>
          (let ty = to_lower (trim_space t);
               details = (if trim_space err = [] then ''unauthorized agent connection'' else trim_space err)
           in if ty = type_auth_error (dp_proto dp)
              then (True, mark_pending_auth (Some (Msg (''websocket authorization rejected: '' @ details @
                      ''; token may be pending pairing in dashboard''))))
              else if ty = type_keepalive (dp_proto dp) then (True, None)
              else (False, None)))"

text \<open>One turn of the read loop: the error that ends the session, and the agent after it.\<close>

definition read_server_frame ::
  "deps \<Rightarrow> handlers \<Rightarrow> string list \<Rightarrow> (go_error, string) result \<Rightarrow> agent \<Rightarrow> go_error option \<times> agent" where
  "read_server_frame dp hs ds frame ag =
     (case frame of
        Inl e \<Rightarrow> ((if is_duplicate_server_close (dp_proto dp) e then mark_duplicate_connection (Some e) else Some e), ag)
      | Inr message \<Rightarrow>
          (case handle_control_frame dp message of
             (_, Some e) \<Rightarrow> (Some e, ag)
           | (handled, None) \<Rightarrow>
               (if handled then (None, ag)
                else (case consume_ack dp message ag of
                        (True, ag1) \<Rightarrow> (None, ag1)
                      | (False, ag1) \<Rightarrow>
                          (case dp_command dp message of
                             None \<Rightarrow> (None, ag1)
                           | Some cmd \<Rightarrow> if cm_type cmd = [] then (None, ag1) else (None, run_command dp hs ds cmd ag1))))))"

section \<open>The tickers\<close>

definition heartbeat_tick :: "deps \<Rightarrow> agent \<Rightarrow> bool \<times> agent" where
  "heartbeat_tick dp ag =
     (case send_heartbeat dp ag of (Some _, ag1) \<Rightarrow> (False, end_session ag1) | (None, ag1) \<Rightarrow> (True, ag1))"

definition self_heal_snapshot_tick :: "deps \<Rightarrow> agent \<Rightarrow> bool \<times> agent" where
  "self_heal_snapshot_tick dp ag =
     (case send_snapshot dp ag of (Some _, ag1) \<Rightarrow> (False, end_session ag1) | (None, ag1) \<Rightarrow> (True, ag1))"

text \<open>The outcome of the ping's write is an argument.\<close>

definition ws_ping_tick :: "go_error option \<Rightarrow> agent \<Rightarrow> bool \<times> agent" where
  "ws_ping_tick err ag = (if err \<noteq> None then (False, end_session ag) else (True, ag))"

definition default_container_refresh :: int where "default_container_refresh = 30000000000"

definition container_refresh_interval :: "int \<Rightarrow> int" where
  "container_refresh_interval heartbeat =
     (if heartbeat > 0 \<and> heartbeat < default_container_refresh then heartbeat else default_container_refresh)"

text \<open>What starting the workers does to the agent: the acknowledged position is taken from the queue.\<close>

definition start_session :: "agent \<Rightarrow> agent" where
  "start_session ag = ag\<lparr>ag_last_ack := ack_upto_seq (ag_queue ag), ag_ack_at := clock (ag_host ag)\<rparr>"

section \<open>The session\<close>

datatype session_event =
    Frame "(go_error, string) result"
  | FlushTick
  | HeartbeatTick
  | SnapshotTick
  | QueueHealTick
  | RefreshTick
  | PingTick "go_error option"
  | Elapse int

definition session_step :: "deps \<Rightarrow> handlers \<Rightarrow> string list \<Rightarrow> agent \<Rightarrow> session_event \<Rightarrow> agent" where
  "session_step dp hs ds ag ev =
     (case ev of
        Frame f \<Rightarrow> snd (read_server_frame dp hs ds f ag)
      | FlushTick \<Rightarrow> snd (flush_tick dp ag)
      | HeartbeatTick \<Rightarrow> snd (heartbeat_tick dp ag)
      | SnapshotTick \<Rightarrow> snd (self_heal_snapshot_tick dp ag)
      | QueueHealTick \<Rightarrow> snd (queue_self_heal_tick dp ag)
      | RefreshTick \<Rightarrow> publish_all_container_statuses dp ag
      | PingTick r \<Rightarrow> snd (ws_ping_tick r ag)
      | Elapse d \<Rightarrow> ag\<lparr>ag_host := pass_time d (ag_host ag)\<rparr>)"

text \<open>
  \<open>connectAndServe\<close> after the dial: the snapshot, the workers, and the frames until one ends the
  session; \<open>evs\<close> interleaves the frames with the ticks. The stable flag goes with the error unless
  the error is one of the classified ones.
\<close>

fun serve_until :: "deps \<Rightarrow> handlers \<Rightarrow> string list \<Rightarrow> session_event list \<Rightarrow> agent \<Rightarrow> go_error option \<times> agent" where
  "serve_until dp hs ds [] ag = (None, ag)"
| "serve_until dp hs ds (Frame f # evs) ag =
     (case read_server_frame dp hs ds f ag of
        (Some e, ag1) \<Rightarrow> (Some e, ag1)
      | (None, ag1) \<Rightarrow> serve_until dp hs ds evs ag1)"
| "serve_until dp hs ds (ev # evs) ag = serve_until dp hs ds evs (session_step dp hs ds ag ev)"

definition connect_and_serve :: "deps \<Rightarrow> handlers \<Rightarrow> string list \<Rightarrow> session_event list \<Rightarrow> agent \<Rightarrow> (bool \<times> go_error option) \<times> agent" where
  "connect_and_serve dp hs ds evs ag =
     (let t0 = clock (ag_host ag) in
      case send_snapshot dp ag of
        (Some e, ag1) \<Rightarrow> ((was_session_stable t0 (clock (ag_host ag1)), Some e), end_session ag1)
      | (None, ag1) \<Rightarrow>
          (case serve_until dp hs ds evs (start_session ag1) of
             (err, ag2) \<Rightarrow>
               ((if is_pending_auth_error err \<or> is_non_retriable err \<or> is_duplicate_connection err then False
                 else was_session_stable t0 (clock (ag_host ag2)), err), end_session ag2)))"

section \<open>What a step can do to the promise\<close>

text \<open>
  All the agent does to its queue apart from acknowledgements and recovery is to put facts. \<open>adds\<close>
  says that at most \<open>k\<close> were put between two states.
\<close>

definition puts :: "proto \<Rightarrow> envelope list \<Rightarrow> promise \<Rightarrow> promise" where
  "puts pr envs p = foldl (\<lambda>p e. promise_put pr e p) p envs"

definition adds :: "deps \<Rightarrow> nat \<Rightarrow> agent \<Rightarrow> agent \<Rightarrow> bool" where
  "adds dp k ag ag' \<longleftrightarrow>
     (\<exists>envs. length envs \<le> k \<and> promise_of (ag_queue ag') = puts (dp_proto dp) envs (promise_of (ag_queue ag)) \<and>
        (queue_inv (ag_queue ag) \<and> unat (qu_next (ag_queue ag)) + length envs < 2 ^ 64 \<longrightarrow> queue_inv (ag_queue ag')))"

lemma puts_append: "puts pr (xs @ ys) p = puts pr ys (puts pr xs p)"
  by (simp add: puts_def)

lemma puts_next: "pm_next (puts pr envs p) = pm_next p + of_nat (length envs)"
proof (induction envs rule: rev_induct)
  case (snoc e envs)
  then show ?case by (simp add: puts_def promise_put_def ac_simps)
qed (simp add: puts_def)

lemma unat_add_room:
  assumes "unat (n :: uint64) + k < 2 ^ 64"
  shows "unat (n + of_nat k) = unat n + k"
  using assms by (simp add: unat_word_ariths unat_of_nat take_bit_nat_eq_self)

lemma adds_0: "ag_queue ag' = ag_queue ag \<Longrightarrow> adds dp 0 ag ag'"
  unfolding adds_def by (rule exI[of _ "[]"]) (simp add: puts_def)

lemma adds_mono: "adds dp j ag ag' \<Longrightarrow> j \<le> k \<Longrightarrow> adds dp k ag ag'"
  unfolding adds_def by (meson le_trans)

lemma adds_trans:
  assumes "adds dp j a b" and "adds dp k b c"
  shows "adds dp (j + k) a c"
proof -
  obtain xs where x: "length xs \<le> j" "promise_of (ag_queue b) = puts (dp_proto dp) xs (promise_of (ag_queue a))"
    "queue_inv (ag_queue a) \<and> unat (qu_next (ag_queue a)) + length xs < 2 ^ 64 \<longrightarrow> queue_inv (ag_queue b)"
    using assms(1) unfolding adds_def by blast
  obtain ys where y: "length ys \<le> k" "promise_of (ag_queue c) = puts (dp_proto dp) ys (promise_of (ag_queue b))"
    "queue_inv (ag_queue b) \<and> unat (qu_next (ag_queue b)) + length ys < 2 ^ 64 \<longrightarrow> queue_inv (ag_queue c)"
    using assms(2) unfolding adds_def by blast
  have "pm_next (promise_of (ag_queue b)) = pm_next (promise_of (ag_queue a)) + of_nat (length xs)"
    unfolding x(2) by (rule puts_next)
  then have n: "qu_next (ag_queue b) = qu_next (ag_queue a) + of_nat (length xs)" by (simp add: promise_of_def)
  have "queue_inv (ag_queue c)" if "queue_inv (ag_queue a)" "unat (qu_next (ag_queue a)) + length (xs @ ys) < 2 ^ 64"
  proof -
    have "unat (qu_next (ag_queue a)) + length xs < 2 ^ 64" using that(2) by simp
    then have "unat (qu_next (ag_queue b)) = unat (qu_next (ag_queue a)) + length xs" "queue_inv (ag_queue b)"
      using unat_add_room n x(3) that(1) by simp_all
    then show ?thesis using y(3) that(2) by simp
  qed
  then show ?thesis using x y unfolding adds_def
    by (intro exI[of _ "xs @ ys"]) (simp add: puts_append)
qed

lemma adds_1_enqueue:
  assumes "ag_queue ag' = fst (snd (enqueue (dp_proto dp) cd (ag_queue ag) env h))"
  shows "adds dp 1 ag ag'"
proof -
  have p: "promise_of (ag_queue ag') = promise_put (dp_proto dp) env (promise_of (ag_queue ag))"
    by (simp add: assms promise_of_def promise_put_def enqueue_facts enqueue_fields stamp_def)
  have "queue_inv (ag_queue ag')" if "queue_inv (ag_queue ag)" "unat (qu_next (ag_queue ag)) + 1 < 2 ^ 64"
  proof -
    have "qu_next (ag_queue ag) \<noteq> - 1"
    proof
      assume "qu_next (ag_queue ag) = - 1"
      then have "unat (qu_next (ag_queue ag)) = 2 ^ 64 - 1" by (simp add: unsigned_minus_1_eq_mask mask_eq_exp_minus_1)
      then show False using that(2) by simp
    qed
    then show ?thesis using enqueue_inv[OF that(1)] assms by simp
  qed
  then show ?thesis unfolding adds_def by (intro exI[of _ "[env]"]) (simp add: puts_def p)
qed

lemma adds_emit_fact: "adds dp 1 ag (snd (emit_fact dp en ac mid m ag))"
proof (cases "make_envelope (dp_proto dp) en ac mid m ag")
  case (Inl e)
  then show ?thesis by (intro adds_mono[OF adds_0]) (simp_all add: emit_fact_def)
next
  case (Inr env)
  have "ag_queue (snd (emit_fact dp en ac mid m ag)) = fst (snd (enqueue (dp_proto dp) (dp_codec dp) (ag_queue ag) env (ag_host ag)))"
    by (simp add: emit_fact_def Inr Let_def split: prod.split sum.split)
  then show ?thesis by (rule adds_1_enqueue)
qed

lemma adds_send_snapshot: "adds dp 1 ag (snd (send_snapshot dp ag))"
proof -
  obtain hello ag1 where b: "build_snapshot dp ag = (hello, ag1)" by fastforce
  then have q: "ag_queue ag1 = ag_queue ag" by (auto simp: build_snapshot_def Let_def split: prod.splits)
  show ?thesis
  proof (cases "snapshot_would_pile_up dp ag1")
    case True
    then show ?thesis using b q by (intro adds_mono[OF adds_0]) (simp_all add: send_snapshot_def)
  next
    case False
    then have "snd (send_snapshot dp ag) = snd (emit_fact dp (ent_runtime (dp_proto dp)) (act_snapshot (dp_proto dp)) [] hello ag1)"
      using b by (simp add: send_snapshot_def)
    then show ?thesis using adds_trans[OF adds_0[OF q] adds_emit_fact] by simp
  qed
qed

lemma publish_container_delta_queue [simp]: "ag_queue (publish_container_delta dp c ag) = ag_queue ag"
  unfolding publish_container_delta_def container_state_changed_def forget_container_state_def Let_def
  by (auto split: prod.splits option.splits if_splits dest!: emit_signal_frame)

lemma adds_publish_all: "adds dp 1 ag (publish_all_container_statuses dp ag)"
proof -
  obtain r h where l: "list_containers_lite (dp_sys dp) (ag_host ag) = (r, h)" by fastforce
  let ?a = "ag\<lparr>ag_host := h\<rparr>"
  have q: "adds dp 0 ag ?a" by (rule adds_0) simp
  show ?thesis
  proof (cases r)
    case (Inl e)
    then have "ag_queue (publish_all_container_statuses dp ag) = ag_queue ag"
      using l by (simp add: publish_all_container_statuses_def)
    then show ?thesis by (intro adds_mono[OF adds_0]) simp_all
  next
    case (Inr cs)
    have f: "ag_queue (foldl (\<lambda>a c. publish_container_delta dp c a) a ds) = ag_queue a" for a ds
      by (induction ds arbitrary: a) simp_all
    show ?thesis
    proof (cases "has_new_container cs ?a")
      case True
      then have "publish_all_container_statuses dp ag = snd (send_snapshot dp ?a)"
        using l Inr by (simp add: publish_all_container_statuses_def Let_def)
      then show ?thesis using adds_trans[OF q adds_send_snapshot] by simp
    next
      case False
      then have "ag_queue (publish_all_container_statuses dp ag) = ag_queue ag"
        using l Inr f by (simp add: publish_all_container_statuses_def forget_missing_containers_def Let_def)
      then show ?thesis by (intro adds_mono[OF adds_0]) simp_all
    qed
  qed
qed

lemma adds_same_promise:
  "promise_of (ag_queue ag') = promise_of (ag_queue ag) \<Longrightarrow> (queue_inv (ag_queue ag) \<Longrightarrow> queue_inv (ag_queue ag')) \<Longrightarrow> adds dp 0 ag ag'"
  unfolding adds_def by (intro exI[of _ "[]"]) (simp add: puts_def)

lemma adds_mark_sent: "adds dp 0 ag (mark_sent dp s w ag)"
proof (rule adds_same_promise)
  have q: "ag_queue (mark_sent dp s w ag) = fst (snd (mark_attempt (dp_codec dp) (ag_queue ag) s w (ag_host ag)))"
    by (simp add: mark_sent_def Let_def split: prod.splits)
  show "queue_inv (ag_queue ag) \<Longrightarrow> queue_inv (ag_queue (mark_sent dp s w ag))"
    unfolding q by (rule mark_attempt_inv)
qed (rule mark_sent_promise)

lemma adds_write_json: "write_json dp e ag = (r, ag') \<Longrightarrow> adds dp 0 ag ag'"
  by (intro adds_0) (auto dest: write_json_frame)

lemma adds_zero_trans: "adds dp 0 a b \<Longrightarrow> adds dp k b c \<Longrightarrow> adds dp k a c"
  using adds_trans[of dp 0 a b k c] by simp

lemma adds_flush_items: "adds dp 0 ag (snd (flush_items dp its ag))"
proof (induction its arbitrary: ag)
  case (Cons it its)
  obtain r ag1 where w: "write_json dp (qd_env it) ag = (r, ag1)" by fastforce
  show ?case
  proof (cases r)
    case None
    then show ?thesis
      using adds_zero_trans[OF adds_write_json[OF w] adds_zero_trans[OF adds_mark_sent Cons.IH]] w by simp
  next
    case (Some e)
    have "adds dp 0 (mark_sent dp (seq_of it) (Some e) ag1) (end_session (mark_sent dp (seq_of it) (Some e) ag1))"
      by (rule adds_0) simp
    then show ?thesis
      using adds_zero_trans[OF adds_write_json[OF w] adds_zero_trans[OF adds_mark_sent]] w Some by simp
  qed
qed (simp add: adds_0)

text \<open>A handler reaches the queue through facts only, and emits a bounded number of them.\<close>

definition handlers_add :: "deps \<Rightarrow> nat \<Rightarrow> handlers \<Rightarrow> bool" where
  "handlers_add dp k hs \<longleftrightarrow> (\<forall>t f cmd ag. hs t = Some f \<longrightarrow> adds dp k ag (snd (f cmd ag)))"

lemma adds_execute: "handlers_add dp k hs \<Longrightarrow> adds dp k ag (snd (execute_command hs cmd ag))"
  unfolding execute_command_def
  by (cases "hs (trim_space (cm_type cmd))") (auto simp: handlers_add_def intro: adds_mono[OF adds_0])

lemma adds_begin: "adds dp 0 ag (begin_command dp cmd ag)"
  by (rule adds_0) (simp add: begin_command_def)

lemma adds_publish_result: "adds dp 1 ag (publish_command_result dp cmd out ag)"
proof -
  let ?pr = "dp_proto dp" and ?res = "result_of cmd out"
  have a: "adds dp 1 ag (snd (emit_fact dp (ent_command ?pr) (act_result ?pr) (''result-'' @ cm_id cmd) (ResultMsg ?res) (inbox_mark_result dp ?res ag)))"
    by (rule adds_zero_trans[OF adds_0 adds_emit_fact]) simp
  have b: "adds dp 1 ag (snd (emit_signal dp (ent_command ?pr) (act_result ?pr) (ResultMsg ?res) ag))"
    by (intro adds_mono[OF adds_0]) simp_all
  have c: "adds dp 1 x y \<Longrightarrow> adds dp 1 x (send_progress dp p y)" for x y p
    using adds_trans[of dp 1 x y 0 "send_progress dp p y"] by (simp add: adds_0)
  show ?thesis
    unfolding publish_command_result_def Let_def
    by (rule c, cases "streaming ?pr (cm_type cmd)") (simp_all only: if_True if_False a b simp_thms)
qed

lemma adds_finish: "adds dp 2 ag (finish_command dp ds cmd out ag)"
proof -
  let ?a = "if cm_id cmd \<noteq> [] then publish_command_result dp cmd out ag else ag"
  have a: "adds dp 1 ag ?a" using adds_publish_result[of dp ag cmd out] adds_mono[OF adds_0[of ag ag dp], of 1] by simp
  have "adds dp 1 ?a (if fst (snd out) = None \<and> cm_type cmd \<in> set ds then publish_all_container_statuses dp ?a else ?a)"
    using adds_publish_all[of dp ?a] adds_mono[OF adds_0[of ?a ?a dp], of 1] by simp
  from adds_trans[OF a this] show ?thesis by (simp add: finish_command_def Let_def numeral_2_eq_2)
qed

lemma replay_queue: "ag_queue (snd (replay_idempotent_command dp cmd ag)) = ag_queue ag"
  by (simp add: replay_idempotent_command_def Let_def split: option.split)

lemma adds_run_command:
  assumes "handlers_add dp k hs"
  shows "adds dp (k + 2) ag (run_command dp hs ds cmd ag)"
proof -
  obtain b ag1 where r: "replay_idempotent_command dp cmd ag = (b, ag1)" by fastforce
  have z: "adds dp 0 ag ag1" using replay_queue[of dp cmd ag] r by (intro adds_0) simp
  show ?thesis
  proof (cases b)
    case True
    then show ?thesis using r adds_mono[OF z, of "k + 2"] by (simp add: run_command_def)
  next
    case False
    obtain out ag2 where e: "execute_command hs cmd (begin_command dp cmd ag1) = (out, ag2)" by fastforce
    have "adds dp k (begin_command dp cmd ag1) ag2"
      using adds_execute[OF assms, of "begin_command dp cmd ag1" cmd] e by simp
    then have "adds dp (k + 2) ag (finish_command dp ds cmd out ag2)"
      using adds_zero_trans[OF z adds_zero_trans[OF adds_begin adds_trans[OF _ adds_finish]]] by blast
    then show ?thesis using r e False by (simp add: run_command_def)
  qed
qed

section \<open>The session as a machine\<close>

text \<open>
  The API acknowledges only what it was given, and the counter is in the lower half of its range;
  at \<open>handler_facts\<close> facts per command that half is never left within a step.
\<close>

definition handler_facts :: nat where "handler_facts = 2 ^ 32"

fun session_ok :: "deps \<Rightarrow> agent \<Rightarrow> session_event \<Rightarrow> bool" where
  "session_ok dp ag (Frame (Inr message)) =
     (unat (qu_next (ag_queue ag)) < 2 ^ 63 \<and>
      (case dp_ack dp message of None \<Rightarrow> True | Some a \<Rightarrow> ak_upto a < qu_next (ag_queue ag)))"
| "session_ok dp ag ev = (unat (qu_next (ag_queue ag)) < 2 ^ 63)"

definition below :: "deps \<Rightarrow> uint64 \<Rightarrow> session_event \<Rightarrow> bool" where
  "below dp s ev \<longleftrightarrow>
     (case ev of Frame (Inr message) \<Rightarrow> (case dp_ack dp message of None \<Rightarrow> True | Some a \<Rightarrow> ak_upto a < s) | _ \<Rightarrow> True)"

lemma puts_keeps:
  assumes "pm_facts p s = Some e" and "unat s < unat (pm_next p)" and "unat (pm_next p) + length envs < 2 ^ 64"
  shows "pm_facts (puts pr envs p) s = Some e"
  using assms
proof (induction envs arbitrary: p)
  case (Cons x envs)
  have "s \<noteq> pm_next p" using Cons.prems(2) by auto
  then have "pm_facts (promise_put pr x p) s = Some e" using Cons.prems(1) by (simp add: promise_put_def)
  moreover have "unat (pm_next (promise_put pr x p)) = unat (pm_next p) + 1"
    using unat_add_room[of "pm_next p" 1] Cons.prems(3) by (simp add: promise_put_def)
  ultimately show ?case using Cons.IH[of "promise_put pr x p"] Cons.prems by (simp add: puts_def)
qed (simp add: puts_def)

lemma adds_keeps:
  assumes "adds dp k ag ag'" and "queue_inv (ag_queue ag)" and "unat (qu_next (ag_queue ag)) < 2 ^ 63" and "k \<le> 2 ^ 33"
  shows "queue_inv (ag_queue ag') \<and> (facts (ag_queue ag) s = Some e \<longrightarrow> facts (ag_queue ag') s = Some e)"
proof -
  obtain envs where v: "length envs \<le> k" "promise_of (ag_queue ag') = puts (dp_proto dp) envs (promise_of (ag_queue ag))"
    "queue_inv (ag_queue ag) \<and> unat (qu_next (ag_queue ag)) + length envs < 2 ^ 64 \<longrightarrow> queue_inv (ag_queue ag')"
    using assms(1) unfolding adds_def by blast
  have room: "unat (qu_next (ag_queue ag)) + length envs < 2 ^ 64" using v(1) assms(3,4) by simp
  have "facts (ag_queue ag') s = Some e" if f: "facts (ag_queue ag) s = Some e"
  proof -
    from f obtain it where "map_of (qu_items (ag_queue ag)) s = Some it" by (auto simp: facts_def)
    then have "(s, it) \<in> set (qu_items (ag_queue ag))" by (rule map_of_SomeD)
    then have "s < qu_next (ag_queue ag)" using assms(2) by (auto simp: queue_inv_def list_all_iff)
    then have "unat s < unat (pm_next (promise_of (ag_queue ag)))" by (simp add: promise_of_def word_less_nat_alt)
    then have "pm_facts (puts (dp_proto dp) envs (promise_of (ag_queue ag))) s = Some e"
      using f room by (intro puts_keeps) (simp_all add: promise_of_def)
    then show ?thesis unfolding v(2)[symmetric] by (simp add: promise_of_def)
  qed
  then show ?thesis using v(3) room assms(2) by blast
qed

lemma adds_session_step:
  assumes "handlers_add dp handler_facts hs"
    and "ev \<noteq> QueueHealTick" and "\<And>m. ev = Frame (Inr m) \<Longrightarrow> dp_ack dp m = None"
  shows "adds dp (handler_facts + 2) ag (session_step dp hs ds ag ev)"
proof -
  have k1: "adds dp (handler_facts + 2) a b" if "adds dp j a b" "j \<le> handler_facts + 2" for j a b
    using that by (rule adds_mono)
  show ?thesis
  proof (cases ev)
    case (Frame f)
    show ?thesis
    proof (cases f)
      case (Inl e)
      have "adds dp 0 ag ag" by (rule adds_0) simp
      then show ?thesis using k1 Frame Inl by (simp add: session_step_def read_server_frame_def)
    next
      case (Inr m)
      have same: "adds dp (handler_facts + 2) ag ag" using k1[OF adds_0] by simp
      have ca: "consume_ack dp m ag = (False, ag)"
        using assms(3)[of m] Frame Inr by (simp add: consume_ack_def)
      have "snd (read_server_frame dp hs ds (Inr m) ag) = ag \<or>
          (\<exists>cmd. snd (read_server_frame dp hs ds (Inr m) ag) = run_command dp hs ds cmd ag)"
        by (auto simp: read_server_frame_def ca split: prod.split option.split)
      then show ?thesis
        using same adds_run_command[OF assms(1)] Frame Inr by (auto simp: session_step_def)
    qed
  next
    case FlushTick
    then show ?thesis using k1[OF adds_flush_items] by (simp add: session_step_def flush_tick_def)
  next
    case HeartbeatTick
    have "ag_queue (snd (heartbeat_tick dp ag)) = ag_queue ag"
      by (auto simp: heartbeat_tick_def send_heartbeat_def Let_def split: prod.splits option.splits dest!: emit_signal_frame)
    then show ?thesis using k1[OF adds_0] HeartbeatTick by (simp add: session_step_def)
  next
    case SnapshotTick
    obtain r ag1 where e: "send_snapshot dp ag = (r, ag1)" by fastforce
    have a: "adds dp 1 ag ag1" using adds_send_snapshot[of dp ag] e by simp
    have "adds dp 0 ag1 (end_session ag1)" by (rule adds_0) simp
    from adds_trans[OF a this] a have "adds dp 1 ag (snd (self_heal_snapshot_tick dp ag))"
      using e by (simp add: self_heal_snapshot_tick_def split: option.split)
    then show ?thesis using k1 SnapshotTick by (simp add: session_step_def)
  next
    case RefreshTick
    then show ?thesis using k1[OF adds_publish_all] by (simp add: session_step_def)
  next
    case (PingTick r)
    have "ag_queue (snd (ws_ping_tick r ag)) = ag_queue ag" by (simp add: ws_ping_tick_def)
    then show ?thesis using k1[OF adds_0] PingTick by (simp add: session_step_def)
  next
    case (Elapse d)
    then show ?thesis using k1[OF adds_0] by (simp add: session_step_def)
  qed (use assms(2) in simp)
qed

lemma consume_ack_queue:
  "consume_ack dp m ag = (True, ag') \<Longrightarrow>
   \<exists>a. dp_ack dp m = Some a \<and> ag_queue ag' = fst (snd (acknowledge (dp_codec dp) (ag_queue ag) (ak_upto a) (ag_host ag)))"
  by (auto simp: consume_ack_def Let_def split: option.splits prod.splits if_splits)

lemma session_step_ack:
  assumes "dp_ack dp m = Some a"
  shows "ag_queue (session_step dp hs ds ag (Frame (Inr m))) = ag_queue ag \<or>
    ag_queue (session_step dp hs ds ag (Frame (Inr m))) = fst (snd (acknowledge (dp_codec dp) (ag_queue ag) (ak_upto a) (ag_host ag)))"
proof -
  obtain er q h where k: "acknowledge (dp_codec dp) (ag_queue ag) (ak_upto a) (ag_host ag) = (er, q, h)"
    using prod_cases3 by blast
  obtain ag1 where c: "consume_ack dp m ag = (True, ag1)"
    using assms k by (simp add: consume_ack_def Let_def)
  then have "ag_queue ag1 = fst (snd (acknowledge (dp_codec dp) (ag_queue ag) (ak_upto a) (ag_host ag)))"
    using consume_ack_queue assms by fastforce
  then show ?thesis
    by (auto simp: session_step_def read_server_frame_def c split: prod.split option.split)
qed

text \<open>One step keeps the queue well formed and every fact that is not acknowledged.\<close>

lemma session_step_keeps:
  assumes "handlers_add dp handler_facts hs" and "queue_inv (ag_queue ag)" and "session_ok dp ag ev"
  shows "queue_inv (ag_queue (session_step dp hs ds ag ev)) \<and>
    (facts (ag_queue ag) s = Some e \<longrightarrow> \<not> signal_env (dp_proto dp) e \<longrightarrow> below dp s ev \<longrightarrow>
     facts (ag_queue (session_step dp hs ds ag ev)) s = Some e)"
proof -
  have room: "unat (qu_next (ag_queue ag)) < 2 ^ 63"
    using assms(3) by (cases "(dp, ag, ev)" rule: session_ok.cases) simp_all
  have hf: "handler_facts + 2 \<le> 2 ^ 33" by (simp add: handler_facts_def)
  consider (heal) "ev = QueueHealTick" | (ack) m a where "ev = Frame (Inr m)" "dp_ack dp m = Some a"
    | (other) "ev \<noteq> QueueHealTick" "\<And>m. ev = Frame (Inr m) \<Longrightarrow> dp_ack dp m = None"
    by (metis option.exhaust)
  then show ?thesis
  proof cases
    case heal
    show ?thesis
    proof (cases "ack_progress_stalled ag")
      case False
      then show ?thesis using heal assms(2) by (simp add: session_step_def queue_self_heal_tick_def)
    next
      case True
      obtain d er q h where r: "reset_pending_for_recovery (dp_proto dp) (dp_codec dp) (ag_queue ag) (ag_host ag) = ((d, er), q, h)"
        by (metis prod.exhaust)
      have q: "q = fst (snd (reset_pending_for_recovery (dp_proto dp) (dp_codec dp) (ag_queue ag) (ag_host ag)))" using r by simp
      have inv: "queue_inv q" unfolding q by (rule reset_inv[OF assms(2)])
      have nx: "qu_next q = qu_next (ag_queue ag)" unfolding q by (rule reset_fields(1))
      have wf: "queue_wf (ag_queue ag)" using assms(2) by (simp add: queue_inv_def)
      have f: "facts (ag_queue ag) s = Some e \<Longrightarrow> \<not> signal_env (dp_proto dp) e \<Longrightarrow> facts q s = Some e"
        unfolding q by (simp add: reset_facts[OF wf])
      let ?a1 = "ag\<lparr>ag_queue := q, ag_host := h\<rparr>"
      let ?a2 = "?a1\<lparr>ag_reset_at := Some (clock h), ag_ack_at := clock h\<rparr>"
      show ?thesis
      proof (cases er)
        case (Some x)
        then have "session_step dp hs ds ag ev = ?a1"
          using heal True r by (simp add: session_step_def queue_self_heal_tick_def Let_def)
        then show ?thesis using inv f by simp
      next
        case None
        obtain r3 a3 where s3: "send_snapshot dp ?a2 = (r3, a3)" by fastforce
        have "adds dp 1 ?a2 a3" using adds_send_snapshot[of dp ?a2] s3 by simp
        then have k: "queue_inv (ag_queue a3) \<and> (facts q s = Some e \<longrightarrow> facts (ag_queue a3) s = Some e)"
          using adds_keeps[of dp 1 ?a2 a3 s e] inv nx room by simp
        have "ag_queue (session_step dp hs ds ag ev) = ag_queue a3"
          using heal True r None s3 by (simp add: session_step_def queue_self_heal_tick_def Let_def split: option.split)
        then show ?thesis using k f by simp
      qed
    qed
  next
    case ack
    have lt: "ak_upto a < qu_next (ag_queue ag)" using assms(3) ack by simp
    have above: "\<And>k. k \<in> dom (facts (ag_queue ag)) \<Longrightarrow> qu_ack (ag_queue ag) < k"
    proof -
      fix k
      assume "k \<in> dom (facts (ag_queue ag))"
      then obtain it where "map_of (qu_items (ag_queue ag)) k = Some it" by (auto simp: facts_def)
      then have "(k, it) \<in> set (qu_items (ag_queue ag))" by (rule map_of_SomeD)
      then show "qu_ack (ag_queue ag) < k" using assms(2) by (auto simp: queue_inv_def list_all_iff)
    qed
    have inv: "queue_inv (fst (snd (acknowledge (dp_codec dp) (ag_queue ag) (ak_upto a) (ag_host ag))))"
      by (rule acknowledge_inv[OF assms(2) lt])
    have f: "facts (ag_queue ag) s = Some e \<Longrightarrow> ak_upto a < s \<Longrightarrow>
        facts (fst (snd (acknowledge (dp_codec dp) (ag_queue ag) (ak_upto a) (ag_host ag)))) s = Some e"
      by (simp add: acknowledge_facts[OF above])
    have b: "below dp s (Frame (Inr m)) \<longleftrightarrow> ak_upto a < s" using ack by (simp add: below_def)
    show ?thesis
      using session_step_ack[OF ack(2), of hs ds ag] f inv assms(2) unfolding ack(1) b by auto
  next
    case other
    show ?thesis
      using adds_keeps[OF adds_session_step[OF assms(1) other] assms(2) room hf, where s = s and e = e] by blast
  qed
qed

interpretation session: machine "session_step dp hs ds" "session_ok dp"
    "\<lambda>ag. handlers_add dp handler_facts hs \<and> queue_inv (ag_queue ag)" for dp hs ds
  by unfold_locales (use session_step_keeps in blast)

text \<open>
  C4: What the agent has accepted as a fact survives everything a session does. Through any
  interleaving of server frames, flushes, heartbeats, snapshots, stalled-queue recoveries,
  refreshes and commands whose handlers only put facts, a fact stays in the queue with its sequence
  number and its envelope until a frame acknowledges that number or a later one, and the queue
  stays well formed.
\<close>

theorem session_keeps_facts:
  assumes "handlers_add dp handler_facts hs" and "queue_inv (ag_queue ag)"
    and "run_ok (session_step dp hs ds) (session_ok dp) ag evs"
    and "\<And>ev. ev \<in> set evs \<Longrightarrow> below dp s ev"
    and "facts (ag_queue ag) s = Some e" and "\<not> signal_env (dp_proto dp) e"
  shows "facts (ag_queue (foldl (session_step dp hs ds) ag evs)) s = Some e \<and>
    queue_inv (ag_queue (foldl (session_step dp hs ds) ag evs))"
proof -
  note inv = conjI[OF assms(1,2)]
  have "facts (ag_queue (foldl (session_step dp hs ds) ag evs)) s = Some e"
    by (rule session.run_keeps_fact[OF _ inv assms(3), of "below dp s"])
      (use session_step_keeps assms(4-6) in blast)+
  then show ?thesis using session.run_keeps[OF inv assms(3)] by blast
qed

theorem session_keeps_facts_witness:
  "facts (ag_queue (foldl (session_step (demo_deps\<lparr>dp_ack := \<lambda>_. Some \<lparr>ak_stream = ''07'', ak_upto = 1, ak_accepted = True, ak_reason = []\<rparr>\<rparr>) (\<lambda>_. None) [])
     (demo_agent\<lparr>ag_queue := demo_queue\<lparr>qu_next := 3, qu_items := [(1, demo_item), (2, demo_item\<lparr>qd_env := demo_env\<lparr>ev_stream := ''07'', ev_seq := 2\<rparr>\<rparr>)]\<rparr>\<rparr>)
     [PingTick None, Elapse 5, Frame (Inr ''{}'')])) 2 = Some (demo_env\<lparr>ev_stream := ''07'', ev_seq := 2\<rparr>)"
proof -
  let ?a = "demo_agent\<lparr>ag_queue := demo_queue\<lparr>qu_next := 3, qu_items := [(1, demo_item), (2, demo_item\<lparr>qd_env := demo_env\<lparr>ev_stream := ''07'', ev_seq := 2\<rparr>\<rparr>)]\<rparr>\<rparr>"
  let ?dp = "demo_deps\<lparr>dp_ack := \<lambda>_. Some \<lparr>ak_stream = ''07'', ak_upto = 1, ak_accepted = True, ak_reason = []\<rparr>\<rparr>"
  let ?evs = "[PingTick None, Elapse 5, Frame (Inr ''{}'')]"
  have h: "handlers_add ?dp handler_facts (\<lambda>_. None)" by (simp add: handlers_add_def)
  have i: "queue_inv (ag_queue ?a)"
    by (simp add: queue_inv_def queue_wf_def demo_queue_def demo_item_def seq_of_def)
  have f: "facts (ag_queue ?a) 2 = Some (demo_env\<lparr>ev_stream := ''07'', ev_seq := 2\<rparr>)" by (simp add: facts_def demo_queue_def)
  have n: "\<not> signal_env (dp_proto ?dp) (demo_env\<lparr>ev_stream := ''07'', ev_seq := 2\<rparr>)"
    by (simp add: signal_env_def demo_deps_def demo_proto_def demo_env_def model_defs)
  have r: "run_ok (session_step ?dp (\<lambda>_. None) []) (session_ok ?dp) ?a ?evs"
    by (simp add: session_step_def ws_ping_tick_def demo_queue_def)
  have b: "\<And>ev. ev \<in> set ?evs \<Longrightarrow> below ?dp 2 ev" by (auto simp: below_def)
  show ?thesis using session_keeps_facts[OF h i r b f n] by blast
qed

end
