(* ===== verification/Answers.thy ===== *)
theory Answers
  imports Handlers Session
begin

text \<open>
  The handlers of the table meet what the session and the dispatch ask of a handler: they reach the
  outbox by putting facts only, at most two per command, and leave the receipts alone. With that the promise
  of the outbox holds of the agent with its own handlers, and its commands are carried out at most once.
\<close>

section \<open>Handlers that leave the queue alone\<close>

lemma on_host_queue: "on_host f ag = (r, ag1) \<Longrightarrow> ag_queue ag1 = ag_queue ag"
  by (auto simp: on_host_def split: prod.splits)

lemma send_batches_queue [simp]: "ag_queue (send_batches he cmd bs ag) = ag_queue ag"
proof -
  have "ag_queue (fold (\<lambda>ls. send_progress dp (p ls)) bs a) = ag_queue a" for dp p a
    by (induction bs arbitrary: a) simp_all
  then show ?thesis by (simp add: send_batches_def)
qed

lemma send_lines_queue [simp]: "ag_queue (send_lines he cmd ls ag) = ag_queue ag"
  by (simp add: send_lines_def)

lemma report_update_queue [simp]: "ag_queue (report_update he cmd rs ag) = ag_queue ag"
proof -
  have "ag_queue (fold (\<lambda>(g, a, p) ag. snd (emit_signal dp en ac (m g a p) ag)) rs b) = ag_queue b" for dp en ac m b
    by (induction rs arbitrary: b) auto
  then show ?thesis by (simp add: report_update_def)
qed

lemma publish_container_status_queue [simp]: "ag_queue (publish_container_status dp cid ag) = ag_queue ag"
  by (simp add: publish_container_status_def split: prod.split sum.split option.split)

definition quiet :: "handler \<Rightarrow> bool" where
  "quiet f \<longleftrightarrow> (\<forall>cmd ag. ag_queue (snd (f cmd ag)) = ag_queue ag)"

lemma quiet_docker:
  "quiet (handle_docker_disk_usage he)" "quiet (handle_docker_prune he)" "quiet (handle_server_action he)"
  "quiet (handle_container_logs_tail he)" "quiet (handle_containers_snapshot_pull he)"
  "quiet (handle_container_mounts he)" "quiet (handle_container_inspect he)"
  by (auto simp: quiet_def handle_docker_disk_usage_def handle_docker_prune_def handle_server_action_def
    handle_container_logs_tail_def handle_containers_snapshot_pull_def handle_container_mounts_def handle_container_inspect_def Let_def
    split: prod.split sum.split dest!: on_host_queue)

lemma quiet_migration: "quiet (handle_prepare_migration_target he)" "quiet (handle_migration_preflight he)"
  by (auto simp: quiet_def handle_prepare_migration_target_def handle_migration_preflight_def Let_def
    split: prod.split sum.split dest!: on_host_queue)

lemma quiet_files:
  "quiet (handle_file_list he)" "quiet (handle_file_read he)" "quiet (handle_file_write he)" "quiet (handle_file_delete he)"
  "quiet (handle_save_compose he)" "quiet (handle_check_host_path he)" "quiet (handle_cron_schedules_apply he)"
  by (auto simp: quiet_def handle_file_list_def handle_file_read_def handle_file_write_def handle_file_delete_def
    handle_save_compose_def handle_check_host_path_def handle_cron_schedules_apply_def Let_def
    split: prod.split sum.split option.split dest!: on_host_queue)

lemma quiet_system: "quiet (handle_exec_command he)"
  by (auto simp: quiet_def handle_exec_command_def Let_def split: prod.split sum.split dest!: on_host_queue)

lemma quiet_router:
  "quiet (handle_configure_tug_router_route he)" "quiet (handle_list_tug_router_routes he)" "quiet (handle_remove_tug_router_route he)"
  by (auto simp: quiet_def handle_configure_tug_router_route_def handle_list_tug_router_routes_def handle_remove_tug_router_route_def Let_def
    split: prod.split sum.split dest!: on_host_queue)

lemma quiet_security:
  "quiet (handle_apply_security_hardening he)" "quiet (handle_apply_firewall_rule he)" "quiet (handle_delete_firewall_rule he)"
  "quiet (handle_install_fail2ban he)"
  by (auto simp: quiet_def handle_apply_security_hardening_def handle_apply_firewall_rule_def handle_delete_firewall_rule_def change_firewall_def
    handle_install_fail2ban_def Let_def split: prod.split option.split dest!: on_host_queue)

lemma quiet_import: "quiet (handle_import_scan he)" "quiet (handle_import_apply he)"
  by (auto simp: quiet_def handle_import_scan_def handle_import_apply_def Let_def
    split: prod.split sum.split option.split dest!: on_host_queue)

lemma quiet_check: "quiet (handle_check_fail2ban he)"
  by (auto simp: quiet_def handle_check_fail2ban_def Let_def split: prod.split dest!: on_host_queue)

lemmas quiet_handlers = quiet_docker quiet_migration quiet_files quiet_system quiet_router quiet_security quiet_import quiet_check

lemma quiet_adds: "quiet f \<Longrightarrow> adds dp 2 ag (snd (f cmd ag))"
  by (rule adds_mono[OF adds_0]) (simp_all add: quiet_def)

section \<open>Handlers that put facts\<close>

lemma adds_after: "ag_queue ag1 = ag_queue ag \<Longrightarrow> adds dp k ag1 b \<Longrightarrow> adds dp k ag b"
  using adds_zero_trans[OF adds_0] by blast

lemma adds_before: "adds dp k ag b \<Longrightarrow> ag_queue c = ag_queue b \<Longrightarrow> adds dp k ag c"
  using adds_trans[of dp k ag b 0 c] adds_0[of c b dp] by simp

lemma adds_none: "ag_queue b = ag_queue ag \<Longrightarrow> adds dp k ag b"
  by (rule adds_mono[OF adds_0]) simp_all

lemma adds_snapshot_then: "send_snapshot dp ag = (r, b) \<Longrightarrow> adds dp 1 ag b"
  using adds_send_snapshot[of dp ag] by simp

lemma adds_snapshot_refresh: "send_snapshot dp ag = (r, b) \<Longrightarrow> adds dp 2 ag (publish_all_container_statuses dp b)"
  using adds_trans[OF adds_snapshot_then adds_publish_all] by (simp add: numeral_2_eq_2)

lemma adds_report: "adds (hv_deps he) 2 ag (snd (report_containers he logs ag))"
proof -
  obtain r b where "send_snapshot (hv_deps he) ag = (r, b)" by fastforce
  then show ?thesis
    using adds_snapshot_refresh adds_mono[OF adds_snapshot_then, of "hv_deps he" ag r b 2]
    by (simp add: report_containers_def split: option.split)
qed

text \<open>A snapshot, and after it only what leaves the queue alone.\<close>

lemma adds_snapshot_same: "send_snapshot dp ag1 = (r, b) \<Longrightarrow> ag_queue ag1 = ag_queue ag \<Longrightarrow> ag_queue c = ag_queue b \<Longrightarrow> adds dp 2 ag c"
  by (rule adds_after, assumption, rule adds_before[OF adds_mono[OF adds_snapshot_then]]) simp_all

lemma container_action_adds: "adds (hv_deps he) 2 ag (snd (handle_container_action he cmd ag))"
  unfolding handle_container_action_def
  by (auto simp: adds_none split: sum.split prod.split option.split dest!: on_host_queue intro: adds_none adds_snapshot_same)

lemma container_rename_adds: "adds (hv_deps he) 2 ag (snd (handle_container_rename he cmd ag))"
  unfolding handle_container_rename_def
  by (auto simp: adds_none split: sum.split prod.split option.split dest!: on_host_queue intro: adds_none adds_snapshot_same)

lemma change_network_adds: "adds (hv_deps he) 2 ag (snd (change_network he f cmd ag))"
  unfolding change_network_def Let_def
  by (auto simp: adds_none split: sum.split prod.split option.split dest!: on_host_queue intro: adds_none adds_snapshot_same)

lemma migrate_adds: "adds (hv_deps he) 2 ag (snd (handle_migrate_container_source he cmd ag))"
proof -
  have s: "adds (hv_deps he) 2 ag (snd (send_snapshot (hv_deps he) b))" if "ag_queue b = ag_queue ag" for b
    using that adds_after adds_mono[OF adds_send_snapshot] by (metis one_le_numeral)
  show ?thesis unfolding handle_migrate_container_source_def Let_def
    by (auto simp: adds_none s split: sum.split prod.split option.split dest!: on_host_queue)
qed

lemma cron_pull_adds: "adds (hv_deps he) 2 ag (snd (handle_cron_schedules_pull he cmd ag))"
proof -
  obtain got ag1 where g: "on_host (fm_read (hv_root he) schedules_storage_path) ag = (got, ag1)" by fastforce
  have "adds (hv_deps he) 2 ag (snd (emit_fact (hv_deps he) en ac mid m ag1))" for en ac mid m
    by (rule adds_after[OF on_host_queue[OF g]], rule adds_mono[OF adds_emit_fact]) simp
  then show ?thesis
    by (simp add: handle_cron_schedules_pull_def g Let_def split: prod.split option.split) (metis snd_conv)
qed

lemma router_install_adds: "adds (hv_deps he) 2 ag (snd (handle_install_tug_router he cmd ag))"
  unfolding handle_install_tug_router_def
  by (auto simp: adds_none split: prod.split option.split dest!: on_host_queue intro: adds_after adds_report)

lemma self_update_adds: "adds dp 2 ag (snd (handle_self_update he cmd ag))"
  by (rule adds_none) (auto simp: handle_self_update_def Let_def split: prod.split option.split dest!: on_host_queue)

lemma disconnect_adds: "adds dp 2 ag (snd (handle_disconnect he cmd ag))"
  by (rule adds_none) (simp add: handle_disconnect_def)

text \<open>The handlers that may not return, where they do.\<close>

lemma adds_report_then: "report_containers he logs ag1 = (out, b) \<Longrightarrow> ag_queue ag1 = ag_queue ag \<Longrightarrow> adds (hv_deps he) 2 ag b"
  using adds_after[OF _ adds_report[of he ag1 logs]] by simp

lemma deploy_adds: "handle_deploy he cmd ag = Some (out, ag') \<Longrightarrow> adds (hv_deps he) 2 ag ag'"
  unfolding handle_deploy_def Let_def
  by (auto split: sum.splits prod.splits option.splits intro: adds_none adds_report_then)

lemma redeploy_adds: "handle_container_redeploy he cmd ag = Some (out, ag') \<Longrightarrow> adds (hv_deps he) 2 ag ag'"
  unfolding handle_container_redeploy_def Let_def
  by (auto split: sum.splits prod.splits option.splits intro: adds_none adds_report_then)

lemma git_deploy_adds:
  assumes "handle_git_deploy_command he cmd ag = Some (out, ag')"
  shows "adds (hv_deps he) 2 ag ag'"
proof -
  obtain h1 b bs snap ag1 where b: "ag_queue b = ag_queue ag"
    and s: "send_snapshot (hv_deps he) b = (snap, ag1)" and r: "ag' = publish_all_container_statuses (hv_deps he) ag1"
  proof -
    obtain r0 h1 where g: "handle_git_deploy_with_report (hv_deploy he) (hv_sys he) (hv_ticks he) (hv_root he) cmd (ag_host ag) = (r0, h1)"
      by fastforce
    obtain logs err bs where r0: "r0 = Some ((logs, err), bs)"
      using assms g by (cases r0) (auto simp: handle_git_deploy_command_def)
    let ?b = "send_batches he cmd bs (ag\<lparr>ag_host := h1\<rparr>)"
    obtain snap ag1 where s: "send_snapshot (hv_deps he) ?b = (snap, ag1)" by fastforce
    have "ag' = publish_all_container_statuses (hv_deps he) ag1"
      using assms by (simp add: handle_git_deploy_command_def g r0 s)
    then show ?thesis using that[of ?b snap ag1] s by simp
  qed
  show ?thesis using adds_after[OF b adds_snapshot_refresh[OF s]] r by simp
qed

section \<open>Handlers leave the inbox alone\<close>

text \<open>Receipts are the business of the dispatch; no handler of the table touches them.\<close>

lemma on_host_inbox: "on_host f ag = (r, ag1) \<Longrightarrow> ag_inbox ag1 = ag_inbox ag"
  by (auto simp: on_host_def split: prod.splits)

lemma snapshot_inbox: "send_snapshot dp ag = (r, b) \<Longrightarrow> ag_inbox b = ag_inbox ag"
  using send_snapshot_inbox[of dp ag] by simp

lemma emit_fact_inbox': "emit_fact dp en ac mid m ag = (r, b) \<Longrightarrow> ag_inbox b = ag_inbox ag"
  using emit_fact_inbox[of dp en ac mid m ag] by simp

lemma emit_signal_inbox': "emit_signal dp en ac m ag = (r, b) \<Longrightarrow> ag_inbox b = ag_inbox ag"
  using emit_signal_frame_snd(2)[of dp en ac m ag] by simp

lemma send_batches_inbox [simp]: "ag_inbox (send_batches he cmd bs ag) = ag_inbox ag"
proof -
  have "ag_inbox (fold (\<lambda>ls. send_progress dp (p ls)) bs a) = ag_inbox a" for dp p a
    by (induction bs arbitrary: a) simp_all
  then show ?thesis by (simp add: send_batches_def)
qed

lemma send_lines_inbox [simp]: "ag_inbox (send_lines he cmd ls ag) = ag_inbox ag"
  by (simp add: send_lines_def)

lemma report_update_inbox [simp]: "ag_inbox (report_update he cmd rs ag) = ag_inbox ag"
proof -
  have "ag_inbox (fold (\<lambda>(g, a, p) ag. snd (emit_signal dp en ac (m g a p) ag)) rs b) = ag_inbox b" for dp en ac m b
    by (induction rs arbitrary: b) auto
  then show ?thesis by (simp add: report_update_def)
qed

lemma publish_container_status_inbox [simp]: "ag_inbox (publish_container_status dp cid ag) = ag_inbox ag"
  by (simp add: publish_container_status_def split: prod.split sum.split option.split)

lemma report_containers_inbox: "report_containers he logs ag = (out, b) \<Longrightarrow> ag_inbox b = ag_inbox ag"
  by (auto simp: report_containers_def split: prod.splits option.splits dest: snapshot_inbox)

text \<open>What every entry of the table leaves alone, when it answers.\<close>

definition keeps_receipts :: "entry \<Rightarrow> bool" where
  "keeps_receipts en \<longleftrightarrow> (\<forall>cmd ag out ag'. answered en cmd ag = Some (out, ag') \<longrightarrow> ag_inbox ag' = ag_inbox ag)"

lemmas inbox_steps = on_host_inbox snapshot_inbox emit_fact_inbox' emit_signal_inbox' report_containers_inbox

lemmas inbox_simps = keeps_receipts_def answered_def Let_def

lemma receipts_docker:
  "keeps_receipts (Plain (handle_docker_disk_usage he))"
  "keeps_receipts (Plain (handle_docker_prune he))"
  "keeps_receipts (Plain (handle_server_action he))"
  "keeps_receipts (Plain (handle_container_logs_tail he))"
  "keeps_receipts (Plain (handle_containers_snapshot_pull he))"
  "keeps_receipts (Plain (handle_container_mounts he))"
  "keeps_receipts (Plain (handle_container_inspect he))"
  by (auto simp: inbox_simps handle_docker_disk_usage_def handle_docker_prune_def handle_server_action_def handle_container_logs_tail_def handle_containers_snapshot_pull_def handle_container_mounts_def handle_container_inspect_def
    split: prod.splits sum.splits option.splits if_splits dest!: inbox_steps)

lemma receipts_containers:
  "keeps_receipts (Plain (handle_container_action he))"
  "keeps_receipts (Plain (handle_container_rename he))"
  "keeps_receipts (Plain (handle_migrate_container_source he))"
  "keeps_receipts (Plain (handle_prepare_migration_target he))"
  "keeps_receipts (Plain (handle_migration_preflight he))"
  by (auto simp: inbox_simps handle_container_action_def handle_container_rename_def handle_migrate_container_source_def handle_prepare_migration_target_def handle_migration_preflight_def
    split: prod.splits sum.splits option.splits if_splits dest!: inbox_steps)

lemma receipts_files:
  "keeps_receipts (Plain (handle_file_list he))"
  "keeps_receipts (Plain (handle_file_read he))"
  "keeps_receipts (Plain (handle_file_write he))"
  "keeps_receipts (Plain (handle_file_delete he))"
  "keeps_receipts (Plain (handle_save_compose he))"
  "keeps_receipts (Plain (handle_check_host_path he))"
  "keeps_receipts (Plain (handle_cron_schedules_apply he))"
  "keeps_receipts (Plain (handle_cron_schedules_pull he))"
  by (auto simp: inbox_simps handle_file_list_def handle_file_read_def handle_file_write_def handle_file_delete_def handle_save_compose_def handle_check_host_path_def handle_cron_schedules_apply_def handle_cron_schedules_pull_def
    split: prod.splits sum.splits option.splits if_splits dest!: inbox_steps)

lemma receipts_router:
  "keeps_receipts (Plain (handle_configure_tug_router_route he))"
  "keeps_receipts (Plain (handle_list_tug_router_routes he))"
  "keeps_receipts (Plain (handle_remove_tug_router_route he))"
  "keeps_receipts (Plain (handle_install_tug_router he))"
  by (auto simp: inbox_simps handle_configure_tug_router_route_def handle_list_tug_router_routes_def handle_remove_tug_router_route_def handle_install_tug_router_def
    split: prod.splits sum.splits option.splits if_splits dest!: inbox_steps)

lemma receipts_security:
  "keeps_receipts (Plain (handle_apply_security_hardening he))"
  "keeps_receipts (Plain (handle_apply_firewall_rule he))"
  "keeps_receipts (Plain (handle_delete_firewall_rule he))"
  "keeps_receipts (Plain (handle_install_fail2ban he))"
  "keeps_receipts (Plain (handle_check_fail2ban he))"
  by (auto simp: inbox_simps handle_apply_security_hardening_def handle_apply_firewall_rule_def handle_delete_firewall_rule_def handle_install_fail2ban_def handle_check_fail2ban_def change_firewall_def
    split: prod.splits sum.splits option.splits if_splits dest!: inbox_steps)

lemma receipts_rest:
  "keeps_receipts (Plain (handle_exec_command he))"
  "keeps_receipts (Plain (handle_import_scan he))"
  "keeps_receipts (Plain (handle_import_apply he))"
  by (auto simp: inbox_simps handle_exec_command_def handle_import_scan_def handle_import_apply_def
    split: prod.splits sum.splits option.splits if_splits dest!: inbox_steps)

lemma receipts_networks:
  "keeps_receipts (Plain (change_network he f))"
  by (auto simp: inbox_simps change_network_def
    split: prod.splits sum.splits option.splits if_splits dest!: inbox_steps)

lemma receipts_leaving:
  "keeps_receipts (Leaving (handle_self_update he))"
  "keeps_receipts (Leaving (handle_disconnect he))"
  by (auto simp: inbox_simps handle_self_update_def handle_disconnect_def
    split: prod.splits sum.splits option.splits if_splits dest!: inbox_steps)

lemma receipts_slow:
  "keeps_receipts (Slow (handle_git_deploy_command he))"
  "keeps_receipts (Slow (handle_deploy he))"
  "keeps_receipts (Slow (handle_container_redeploy he))"
  by (auto simp: inbox_simps handle_git_deploy_command_def handle_deploy_def handle_container_redeploy_def
    split: prod.splits sum.splits option.splits if_splits dest!: inbox_steps)

lemma table_keeps_receipts: "keeps_receipts (command_handlers he k)"
  by (cases k)
    (simp_all add: receipts_docker receipts_containers receipts_files receipts_router receipts_security receipts_rest receipts_networks receipts_leaving receipts_slow handle_network_create_def handle_network_delete_def keeps_receipts_def[of OnTerminals] answered_def[of OnTerminals])

section \<open>The table\<close>

text \<open>What every entry of the table does to the queue, when it answers.\<close>

definition bounded_entry :: "deps \<Rightarrow> entry \<Rightarrow> bool" where
  "bounded_entry dp en \<longleftrightarrow> (\<forall>cmd ag out ag'. answered en cmd ag = Some (out, ag') \<longrightarrow> adds dp 2 ag ag')"

lemma bounded_plain: "(\<And>cmd ag. adds dp 2 ag (snd (f cmd ag))) \<Longrightarrow> bounded_entry dp (Plain f)"
  by (auto simp: bounded_entry_def answered_def) (metis snd_conv)

lemma bounded_leaving: "(\<And>cmd ag. adds dp 2 ag (snd (f cmd ag))) \<Longrightarrow> bounded_entry dp (Leaving f)"
  by (auto simp: bounded_entry_def answered_def split: prod.splits) (metis snd_conv)

lemma bounded_slow: "(\<And>cmd ag out ag'. f cmd ag = Some (out, ag') \<Longrightarrow> adds dp 2 ag ag') \<Longrightarrow> bounded_entry dp (Slow f)"
  by (simp add: bounded_entry_def answered_def)

lemma bounded_others [simp]: "bounded_entry dp OnTerminals"
  by (simp add: bounded_entry_def answered_def)

lemma bounded_quiet: "quiet f \<Longrightarrow> bounded_entry dp (Plain f)"
  by (rule bounded_plain) (rule quiet_adds)

lemmas bounded_handlers =
  quiet_handlers[THEN bounded_quiet]
  container_action_adds[THEN bounded_plain] container_rename_adds[THEN bounded_plain]
  change_network_adds[THEN bounded_plain] migrate_adds[THEN bounded_plain] cron_pull_adds[THEN bounded_plain]
  router_install_adds[THEN bounded_plain] self_update_adds[THEN bounded_leaving] disconnect_adds[THEN bounded_leaving]
  bounded_slow[OF deploy_adds] bounded_slow[OF redeploy_adds] bounded_slow[OF git_deploy_adds]

lemma table_bounded: "bounded_entry (hv_deps he) (command_handlers he k)"
  by (cases k) (simp_all add: bounded_handlers handle_network_create_def handle_network_delete_def)

text \<open>
  The handlers of a session come from the table when each of them gives what the entry of its type gives.
  Only entries that always return can be had this way; \<open>plain_handlers\<close> is such a choice.
\<close>

definition from_table :: "handler_env \<Rightarrow> (string \<Rightarrow> kind option) \<Rightarrow> handlers \<Rightarrow> bool" where
  "from_table he kind_of hs \<longleftrightarrow>
     (\<forall>ty f. hs ty = Some f \<longrightarrow>
        (\<exists>k. kind_of ty = Some k \<and> (\<forall>cmd ag. answered (command_handlers he k) cmd ag = Some (f cmd ag))))"

lemma plain_from_table: "from_table he kind_of (plain_handlers he kind_of)"
  by (auto simp: from_table_def plain_handlers_def answered_def split: option.splits entry.splits)

lemma from_table_adds:
  assumes "from_table he kind_of hs"
  shows "handlers_add (hv_deps he) handler_facts hs"
proof -
  have "adds (hv_deps he) handler_facts ag (snd (f cmd ag))" if f: "hs ty = Some f" for ty f cmd ag
  proof -
    obtain k where "\<forall>cmd ag. answered (command_handlers he k) cmd ag = Some (f cmd ag)"
      using assms[unfolded from_table_def, rule_format, OF f] by blast
    then have "answered (command_handlers he k) cmd ag = Some (f cmd ag)" by simp
    then have "adds (hv_deps he) 2 ag (snd (f cmd ag))"
      using table_bounded[of he k] unfolding bounded_entry_def by (metis surjective_pairing)
    then show ?thesis by (rule adds_mono) (simp add: handler_facts_def)
  qed
  then show ?thesis by (simp add: handlers_add_def)
qed

text \<open>What \<open>Dispatch\<close> asks of handlers.\<close>

lemma from_table_keeps_inbox:
  assumes "from_table he kind_of hs"
  shows "keeps_inbox hs"
  unfolding keeps_inbox_def
proof (intro allI impI)
  fix ty f cmd ag assume "hs ty = Some f"
  then obtain k where "answered (command_handlers he k) cmd ag = Some (f cmd ag)"
    using assms unfolding from_table_def by blast
  then show "ag_inbox (snd (f cmd ag)) = ag_inbox ag"
    using table_keeps_receipts[of he k] unfolding keeps_receipts_def by (metis surjective_pairing)
qed

text \<open>
  C8: The agent with its own handlers keeps its promise. Through any interleaving of frames, flushes,
  heartbeats, snapshots, recoveries, refreshes and commands answered by the handlers of the code's table,
  a fact stays in the outbox with its sequence number and its envelope until a frame acknowledges that
  number or a later one, and the queue stays well formed: no handler drops, renumbers or rewrites a
  fact.
\<close>

theorem agent_keeps_facts:
  assumes "from_table he kind_of hs" and "queue_inv (ag_queue ag)"
    and "run_ok (session_step (hv_deps he) hs ds) (session_ok (hv_deps he)) ag evs"
    and "\<And>ev. ev \<in> set evs \<Longrightarrow> below (hv_deps he) s ev"
    and "facts (ag_queue ag) s = Some e" and "\<not> signal_env (dp_proto (hv_deps he)) e"
  shows "facts (ag_queue (foldl (session_step (hv_deps he) hs ds) ag evs)) s = Some e \<and>
    queue_inv (ag_queue (foldl (session_step (hv_deps he) hs ds) ag evs))"
proof -
  note inv = conjI[OF from_table_adds[OF assms(1)] assms(2)]
  have "facts (ag_queue (foldl (session_step (hv_deps he) hs ds) ag evs)) s = Some e"
    by (rule session.run_keeps_fact[OF _ inv assms(3), of "below (hv_deps he) s"])
      (use session_step_keeps inv assms(4-6) in blast)+
  then show ?thesis using session.run_keeps[OF inv assms(3)] by blast
qed

definition demo_handlers :: handler_env where
  "demo_handlers =
     \<lparr>hv_deps = demo_deps\<lparr>dp_command := \<lambda>_. Some (demo_command\<lparr>cm_type := ''exec'', cm_command := ''true''\<rparr>)\<rparr>,
      hv_payload = (\<lambda>_. Some ''{}''), hv_ticks = [], hv_root = ''/r'', hv_disk = (\<lambda>_. None), hv_first = (\<lambda>_. None),
      hv_dir_size = 4096, hv_exit_code = (\<lambda>_. 0), hv_accounts = \<lparr>lookup_user = (\<lambda>_. None), current_user = None\<rparr>,
      hv_dial = (\<lambda>_. None), hv_key_file = ''/tmp/key'', hv_inspecting = plain_inspecting,
      hv_routes = \<lparr>enc_routes = (\<lambda>_. None), dec_routes = (\<lambda>_. None)\<rparr>,
      hv_spec = \<lparr>rs_image = [], rs_network = [], rs_restart = [], rs_http_port = 80, rs_https_port = 443, rs_config_path = ''/c'', rs_reload = []\<rparr>,
      hv_random = None, hv_deploy = demo_deploy, hv_update = demo_update, hv_import = Some demo_importer, hv_enc_schedules = (\<lambda>_. None), hv_schedules_in = (\<lambda>_. [])\<rparr>"

theorem agent_keeps_facts_witness:
  "facts (ag_queue (foldl (session_step (hv_deps demo_handlers)
       (plain_handlers demo_handlers (\<lambda>ty. if ty = ''exec'' then Some ExecCommand else None)) [])
     (demo_agent\<lparr>ag_queue := demo_queue\<lparr>qu_next := 2, qu_items := [(1, demo_item)]\<rparr>\<rparr>)
     [PingTick None, Elapse 5, Frame (Inr ''{}'')])) 1 = Some (demo_env\<lparr>ev_stream := ''07'', ev_seq := 1\<rparr>)"
proof -
  let ?a = "demo_agent\<lparr>ag_queue := demo_queue\<lparr>qu_next := 2, qu_items := [(1, demo_item)]\<rparr>\<rparr>"
  let ?evs = "[PingTick None, Elapse 5, Frame (Inr ''{}'')]"
  let ?kinds = "\<lambda>ty. if ty = ''exec'' then Some ExecCommand else None"
  have i: "queue_inv (ag_queue ?a)"
    by (simp add: queue_inv_def queue_wf_def demo_queue_def demo_item_def demo_env_def seq_of_def)
  have f: "facts (ag_queue ?a) 1 = Some (demo_env\<lparr>ev_stream := ''07'', ev_seq := 1\<rparr>)" by (simp add: facts_def demo_queue_def demo_item_def)
  have n: "\<not> signal_env (dp_proto (hv_deps demo_handlers)) (demo_env\<lparr>ev_stream := ''07'', ev_seq := 1\<rparr>)"
    by (simp add: signal_env_def demo_handlers_def demo_deps_def demo_proto_def demo_env_def model_defs)
  have r: "run_ok (session_step (hv_deps demo_handlers) (plain_handlers demo_handlers ?kinds) []) (session_ok (hv_deps demo_handlers)) ?a ?evs"
    by (simp add: session_step_def ws_ping_tick_def demo_queue_def demo_handlers_def demo_deps_def)
  have b: "\<And>ev. ev \<in> set ?evs \<Longrightarrow> below (hv_deps demo_handlers) 1 ev"
    by (auto simp: below_def demo_handlers_def demo_deps_def)
  show ?thesis using agent_keeps_facts[OF plain_from_table i r b f n] by blast
qed


end
