(* ===== verification/Runtime.thy ===== *)
theory Runtime
  imports Answers Config
begin

text \<open>
  The rest of \<open>internal/agent/runtime.go\<close> and \<open>session.go\<close>, and \<open>conformance/conformance.go\<close>: how the agent is put together
  from its configuration and its files, which periods its workers tick with, what it logs of a session that
  ended, and the agent that the tests of the API run. The websocket package's test for an
  unexpected close is a parameter.
\<close>

section \<open>Putting the agent together (runtime.go)\<close>

definition command_inbox_path :: "config \<Rightarrow> host \<Rightarrow> path" where
  "command_inbox_path cfg h =
     (let p = trim_space (cf_inbox cfg) in if p \<noteq> [] then p else path_join [data_dir h, ''agent-command-inbox.json''])"

definition logger_for_config :: "config \<Rightarrow> logger" where
  "logger_for_config cfg = new_logger (parse_level (cf_log_level cfg) (if cf_verbose cfg then LevelDebug else LevelInfo))"

text \<open>A new agent has no connection yet. \<open>rnd\<close> are the random bytes a new stream is named by.\<close>

definition no_conn :: conn where
  "no_conn = \<lparr>cn_open = False, cn_script = [], cn_sent = []\<rparr>"

definition new_runtime :: "codec \<Rightarrow> receipt_codec \<Rightarrow> 8 word list option \<Rightarrow> config \<Rightarrow> host \<Rightarrow> agent \<times> logger" where
  "new_runtime cd rcd rnd cfg h =
     (let lg = logger_for_config cfg;
          (err, q, h1) = load cd (new_queue (cf_outbox cfg) rnd h) h;
          lg1 = (case err of None \<Rightarrow> lg | Some e \<Rightarrow> log_warn (''cannot load the outbox: '' @ error_text e) lg);
          (ib, h2) = new_command_inbox rcd (command_inbox_path cfg h1) h1
      in (\<lparr>ag_server = cf_server cfg, ag_version = cf_version cfg, ag_queue = q, ag_inbox = ib, ag_deltas = [], ag_last_ack = 0,
           ag_ack_at = clock h2, ag_reset_at = None, ag_conn = no_conn, ag_host = h2\<rparr>, lg1))"

definition log_reconnect_recovery_hint :: "config \<Rightarrow> string \<Rightarrow> logger \<Rightarrow> logger" where
  "log_reconnect_recovery_hint cfg reason lg =
     (let env_path = (if trim_space (cf_env_path cfg) = [] then ''/etc/tug/agent.env'' else trim_space (cf_env_path cfg)) in
      fold log_warn
        [''reconnect disabled: '' @ reason, ''recovery steps:'', ''1) Verify agent state: sudo tug status'',
         ''2) Re-initialize token and link: sudo tug init'',
         ''3) Open generated /connect/<token> URL in dashboard to authorize this host'',
         ''4) Ensure '' @ env_path @ '' contains valid TUG_AGENT_TOKEN''] lg)"

definition backoff_of :: "config \<Rightarrow> backoff_config" where
  "backoff_of cfg = \<lparr>bo_base = cf_base_delay cfg, bo_max = cf_max_delay cfg, bo_jitter = cf_jitter cfg\<rparr>"

definition runtime_run :: "config \<Rightarrow> session_end list \<Rightarrow> int option list" where
  "runtime_run cfg ss = agent_run (backoff_of cfg) (cf_token cfg) (cf_server cfg) ss"

text \<open>Reading the files back changes nothing on a host whose calls succeed.\<close>

lemma pop_fault_calm: "faults h = [] \<Longrightarrow> pop_fault h = h"
  by (simp add: pop_fault_def)

lemma load_meta_calm: "faults h = [] \<Longrightarrow> snd (load_meta cd q h) = h"
  by (auto simp: load_meta_def Let_def dest: read_file_calm_host split: prod.splits sum.splits option.splits)

lemma load_log_calm: "faults h = [] \<Longrightarrow> snd (load_log cd q h) = h"
  by (auto simp: load_log_def dest: read_file_calm_host split: prod.splits sum.splits)

lemma load_calm:
  assumes "faults h = []" shows "snd (snd (load cd q h)) = h"
proof -
  obtain r h1 where m: "load_meta cd (ensure_path h q) h = (r, h1)" by fastforce
  then have "h1 = h" using load_meta_calm[OF assms, of cd "ensure_path h q"] by simp
  moreover obtain r1 h2 where l: "load_log cd (case r of Inl e \<Rightarrow> ensure_path h q | Inr q1 \<Rightarrow> q1) h = (r1, h2)" by fastforce
  moreover have "h2 = h" using l load_log_calm[OF assms] by (metis snd_conv)
  ultimately show ?thesis using m by (auto simp: load_def Let_def split: sum.splits)
qed

text \<open>A host that differs only in other files keeps a queue durable.\<close>

lemma durable_frame:
  assumes "durable cd (q, h)" and "file_at h1 (loc h (qu_path q)) = file_at h (loc h (qu_path q))"
    and "file_at h1 (loc h (qu_log q)) = file_at h (loc h (qu_log q))" and "cwd h1 = cwd h" and "environ h1 = environ h"
  shows "durable cd (q, h1)"
proof -
  have l: "loc h1 = loc h" using assms(4) by (rule loc_fun_cong)
  have t: "log_text q h1 = log_text q h" using assms(3) by (simp add: log_text_def l)
  have "synced cd q h1" using assms(1,2,3) by (simp add: durable_def synced_def synced_log_def t l)
  moreover have "settled q h1" using assms(1,4,5) by (auto simp: durable_def intro: settled_cong)
  ultimately show ?thesis using assms(1) by (simp add: durable_def)
qed

lemma inbox_persist_frame:
  assumes "inbox_persist rcd v ib h = (None, ib1, h1)" and "trim_space (ib_path ib) \<noteq> []"
  shows "cwd h1 = cwd h \<and> environ h1 = environ h \<and> (\<forall>k. k \<noteq> loc h (ib_path ib) \<longrightarrow> file_at h1 k = file_at h k)"
proof -
  have e: "inbox_ensure_path h ib = ib" using assms(2) by (simp add: inbox_ensure_path_def)
  obtain raw h0 where m: "mkdir_all (path_dir (ib_path ib)) h = (None, h0)" and w: "write_file (ib_path ib) raw h0 = (None, h1)"
    using assms(1) by (auto simp: inbox_persist_def e split: option.splits prod.splits)
  note f = mkdir_all_NoneD[OF m] write_with_frame[OF w[unfolded write_file_def]]
  have "loc h0 = loc h" using f(1) by (intro loc_fun_cong) simp
  then show ?thesis using f by simp
qed

lemma restarted_inbox:
  assumes "faults h1 = []" and "command_inbox_path cfg h1 = p"
  shows "ag_inbox (fst (new_runtime cd rcd rnd cfg h1)) = fst (new_command_inbox rcd p h1)"
    and "ag_host (fst (new_runtime cd rcd rnd cfg h1)) = h1"
proof -
  obtain err q1 h2 where l: "load cd (new_queue (cf_outbox cfg) rnd h1) h1 = (err, q1, h2)" by (metis prod_cases3)
  then have h2: "h2 = h1" using load_calm[OF assms(1), of cd "new_queue (cf_outbox cfg) rnd h1"] by simp
  have "snd (new_command_inbox rcd p h1) = h1"
    using assms(1) by (auto simp: new_command_inbox_def inbox_load_def Let_def dest: read_file_calm_host split: prod.splits sum.splits option.splits)
  then show "ag_inbox (fst (new_runtime cd rcd rnd cfg h1)) = fst (new_command_inbox rcd p h1)"
    and "ag_host (fst (new_runtime cd rcd rnd cfg h1)) = h1"
    by (simp_all add: new_runtime_def Let_def l h2 assms(2) case_prod_beta)
qed

text \<open>
  C13: An agent that is started again resumes where it stopped. When the outbox is in agreement with its
  files (\<open>durable\<close>: so after every run whose operations succeeded) and the inbox could then
  write its own, \<open>NewRuntime\<close> over a configuration with the same two paths builds an agent with the same
  stream, the same next position, the same acknowledged prefix, the same pending facts, and every receipt
  of the commands it had handled: writing the inbox does not disturb the outbox, and loading the one does
  not disturb the other. The deltas it had seen and its terminals are gone, and it has no connection.
\<close>

theorem restarted_agent_resumes:
  fixes rnd :: "8 word list option"
  assumes "durable cd (q, h)" and "inbox_inv ib" and "visits v" and "receipt_codec_ok rcd"
    and "inbox_persist rcd v ib h = (None, ib1, h1)" and "faults h1 = []" and "trim_space (ib_path ib) \<noteq> []"
    and "loc h (ib_path ib) \<noteq> loc h (qu_path q)" and "loc h (ib_path ib) \<noteq> loc h (qu_log q)"
    and "cf_outbox cfg = qu_path q" and "command_inbox_path cfg h1 = ib_path ib"
  defines "ag \<equiv> fst (new_runtime cd rcd rnd cfg h1)"
  shows "promise_of (ag_queue ag) = promise_of q \<and> inbox_get (ag_inbox ag) c = inbox_get ib c \<and>
    ag_deltas ag = [] \<and> \<not> cn_open (ag_conn ag)"
proof -
  note f = inbox_persist_frame[OF assms(5,7)]
  have d: "durable cd (q, h1)"
    using f assms(8,9) by (intro durable_frame[OF assms(1)]) (auto dest: not_sym)
  obtain err q1 h2 where l: "load cd (new_queue (qu_path q) rnd h1) h1 = (err, q1, h2)" by (metis prod_cases3)
  then have h2: "h2 = h1" using load_calm[OF assms(6), of cd "new_queue (qu_path q) rnd h1"] by simp
  have "promise_of q1 = promise_of q"
    using reload_synced[of cd q h1 rnd] d assms(6) l by (simp add: durable_def queue_inv_def)
  moreover have "ag_queue ag = q1 \<and> ag_inbox ag = fst (new_command_inbox rcd (ib_path ib) h1) \<and> ag_deltas ag = [] \<and> ag_conn ag = no_conn"
    by (simp add: ag_def new_runtime_def Let_def assms(10,11) l h2 split: prod.split)
  ultimately show ?thesis
    using receipts_survive_restart[OF assms(2-7)] by (simp add: no_conn_def)
qed

text \<open>
  C36: A command the process did not survive is never finished. Its receipt says running and is on disk; the agent
  that is started again over that file and has a connection answers every delivery of the command with one
  progress frame that says running and does nothing else, however often it is delivered and whatever the handlers
  would do: the frames are on the wire, nothing is carried out or queued, no receipt changes, and the machine
  is left as it was, so that the next restart finds the same. The connection takes what is written to it and
  the frame can be encoded.
\<close>

theorem running_receipt_is_final:
  assumes "inbox_inv ib" and "visits v" and "receipt_codec_ok rcd"
    and "inbox_persist rcd v ib h = (None, ib1, h1)" and "faults h1 = []" and "trim_space (ib_path ib) \<noteq> []"
    and "command_inbox_path cfg h1 = ib_path ib"
    and "statuses_agree (dp_proto dp)" and "tracked dp cmd"
    and "inbox_get ib (cm_id cmd) = Some r" and "rc_status r = st_running (dp_proto dp)"
    and "ag = fst (new_runtime cd rcd rnd cfg h1)" and "cn_open c" and "cn_script c = []"
    and "make_envelope (dp_proto dp) (ent_command (dp_proto dp)) (act_progress (dp_proto dp)) []
      (ProgressMsg \<lparr>cp_id = cm_id cmd, cp_status = st_running (dp_proto dp), cp_error = [], cp_logs = [], cp_payload = []\<rparr>) ag = Inr env"
    and "dp_frame dp (as_signal (dp_proto dp) env) \<noteq> None"
  shows "(run_command dp hs ds cmd ^^ n) (ag\<lparr>ag_conn := c\<rparr>) =
      ag\<lparr>ag_conn := c\<lparr>cn_sent := cn_sent c @ replicate n (as_signal (dp_proto dp) env)\<rparr>\<rparr> \<and>
    inbox_get (ag_inbox ag) (cm_id cmd) = Some r \<and> ag_host ag = h1"
proof -
  have same: "ag_inbox ag = fst (new_command_inbox rcd (ib_path ib) h1)" "ag_host ag = h1"
    using restarted_inbox[OF assms(5,7), of cd rcd rnd] assms(12) by simp_all
  have "inbox_get (ag_inbox ag) (cm_id cmd) = Some r"
    unfolding same(1) using receipts_survive_restart[OF assms(1-6)] assms(10) by simp
  then show ?thesis
    using answered_running[OF assms(8,9) _ assms(11,13,14) _ assms(16)] assms(15) same(2) by (simp add: running_progress_def)
qed

section \<open>The workers of a session (session.go)\<close>

definition websocket_ping_period :: int where "websocket_ping_period = 15 * second"
definition default_heartbeat_period :: int where "default_heartbeat_period = 15 * second"
definition default_self_heal_period :: int where "default_self_heal_period = 900 * second"

text \<open>The workers that are given a period, each with the event of its tick; the two loops over the queue bring their own.\<close>

definition session_workers :: "config \<Rightarrow> (session_event \<times> int) list" where
  "session_workers cfg =
     [(PingTick None, websocket_ping_period),
      (HeartbeatTick, positive_or_default (cf_heartbeat cfg) default_heartbeat_period),
      (SnapshotTick, positive_or_default (cf_self_heal cfg) default_self_heal_period),
      (RefreshTick, container_refresh_interval (cf_heartbeat cfg))]"

text \<open>\<open>runEvery\<close> over the ticks that come before the context ends.\<close>

fun run_every :: "('a \<Rightarrow> bool \<times> 'a) \<Rightarrow> nat \<Rightarrow> 'a \<Rightarrow> 'a" where
  "run_every work 0 s = s"
| "run_every work (Suc n) s = (case work s of (True, s1) \<Rightarrow> run_every work n s1 | (False, s1) \<Rightarrow> s1)"

text \<open>What is logged of the error that ended the read loop.\<close>

definition log_disconnect_cause :: "proto \<Rightarrow> (go_error \<Rightarrow> bool) \<Rightarrow> go_error \<Rightarrow> logger \<Rightarrow> logger" where
  "log_disconnect_cause pr unexpected e lg =
     (case close_frame e of
        Some (n, s) \<Rightarrow>
          (if contains s (close_duplicate pr)
           then log_warn (''the API rejected this connection: another agent is already live on this server_id. '' @
                  ''Check for a cloned VPS, a copied agent.env, or a second tug agent process (close '' @ itoa n @ '').'') lg
           else if contains s (close_replaced pr)
           then log_warn (''the API replaced this connection with a newer one for the same server_id; '' @
                  ''reconnecting. A persistent loop here means the token is live elsewhere (close '' @ itoa n @ '').'') lg
           else log_warn (''server closed the connection: '' @ s @ '' (close '' @ itoa n @ '')'') lg)
      | None \<Rightarrow>
          (if unexpected e
           then log_warn (''connection dropped without a close frame (network or proxy): '' @ error_text e) lg
           else log_debug (''read loop ended: '' @ error_text e) lg))"

text \<open>
  The websocket package reports an unexpected close only for a close error; those are classified before it
  is asked, so a connection that drops is logged at debug, whatever the error.
\<close>

lemma dropped_connection_is_debug:
  assumes "\<And>e. unexpected e \<Longrightarrow> \<exists>n s. e = CloseError n s" and "close_frame e = None"
  shows "log_disconnect_cause pr unexpected e lg = log_debug (''read loop ended: '' @ error_text e) lg"
proof -
  have "\<not> unexpected e" using assms(1)[of e] assms(2) by auto
  then show ?thesis using assms(2) by (simp add: log_disconnect_cause_def)
qed

section \<open>The agent under the API's tests (conformance.go)\<close>

record conformance_options =
  co_ws_url :: string
  co_server :: string
  co_token :: string
  co_state_dir :: path
  co_heartbeat :: int
  co_verbose :: bool

definition conformance_settings :: "conformance_options \<Rightarrow> config" where
  "conformance_settings o' =
     \<lparr>cf_version = ''conformance'', cf_server = co_server o', cf_token = co_token o', cf_ws_url = co_ws_url o', cf_api_url = [],
      cf_dashboard = [], cf_env_path = [], cf_verbose = co_verbose o', cf_log_level = [], cf_traffic = [],
      cf_heartbeat = (if co_heartbeat o' \<le> 0 then second else co_heartbeat o'), cf_self_heal = 3600 * second,
      cf_base_delay = 50000000, cf_max_delay = 200000000, cf_jitter = 0,
      cf_outbox = path_join [co_state_dir o', ''outbox.json''], cf_inbox = path_join [co_state_dir o', ''command-inbox.json''],
      cf_router_image = [], cf_router_network = [], cf_http_port = 0, cf_https_port = 0, cf_router_config = []\<rparr>"

definition conformance_start ::
  "codec \<Rightarrow> receipt_codec \<Rightarrow> 8 word list option \<Rightarrow> conformance_options \<Rightarrow> host \<Rightarrow> (go_error, agent) result" where
  "conformance_start cd rcd rnd o' h =
     (if trim_space (co_ws_url o') = [] then Inl (Msg ''a websocket url is required'')
      else if trim_space (co_state_dir o') = [] then Inl (Msg ''a state directory is required'')
      else Inr (fst (new_runtime cd rcd rnd (conformance_settings o') h)))"

definition conformance_claim :: "web \<Rightarrow> string \<Rightarrow> string \<Rightarrow> (go_error, string \<times> string) result" where
  "conformance_claim w api_url raw =
     (case claim w api_url (normalize_code raw) of
        Inl e \<Rightarrow> Inl e
      | Inr c \<Rightarrow> Inr (cd_server c, cd_token c))"

text \<open>One fact in the outbox and one command handled, both read back from three files.\<close>

definition demo_disk :: host where
  "demo_disk = bare_host\<lparr>tree := [([''q.ndjson''], File (''{1}'' @ [newline])), ([''q.json''], File ''m2'')]\<rparr>"

definition demo_settings :: config where
  "demo_settings = conformance_settings
     \<lparr>co_ws_url = ''ws://a'', co_server = ''s1'', co_token = ''t1'', co_state_dir = ''/'', co_heartbeat = 0, co_verbose = False\<rparr>"

lemma demo_durable: "durable demo_codec (demo_queue\<lparr>qu_next := 2, qu_items := [(1, demo_item)]\<rparr>, demo_disk)"
proof -
  have "qu_next demo_queue \<noteq> - 1" by (simp add: demo_queue_def)
  then show ?thesis
    using enqueue_synced[OF demo_enqueue demo_queue_good(3,2) demo_codec_ok demo_queue_good(1)] demo_codec_ok
    unfolding durable_def demo_disk_def fst_conv snd_conv by blast
qed

theorem restarted_agent_resumes_witness:
  "pm_facts (promise_of (ag_queue (fst (new_runtime demo_codec demo_receipt_codec None
       (demo_settings\<lparr>cf_outbox := ''/q.json'', cf_inbox := '' /i ''\<rparr>)
       (demo_disk\<lparr>tree := tree demo_disk @ [([''i''], File ''[c1]'')]\<rparr>))))) = [1 \<mapsto> demo_env\<lparr>ev_stream := ''07'', ev_seq := 1\<rparr>] \<and>
   inbox_get (ag_inbox (fst (new_runtime demo_codec demo_receipt_codec None
       (demo_settings\<lparr>cf_outbox := ''/q.json'', cf_inbox := '' /i ''\<rparr>)
       (demo_disk\<lparr>tree := tree demo_disk @ [([''i''], File ''[c1]'')]\<rparr>)))) ''c1'' = Some demo_receipt"
proof -
  let ?ib = "\<lparr>ib_path = ''/i'', ib_items = [(''c1'', demo_receipt)]\<rparr>"
  let ?h1 = "demo_disk\<lparr>tree := tree demo_disk @ [([''i''], File ''[c1]'')]\<rparr>"
  have i: "inbox_inv ?ib" by (simp add: inbox_inv_def command_inbox_cap_def demo_receipt_def model_defs)
  have c: "receipt_codec_ok demo_receipt_codec" by (simp add: receipt_codec_ok_def demo_receipt_codec_def)
  have p: "inbox_persist demo_receipt_codec (\<lambda>xs. xs) ?ib demo_disk = (None, ?ib, ?h1)"
    by (simp add: inbox_persist_def inbox_ensure_path_def demo_receipt_codec_def Let_def demo_disk_def bare_host_def model_defs)
  show ?thesis
    using restarted_agent_resumes[OF demo_durable i visits_id c p, of "demo_settings\<lparr>cf_outbox := ''/q.json'', cf_inbox := '' /i ''\<rparr>" None "''c1''"]
    by (simp add: promise_of_def demo_queue_def facts_def demo_item_def fun_eq_iff inbox_get_def demo_disk_def
        command_inbox_path_def model_defs)
qed

theorem running_receipt_is_final_witness:
  "let ag = fst (new_runtime demo_codec demo_receipt_codec None (demo_settings\<lparr>cf_outbox := ''/q.json'', cf_inbox := ''/i''\<rparr>)
       (bare_host\<lparr>tree := [([''i''], File ''[c1]'')]\<rparr>))
    in map ev_payload (cn_sent (ag_conn ((run_command (demo_deps\<lparr>dp_proto := demo_proto\<lparr>marshal := (\<lambda>m. case m of ProgressMsg p \<Rightarrow> Some (cp_status p) | _ \<Rightarrow> None)\<rparr>\<rparr>) (\<lambda>_. None) [] (demo_command\<lparr>cm_id := ''c1''\<rparr>) ^^ 3)
         (ag\<lparr>ag_conn := \<lparr>cn_open = True, cn_script = [], cn_sent = []\<rparr>\<rparr>)))) = [''running'', ''running'', ''running'']"
proof -
  let ?dp = "demo_deps\<lparr>dp_proto := demo_proto\<lparr>marshal := (\<lambda>m. case m of ProgressMsg p \<Rightarrow> Some (cp_status p) | _ \<Rightarrow> None)\<rparr>\<rparr>"
  let ?ib = "\<lparr>ib_path = ''/i'', ib_items = [(''c1'', demo_receipt)]\<rparr>" and ?c = "\<lparr>cn_open = True, cn_script = [], cn_sent = []\<rparr>"
  let ?h1 = "bare_host\<lparr>tree := [([''i''], File ''[c1]'')]\<rparr>" and ?cmd = "demo_command\<lparr>cm_id := ''c1''\<rparr>"
  let ?cfg = "demo_settings\<lparr>cf_outbox := ''/q.json'', cf_inbox := ''/i''\<rparr>"
  let ?ag = "fst (new_runtime demo_codec demo_receipt_codec None ?cfg ?h1)"
  have i: "inbox_inv ?ib" by (simp add: inbox_inv_def command_inbox_cap_def demo_receipt_def model_defs)
  have c: "receipt_codec_ok demo_receipt_codec" by (simp add: receipt_codec_ok_def demo_receipt_codec_def)
  have p: "inbox_persist demo_receipt_codec (\<lambda>xs. xs) ?ib bare_host = (None, ?ib, ?h1)"
    by (simp add: inbox_persist_def inbox_ensure_path_def demo_receipt_codec_def Let_def bare_host_def model_defs)
  have f: "faults ?h1 = []" "trim_space (ib_path ?ib) \<noteq> []" "command_inbox_path ?cfg ?h1 = ib_path ?ib"
    by (simp_all add: command_inbox_path_def model_defs)
  have s: "statuses_agree (dp_proto ?dp)" by (simp add: statuses_agree_def demo_proto_def)
  have t: "tracked ?dp ?cmd" using demo_command_tracked by (simp add: tracked_def demo_deps_def)
  have g: "inbox_get ?ib (cm_id ?cmd) = Some demo_receipt" by (simp add: inbox_get_def model_defs)
  have r: "rc_status demo_receipt = st_running (dp_proto ?dp)" by (simp add: demo_receipt_def demo_proto_def)
  obtain env where e: "make_envelope (dp_proto ?dp) (ent_command (dp_proto ?dp)) (act_progress (dp_proto ?dp)) []
      (ProgressMsg \<lparr>cp_id = cm_id ?cmd, cp_status = st_running (dp_proto ?dp), cp_error = [], cp_logs = [], cp_payload = []\<rparr>) ?ag = Inr env" and pay: "ev_payload env = ''running''"
    by (auto simp: make_envelope_def with_payload_def demo_proto_def)
  have d: "dp_frame ?dp (as_signal (dp_proto ?dp) env) \<noteq> None" by (simp add: demo_deps_def)
  from running_receipt_is_final[OF i visits_id c p f s t g r refl _ _ e d, of ?c 3 "\<lambda>_. None" "[]"] show ?thesis
    using pay by (simp add: numeral_3_eq_3 as_signal_def)
qed

end
