(* ===== verification/Cli.thy ===== *)
theory Cli
  imports Pairing Lifecycle Router "HOL-Library.While_Combinator"
begin

text \<open>
  \<open>cmd/agent/main.go\<close>: the command line of the agent. What a command prints is returned as a list of
  texts. The dialler of the control plane, the answers of the kernel to \<open>flock\<close> and to signals, and the
  person at the terminal are parameters.
\<close>

section \<open>Arguments\<close>

definition parse_command :: "string list \<Rightarrow> string" where
  "parse_command args =
     (case args of
        [] \<Rightarrow> []
      | a # _ \<Rightarrow> (if has_prefix (trim_space a) ''-'' then [] else trim_space a))"

definition has_token :: "string list \<Rightarrow> string \<Rightarrow> bool" where
  "has_token args token = list_ex (\<lambda>a. trim_space a = token) args"

definition fallback_value :: "string \<Rightarrow> string \<Rightarrow> string" where
  "fallback_value value fallback = (if trim_space value = [] then fallback else trim_space value)"

definition is_systemd_service :: "host \<Rightarrow> bool" where
  "is_systemd_service h \<longleftrightarrow> getenv h ''INVOCATION_ID'' \<noteq> [] \<or> getenv h ''JOURNAL_STREAM'' \<noteq> []"

section \<open>The log\<close>

definition default_agent_log_lines :: int where "default_agent_log_lines = 100"
definition max_agent_log_lines :: int where "max_agent_log_lines = 10000"

definition agent_log_path :: "host \<Rightarrow> path" where
  "agent_log_path h = path_join [data_dir h, ''logs'', ''agent.log'']"

definition clamp_log_limit :: "int \<Rightarrow> int" where
  "clamp_log_limit n = (if n < 1 then default_agent_log_lines else if n > max_agent_log_lines then max_agent_log_lines else n)"

text \<open>An explicit \<open>-1\<close> is taken for no number at all, which comes to the same.\<close>

definition parse_logs_args :: "string list \<Rightarrow> bool \<times> int" where
  "parse_logs_args args =
     (let (follow, limit) =
        foldl (\<lambda>(follow, limit) raw.
          let arg = trim_space raw in
          if arg = [] \<or> arg = ''logs'' then (follow, limit)
          else if arg = ''-f'' \<or> arg = ''--follow'' then (True, limit)
          else (case atoi arg of None \<Rightarrow> (follow, limit) | Some n \<Rightarrow> (follow, n))) (False, - 1) args
      in (follow, if limit = - 1 then default_agent_log_lines else clamp_log_limit limit))"

definition parse_logs_limit :: "string list \<Rightarrow> int" where
  "parse_logs_limit args = snd (parse_logs_args args)"

fun replace_crlf :: "string \<Rightarrow> string" where
  "replace_crlf [] = []"
| "replace_crlf [c] = [c]"
| "replace_crlf (c # d # s) = (if c = CHR 0x0D \<and> d = newline then newline # replace_crlf s else c # replace_crlf (d # s))"

definition chunk_size :: nat where "chunk_size = 8192"

text \<open>
  The loop that reads a file from its end, a chunk at a time, until it has more line ends than lines
  are wanted. Each read takes a fault.
\<close>

record tail_state =
  tl_offset :: nat
  tl_collected :: string
  tl_newlines :: nat
  tl_failed :: bool
  tl_host :: host

definition tail_step :: "string \<Rightarrow> tail_state \<Rightarrow> tail_state" where
  "tail_step s t =
     (let n = min chunk_size (tl_offset t); off = tl_offset t - n;
          collected = take n (drop off s) @ tl_collected t
      in if fault_of (tl_host t) \<noteq> Fine
         then t\<lparr>tl_offset := off, tl_failed := True, tl_host := pop_fault (tl_host t)\<rparr>
         else t\<lparr>tl_offset := off, tl_collected := collected, tl_newlines := count_list collected newline,
                tl_host := pop_fault (tl_host t)\<rparr>)"

definition tail_loop :: "string \<Rightarrow> int \<Rightarrow> host \<Rightarrow> tail_state option" where
  "tail_loop s limit h =
     while_option (\<lambda>t. \<not> tl_failed t \<and> tl_offset t > 0 \<and> int (tl_newlines t) \<le> limit) (tail_step s)
       \<lparr>tl_offset = length s, tl_collected = [], tl_newlines = 0, tl_failed = False, tl_host = h\<rparr>"

definition without_last_empty :: "string list \<Rightarrow> string list" where
  "without_last_empty ls = (if ls \<noteq> [] \<and> last ls = [] then butlast ls else ls)"

definition last_lines :: "int \<Rightarrow> string list \<Rightarrow> string list" where
  "last_lines limit ls = (if int (length ls) > limit then drop (nat (int (length ls) - limit)) ls else ls)"

definition lines_of_text :: "string \<Rightarrow> string list" where
  "lines_of_text s = without_last_empty (split_on newline (replace_crlf s))"

text \<open>\<open>None\<close> would be a loop that does not end. Opening and measuring the file take a fault each.\<close>

definition tail_file_lines :: "path \<Rightarrow> int \<Rightarrow> host \<Rightarrow> ((go_error, string list) result \<times> host) option" where
  "tail_file_lines p limit h =
     (case read_file p h of
        (Inl e, h1) \<Rightarrow> Some (Inl e, h1)
      | (Inr s, h1) \<Rightarrow>
          (case Host.stat p h1 of
             (Inl e, h2) \<Rightarrow> Some (Inl e, h2)
           | (Inr _, h2) \<Rightarrow>
               (if s = [] then Some (Inr [], h2)
                else map_option (\<lambda>t. (if tl_failed t then Inl (IOError p)
                                      else Inr (last_lines limit (lines_of_text (tl_collected t))), tl_host t))
                       (tail_loop s limit h2))))"

definition escape :: "string \<Rightarrow> string" where
  "escape s = CHR 0x1B # s"

text \<open>\<open>strings.Replace(line, old, new, 1)\<close>.\<close>

definition replace_first :: "string \<Rightarrow> string \<Rightarrow> string \<Rightarrow> string" where
  "replace_first s old new = (case cut s old of None \<Rightarrow> s | Some (a, b) \<Rightarrow> a @ new @ b)"

definition print_colorized_log :: "string \<Rightarrow> string" where
  "print_colorized_log line =
     (if contains line ''[error]'' then escape ''[31m'' @ line @ escape ''[0m''
      else if contains line ''[warn]'' then escape ''[33m'' @ line @ escape ''[0m''
      else if contains line ''[debug]'' then escape ''[36m'' @ line @ escape ''[0m''
      else if contains line ''[info]'' then replace_first line ''[info]'' (escape ''[32m'' @ ''[info]'' @ escape ''[0m'')
      else line) @ [newline]"

text \<open>
  Following the log ends when the follower does; a line that does not fit the scanner ends the
  printing.
\<close>

definition run_logs :: "sys \<Rightarrow> bool \<Rightarrow> int \<Rightarrow> host \<Rightarrow> ((go_error option \<times> string list) \<times> host) option" where
  "run_logs sys follow limit h =
     (let p = agent_log_path h in
      if follow then
        (let (r, h1) = exec sys [''tail'', ''-n'', itoa limit, ''-f'', p] h in
         Some ((p_err r, map print_colorized_log (fst (scan_lines scanner_limit (p_out r)))), h1))
      else (case tail_file_lines p limit h of
              None \<Rightarrow> None
            | Some (Inl e, h1) \<Rightarrow>
                Some ((Some (if is_not_exist e then Msg (''log file not found: '' @ p) else e), []), h1)
            | Some (Inr ls, h1) \<Rightarrow>
                Some ((None, if ls = [] then [''No log lines in '' @ p @ [newline]] else map print_colorized_log ls), h1)))"

section \<open>The loop ends, with the last lines\<close>

lemma split_on_append:
  "split_on d (a @ b) = butlast (split_on d a) @ (last (split_on d a) @ hd (split_on d b)) # tl (split_on d b)"
proof (induction a)
  case Nil
  show ?case by (cases "split_on d b") auto
next
  case (Cons c a)
  obtain w ws where w: "split_on d a = w # ws" by (cases "split_on d a") auto
  then show ?case using Cons by (cases ws) (auto split: list.splits)
qed

lemma count_replace_crlf: "count_list (replace_crlf s) newline = count_list s newline"
  by (induction s rule: replace_crlf.induct) auto

lemma replace_crlf_append: "\<exists>a'. replace_crlf (a @ b) = a' @ replace_crlf b"
proof (induction a rule: replace_crlf.induct)
  case (2 c)
  show ?case
  proof (cases b)
    case (Cons d s)
    have "\<exists>a'. newline # replace_crlf s = a' @ replace_crlf (newline # s)"
    proof (cases s)
      case (Cons e t)
      then show ?thesis by (intro exI[of _ "[]"]) simp
    qed (simp add: exI[of _ "[]"])
    moreover have "\<exists>a'. c # replace_crlf (d # s) = a' @ replace_crlf (d # s)" by (intro exI[of _ "[c]"]) simp
    ultimately show ?thesis using Cons by auto
  qed (simp add: exI[of _ "[c]"])
next
  case (3 c d s)
  show ?case
  proof (cases "c = CHR 0x0D \<and> d = newline")
    case True
    then obtain a' where "replace_crlf (s @ b) = a' @ replace_crlf b" using 3(1) by blast
    then show ?thesis using True by (intro exI[of _ "newline # a'"]) simp
  next
    case False
    then obtain a' where "replace_crlf ((d # s) @ b) = a' @ replace_crlf b" using 3(2) by blast
    then show ?thesis using False by (intro exI[of _ "c # a'"]) simp
  qed
qed simp

lemma last_lines_append:
  "limit \<le> int (length ys) \<Longrightarrow> 0 \<le> limit \<Longrightarrow> last_lines limit (xs @ ys) = last_lines limit ys"
proof -
  assume l: "limit \<le> int (length ys)" "0 \<le> limit"
  then obtain n where n: "limit = int n" by (metis nonneg_int_cases)
  have "last_lines (int n) zs = drop (length zs - n) zs" for zs :: "string list"
    by (simp add: last_lines_def nat_diff_distrib)
  then show ?thesis using l n by simp
qed

lemma without_last_append: "ys \<noteq> [] \<Longrightarrow> without_last_empty (xs @ ys) = xs @ without_last_empty ys"
  by (auto simp: without_last_empty_def butlast_append)

text \<open>A suffix with more line ends than lines are wanted has the same last lines as the whole.\<close>

lemma suffix_has_last_lines:
  assumes "limit < int (count_list b newline)" and "0 \<le> limit"
  shows "last_lines limit (lines_of_text (a @ b)) = last_lines limit (lines_of_text b)"
proof -
  obtain a' where a': "replace_crlf (a @ b) = a' @ replace_crlf b" using replace_crlf_append by blast
  obtain w ws where w: "split_on newline (replace_crlf b) = w # ws" by (cases "split_on newline (replace_crlf b)") auto
  have len: "length ws = count_list b newline"
    using length_split_on[of newline "replace_crlf b"] w count_replace_crlf[of b] by simp
  then have ne: "ws \<noteq> []" using assms by auto
  let ?ys = "without_last_empty ws"
  have "length ws \<le> Suc (length ?ys)" by (auto simp: without_last_empty_def)
  then have long: "limit \<le> int (length ?ys)" using len assms by linarith
  have "lines_of_text b = [w] @ ?ys"
    using ne without_last_append[of ws "[w]"] by (simp add: lines_of_text_def w)
  moreover have "\<exists>xs. lines_of_text (a @ b) = xs @ ?ys"
    using ne without_last_append[OF ne, of "butlast (split_on newline a') @ [last (split_on newline a') @ w]"]
    by (auto simp: lines_of_text_def a' split_on_append w)
  ultimately show ?thesis using last_lines_append[OF long assms(2)] by metis
qed

definition tail_inv :: "string \<Rightarrow> tail_state \<Rightarrow> bool" where
  "tail_inv s t \<longleftrightarrow> tl_offset t \<le> length s \<and> (\<not> tl_failed t \<longrightarrow>
     tl_collected t = drop (tl_offset t) s \<and> tl_newlines t = count_list (tl_collected t) newline)"

lemma tail_step_inv: "tail_inv s t \<Longrightarrow> \<not> tl_failed t \<Longrightarrow> tail_inv s (tail_step s t)"
proof -
  assume t: "tail_inv s t" "\<not> tl_failed t"
  let ?n = "min chunk_size (tl_offset t)"
  have "take ?n (drop (tl_offset t - ?n) s) @ drop (tl_offset t) s = drop (tl_offset t - ?n) s"
    by (metis add.commute append_take_drop_id drop_drop le_add_diff_inverse2 min.cobounded2)
  with t show ?thesis by (auto simp: tail_step_def tail_inv_def Let_def)
qed

lemma tail_step_smaller: "tl_offset t > 0 \<Longrightarrow> tl_offset (tail_step s t) < tl_offset t"
  by (auto simp: tail_step_def Let_def chunk_size_def)

lemma tail_step_calm: "faults (tl_host t) = [] \<Longrightarrow> faults (tl_host (tail_step s t)) = [] \<and> tl_failed (tail_step s t) = tl_failed t"
  by (simp add: tail_step_def Let_def fault_of_def)

lemma tail_loop_ends:
  "\<exists>t. tail_loop s limit h = Some t \<and> tail_inv s t \<and>
     (tl_failed t \<or> tl_offset t = 0 \<or> limit < int (tl_newlines t)) \<and> (faults h = [] \<longrightarrow> \<not> tl_failed t)"
proof -
  let ?b = "\<lambda>t. \<not> tl_failed t \<and> tl_offset t > 0 \<and> int (tl_newlines t) \<le> limit"
  let ?s0 = "\<lparr>tl_offset = length s, tl_collected = [], tl_newlines = 0, tl_failed = False, tl_host = h\<rparr>"
  let ?P = "\<lambda>t. tail_inv s t \<and> (faults h = [] \<longrightarrow> faults (tl_host t) = [] \<and> \<not> tl_failed t)"
  have step: "?P t \<Longrightarrow> ?b t \<Longrightarrow> ?P (tail_step s t) \<and> tl_offset (tail_step s t) < tl_offset t" for t
    using tail_step_inv[of s t] tail_step_smaller[of t s] tail_step_calm[of t s] by blast
  have init: "?P ?s0" by (simp add: tail_inv_def)
  obtain t where t: "tail_loop s limit h = Some t"
    using measure_while_option_Some[of ?P ?b "tail_step s" tl_offset ?s0] step init by (auto simp: tail_loop_def)
  have "?P t" using while_option_rule[of ?P ?b "tail_step s" ?s0 t] t step init by (simp add: tail_loop_def)
  moreover have "\<not> ?b t" using while_option_stop[of ?b "tail_step s" ?s0 t] t by (simp add: tail_loop_def)
  ultimately show ?thesis using t by auto
qed

text \<open>
  C12: Reading the end of the log terminates on every file, every limit and every failure of a read, and
  where nothing fails it returns exactly the last lines of the whole file, although it reads the file
  backwards in chunks and stops at the first suffix with enough line ends, which may begin inside a line
  or between the two characters of a line end.
\<close>

theorem tail_returns_last_lines:
  assumes "0 \<le> limit"
  shows "\<exists>r h'. tail_file_lines p limit h = Some (r, h') \<and>
    (faults h = [] \<and> file_at h (loc h p) = Some s \<longrightarrow> r = Inr (last_lines limit (lines_of_text s)))"
proof -
  obtain rr h1 where r: "read_file p h = (rr, h1)" by fastforce
  show ?thesis
  proof (cases rr)
    case (Inl e)
    then show ?thesis using r read_file_found[of h p s] by (auto simp: tail_file_lines_def)
  next
    case (Inr c)
    obtain st h2 where st: "Host.stat p h1 = (st, h2)" by fastforce
    obtain t where t: "tail_loop c limit h2 = Some t" "tail_inv c t"
        "tl_failed t \<or> tl_offset t = 0 \<or> limit < int (tl_newlines t)" "faults h2 = [] \<longrightarrow> \<not> tl_failed t"
      using tail_loop_ends by blast
    have last: "last_lines limit (lines_of_text (tl_collected t)) = last_lines limit (lines_of_text c)" if "\<not> tl_failed t"
    proof -
      have c: "c = take (tl_offset t) c @ tl_collected t" using t(2) that by (simp add: tail_inv_def)
      show ?thesis
      proof (cases "tl_offset t = 0")
        case False
        then have "limit < int (count_list (tl_collected t) newline)" using t(2,3) that by (simp add: tail_inv_def)
        then show ?thesis using suffix_has_last_lines[OF _ assms] c by metis
      qed (use c in simp)
    qed
    have calm: "c = s \<and> (\<exists>n. st = Inr n) \<and> faults h2 = []" if "faults h = []" "file_at h (loc h p) = Some s"
    proof -
      have "c = s" "h1 = pop_fault h" using read_file_found[OF that] r Inr by simp_all
      then show ?thesis using st that by (auto simp: Host.stat_def Let_def fault_of_def loc_def file_at_eq_Some split: if_splits)
    qed
    have empty: "last_lines limit (lines_of_text []) = []"
      using assms by (simp add: last_lines_def lines_of_text_def without_last_empty_def)
    show ?thesis
      using r Inr st t(1,4) last calm empty by (cases st) (auto simp: tail_file_lines_def)
  qed
qed

theorem tail_returns_last_lines_witness:
  "map_option fst (tail_file_lines ''/a.log'' 1 (bare_host\<lparr>tree := [([''a.log''], File (''x'' @ [newline] @ ''y''))]\<rparr>)) = Some (Inr [''y''])"
proof -
  let ?h = "bare_host\<lparr>tree := [([''a.log''], File (''x'' @ [newline] @ ''y''))]\<rparr>"
  have "file_at ?h (loc ?h ''/a.log'') = Some (''x'' @ [newline] @ ''y'')" by (simp add: file_at_def model_defs)
  then show ?thesis
    using tail_returns_last_lines[of 1 "''/a.log''" ?h "''x'' @ [newline] @ ''y''"]
    by (auto simp: last_lines_def lines_of_text_def without_last_empty_def)
qed

section \<open>Status, restart, stop, disconnect\<close>

text \<open>\<open>url.QueryEscape\<close>.\<close>

definition upper_hex :: "nat \<Rightarrow> char" where
  "upper_hex n = char_of (if n < 10 then 48 + n else 55 + n)"

definition query_escape_char :: "char \<Rightarrow> string" where
  "query_escape_char c =
     (if is_lower_letter c \<or> is_upper_letter c \<or> is_digit c \<or> c \<in> {CHR ''-'', CHR ''_'', CHR ''.'', CHR ''~''} then [c]
      else if c = CHR '' '' then ''+''
      else [CHR ''%'', upper_hex (code c div 16), upper_hex (code c mod 16)])"

definition query_escape :: "string \<Rightarrow> string" where
  "query_escape s = concat (map query_escape_char s)"

text \<open>Dialling an address with a token: connected, or the status of an answer, if there was one, and the error.\<close>

type_synonym dialler = "string \<Rightarrow> string \<Rightarrow> (int option \<times> go_error) option"

definition check_api_connection :: "dialler \<Rightarrow> config \<Rightarrow> string" where
  "check_api_connection dial cfg =
     (let ws = trim_space (cf_ws_url cfg); server = trim_space (cf_server cfg); token = trim_space (cf_token cfg) in
      if ws = [] then ''disconnected (ws_url not set)''
      else if server = [] \<or> token = [] then ''disconnected (not initialized)''
      else (case dial (ws @ ''?server_id='' @ query_escape server) token of
              None \<Rightarrow> ''connected''
            | Some (Some status, _) \<Rightarrow>
                (if status \<in> {401, 403, 400} then ''disconnected (auth rejected: HTTP '' @ itoa status @ '')''
                 else ''disconnected (HTTP '' @ itoa status @ '')'')
            | Some (None, e) \<Rightarrow> ''disconnected (unreachable: '' @ error_text e @ '')''))"

definition is_initialized :: "config \<Rightarrow> bool" where
  "is_initialized cfg \<longleftrightarrow> trim_space (cf_server cfg) \<noteq> [] \<and> trim_space (cf_token cfg) \<noteq> []"

definition token_preview :: "string \<Rightarrow> string" where
  "token_preview token =
     (if trim_space token = [] then ''(not set)'' else if length token > 12 then take 12 token @ ''...'' else token)"

definition run_status ::
  "string \<Rightarrow> durations \<Rightarrow> dialler \<Rightarrow> sys \<Rightarrow> host \<Rightarrow> (go_error option \<times> string list) \<times> host" where
  "run_status embedded dur dial sys h =
     (case load_agent_env_file h of
        (Some e, h1) \<Rightarrow> ((Some e, []), h1)
      | (None, h1) \<Rightarrow>
          (let cfg = load_config embedded dur h1;
               (r, h2) = exec sys [''systemctl'', ''is-active'', ''tug-agent.service''] h1;
               state = (case p_err r of None \<Rightarrow> trim_space (p_all r) | Some _ \<Rightarrow> ''inactive'')
           in ((None, map (\<lambda>l. l @ [newline])
                 [''tug agent status'', ''----------------'', ''version: v'' @ cf_version cfg, ''service: '' @ state,
                  ''initialized: '' @ (if is_initialized cfg then ''true'' else ''false''),
                  ''api_connection: '' @ check_api_connection dial cfg,
                  ''server_id: '' @ fallback_value (cf_server cfg) ''(not set)'',
                  ''agent_token: '' @ token_preview (cf_token cfg),
                  ''ws_url: '' @ fallback_value (cf_ws_url cfg) ''(not set)'',
                  ''env_path: '' @ fallback_value (cf_env_path cfg) ''(not set)'']), h2)))"

definition run_restart :: "sys \<Rightarrow> path option \<Rightarrow> config \<Rightarrow> host \<Rightarrow> (go_error option \<times> string list) \<times> host" where
  "run_restart sys self cfg h =
     (if \<not> is_initialized cfg
      then ((Some (Msg (''agent is not initialized; run `tug init` first'')), []), h)
      else (let (message, h1) = try_start_agent_service sys self h;
                first = ''Restarting tug agent service...'' @ [newline]
            in if contains (to_lower message) ''failed'' then ((Some (Msg message), [first]), h1)
               else ((None, [first, ''   '' @ message @ [newline]]), h1)))"

definition stop_agent_service :: "sys \<Rightarrow> host \<Rightarrow> go_error option \<times> host" where
  "stop_agent_service sys h =
     (if look_path h ''systemctl'' = None then (Some (Msg ''systemctl not available''), h)
      else (let (r, h1) = exec sys [''systemctl'', ''stop'', ''tug-agent.service''] h in
            (case p_err r of
               Some _ \<Rightarrow> Some (Msg (''cannot stop tug-agent.service: '' @ trim_space (p_all r)))
             | None \<Rightarrow> None, h1)))"

definition clear_agent_connection_state :: "config \<Rightarrow> host \<Rightarrow> go_error option \<times> host" where
  "clear_agent_connection_state cfg h =
     (if trim_space (cf_env_path cfg) = [] then (Some (Msg ''empty agent env path''), h)
      else write_file (cf_env_path cfg)
        (join [newline]
          ([''TUG_AGENT_TOKEN=''] @
           (if cf_ws_url cfg \<noteq> ''wss://api.tug.sh/ws/agents'' then [''TUG_API_WS_URL='' @ cf_ws_url cfg] else []) @ [[]])) h)"

definition run_disconnect :: "sys \<Rightarrow> config \<Rightarrow> host \<Rightarrow> go_error option \<times> host" where
  "run_disconnect sys cfg h =
     (let (_, h1) = stop_agent_service sys h in clear_agent_connection_state cfg h1)"

definition update_base :: "string \<Rightarrow> string" where
  "update_base ws =
     (let b = replace_first (replace_first ws ''wss://'' ''https://'') ''ws://'' ''http://'' in
      case str_index b ''/ws/'' of None \<Rightarrow> b | Some i \<Rightarrow> take i b)"

text \<open>\<open>platform\<close> is the operating system and the processor the agent was built for.\<close>

definition run_update ::
  "update_env \<Rightarrow> sys \<Rightarrow> string \<times> string \<Rightarrow> config \<Rightarrow> host \<Rightarrow> (go_error option \<times> string list) \<times> host" where
  "run_update ue sys platform cfg h =
     (let url = update_base (cf_ws_url cfg) @ ''/releases/agent-'' @ fst platform @ ''-'' @ snd platform @ ''?version=latest'';
          (r, h1) = safe_update ue sys url h
      in ((r, [''Updating agent from: '' @ url @ [newline]]), h1))"

section \<open>One agent per machine\<close>

datatype flock_answer = Locked | WouldBlock | FlockError go_error

text \<open>
  What decides about the lock: the kernel's answer to each attempt, the processes that are alive, whether
  standard input is a terminal, and what is typed there.
\<close>

record locking =
  lk_flock :: "nat \<Rightarrow> flock_answer"
  lk_alive :: "int \<Rightarrow> bool"
  lk_terminal :: bool
  lk_typed :: string
  lk_log :: "string \<Rightarrow> host \<Rightarrow> host"

definition is_process_alive :: "locking \<Rightarrow> int \<Rightarrow> bool" where
  "is_process_alive lk pid \<longleftrightarrow> 0 < pid \<and> lk_alive lk pid"

text \<open>With nobody to ask the other process is killed, and that is logged: \<open>lk_log\<close> is what the logger does with a line at info.\<close>

definition nobody_to_ask :: "locking \<Rightarrow> host \<Rightarrow> bool" where
  "nobody_to_ask lk h \<longleftrightarrow> is_systemd_service h \<or> \<not> lk_terminal lk"

definition should_kill :: "locking \<Rightarrow> host \<Rightarrow> bool" where
  "should_kill lk h \<longleftrightarrow> nobody_to_ask lk h \<or> to_lower (trim_space (lk_typed lk)) \<in> {''y'', ''yes''}"

definition note_killing :: "locking \<Rightarrow> string \<Rightarrow> host \<Rightarrow> host" where
  "note_killing lk pid h =
     (if nobody_to_ask lk h then lk_log lk (''[lock] terminating existing agent process PID '' @ pid @ '' to start new instance'') h else h)"

text \<open>
  What happens between two attempts: the lock file names a dead process, or one that may be killed, and
  the next attempt follows; otherwise the loop ends. \<open>Atoi\<close> of no number is zero, of one out of range the
  nearest number.
\<close>

definition saturated_atoi :: "string \<Rightarrow> int" where
  "saturated_atoi s =
     (case atoi s of
        Some n \<Rightarrow> n
      | None \<Rightarrow>
          (let (neg, ds) = (case s of [] \<Rightarrow> (False, []) | c # r \<Rightarrow> if c = CHR ''-'' then (True, r) else if c = CHR ''+'' then (False, r) else (False, s))
           in if ds = [] \<or> \<not> list_all is_digit ds then 0 else if neg then min_int else max_int))"

definition make_room :: "locking \<Rightarrow> sys \<Rightarrow> path \<Rightarrow> host \<Rightarrow> bool \<times> host" where
  "make_room lk sys p h =
     (case read_file p h of
        (Inl _, h1) \<Rightarrow> (False, h1)
      | (Inr content, h1) \<Rightarrow>
          (let text = trim_space content; pid = saturated_atoi text in
           if text = [] then (False, h1)
           else if pid > 0 \<and> \<not> is_process_alive lk pid
           then (True, pass_time 100000000 (snd (write_file p [] h1)))
           else if should_kill lk h1 \<and> pid > 0
           then (True, pass_time 300000000 (snd (exec sys [''kill'', ''-9'', text] (note_killing lk text h1))))
           else (False, note_killing lk text h1)))"

function lock_loop :: "locking \<Rightarrow> sys \<Rightarrow> path \<Rightarrow> nat \<Rightarrow> host \<Rightarrow> flock_answer \<times> host" where
  "lock_loop lk sys p attempt h =
     (case lk_flock lk attempt of
        WouldBlock \<Rightarrow>
          (if attempt < 2
           then (case make_room lk sys p h of
                   (True, h1) \<Rightarrow> lock_loop lk sys p (Suc attempt) h1
                 | (False, h1) \<Rightarrow> (WouldBlock, h1))
           else (WouldBlock, h))
      | r \<Rightarrow> (r, h))"
  by pat_completeness auto
termination by (relation "measure (\<lambda>(_, _, _, attempt, _). 2 - attempt)") auto

declare lock_loop.simps [simp del]

definition lock_path :: "host \<Rightarrow> path" where
  "lock_path h =
     (if trim_space (getenv h ''TUG_AGENT_LOCK_PATH'') = []
      then path_join [temp_dir h, ''tug-agent.lock'']
      else getenv h ''TUG_AGENT_LOCK_PATH'')"

text \<open>Opening creates the file and keeps what it holds; \<open>pid\<close> is the number of this process.\<close>

definition acquire_single_instance_lock :: "locking \<Rightarrow> sys \<Rightarrow> int \<Rightarrow> host \<Rightarrow> go_error option \<times> host" where
  "acquire_single_instance_lock lk sys pid h =
     (let p = lock_path h in
      case mkdir_all (path_dir p) h of
        (Some e, h1) \<Rightarrow> (Some (Wrapf ''cannot create lock directory: '' e []), h1)
      | (None, h1) \<Rightarrow>
          (case append_file p [] h1 of
             (Some e, h2) \<Rightarrow> (Some (Wrapf ''cannot open lock file: '' e []), h2)
           | (None, h2) \<Rightarrow>
               (case lock_loop lk sys p 0 h2 of
                  (WouldBlock, h3) \<Rightarrow> (Some (Msg (''lock busy at '' @ p)), h3)
                | (FlockError e, h3) \<Rightarrow> (Some (Wrapf ''cannot acquire lock: '' e []), h3)
                | (Locked, h3) \<Rightarrow>
                    (case write_file p [] h3 of
                       (Some _, h4) \<Rightarrow> (None, h4)
                     | (None, h4) \<Rightarrow> (None, snd (append_file p (itoa pid) h4))))))"

section \<open>Which command runs\<close>

definition help_line :: "string \<Rightarrow> string \<Rightarrow> string" where
  "help_line name about = ''  '' @ escape ''[1;37m'' @ name @ escape ''[0m'' @ about @ [newline]"

definition print_help :: "string \<Rightarrow> string list" where
  "print_help version =
     [escape ''[1;36mtug'' @ escape ''[0m v'' @ version @ '' - VPS control center agent'' @ [newline, newline],
      escape ''[1;33mUSAGE:'' @ escape ''[0m'' @ [newline],
      ''  tug <command>'' @ [newline], [newline],
      escape ''[1;33mCOMMANDS:'' @ escape ''[0m'' @ [newline],
      help_line ''init'' ''        Pair this machine (`tug init <server-id> <token>`)'',
      help_line ''start'' ''       Start background agent service (`systemctl start tug-agent`)'',
      help_line ''status'' ''      Show agent connection status and service health'',
      help_line ''stop'' ''        Stop agent background service (`systemctl stop tug-agent`)'',
      help_line ''restart'' ''     Restart agent background service (`systemctl restart tug-agent`)'',
      help_line ''logs'' ''        Show last 100 agent log lines (`tug logs [-f] [n]`)'',
      help_line ''update'' ''      Update agent binary to the latest release'',
      help_line ''disconnect'' ''  Disconnect agent from dashboard and reset token'',
      help_line ''remove'' ''      Uninstall agent and remove systemd service'',
      help_line ''version'' ''     Display current agent version'',
      help_line ''run'' ''         Run agent in daemon worker mode (used by systemd)'', [newline]]"

text \<open>What the commands work with beside the configuration and the machine.\<close>

record cli_env =
  ce_embedded :: string
  ce_durations :: durations
  ce_web :: web
  ce_tty :: terminal_line
  ce_sys :: sys
  ce_self :: "path option"
  ce_dial :: dialler
  ce_update :: update_env
  ce_platform :: "string \<times> string"

definition printing :: "go_error option \<times> host \<Rightarrow> (go_error option \<times> string list) \<times> host" where
  "printing r = ((fst r, []), snd r)"

text \<open>A command, when the name is one, with the text that follows its success. \<open>None\<close> is a command that does not return.\<close>

type_synonym cli_run = "config \<Rightarrow> string list \<Rightarrow> host \<Rightarrow> ((go_error option \<times> string list) \<times> host) option"

definition cli_command :: "cli_env \<Rightarrow> string \<Rightarrow> (cli_run \<times> string) option" where
  "cli_command ce name =
     map_of
       [(''help'', (\<lambda>cfg _ h. Some ((None, print_help (cf_version cfg)), h)), []),
        (''version'', (\<lambda>cfg _ h. Some ((None, [''tug-agent v'' @ cf_version cfg @ [newline]]), h)), []),
        (''update'', (\<lambda>cfg _ h. Some (run_update (ce_update ce) (ce_sys ce) (ce_platform ce) cfg h)),
          ''Agent updated successfully and restarted.''),
        (''init'', (\<lambda>cfg args h. Some (run_init (ce_web ce) (ce_tty ce) (ce_sys ce) (ce_self ce) cfg args h)), []),
        (''start'', (\<lambda>cfg _ h. Some (run_start (ce_sys ce) (ce_self ce) cfg h)), []),
        (''status'', (\<lambda>_ _ h. Some (run_status (ce_embedded ce) (ce_durations ce) (ce_dial ce) (ce_sys ce) h)), []),
        (''stop'', (\<lambda>_ _ h. Some (printing (stop_agent_service (ce_sys ce) h))), ''Agent stopped.''),
        (''restart'', (\<lambda>cfg _ h. Some (run_restart (ce_sys ce) (ce_self ce) cfg h)), []),
        (''logs'', (\<lambda>_ args h. let (follow, limit) = parse_logs_args args in run_logs (ce_sys ce) follow limit h), []),
        (''disconnect'', (\<lambda>cfg _ h. Some (printing (run_disconnect (ce_sys ce) cfg h))),
          ''Agent disconnected from dashboard. Run `tug init` to reconnect.''),
        (''remove'', (\<lambda>_ _ h. Some (printing (run_detached_uninstall (ce_sys ce) False h))),
          ''Agent uninstall started in background.'')] name"

text \<open>
  How the program starts: it answers the health check, cannot load its settings, has run a command (with
  its failure), shows the help, does not know the command, or becomes the daemon.
\<close>

datatype launch =
    HealthCheckOk
  | EnvFailed go_error
  | CommandRan string "go_error option" "string list"
  | HelpShown
  | UnknownCommand string
  | BecomesDaemon config

text \<open>\<open>attended\<close>: one of standard output and input is a terminal.\<close>

definition launch_agent :: "cli_env \<Rightarrow> bool \<Rightarrow> string list \<Rightarrow> host \<Rightarrow> (launch \<times> host) option" where
  "launch_agent ce attended args h =
     (if has_token args ''--test-mode'' then Some (HealthCheckOk, h)
      else (case load_agent_env_file h of
              (Some e, h1) \<Rightarrow> Some (EnvFailed e, h1)
            | (None, h1) \<Rightarrow>
                (let cfg = load_config (ce_embedded ce) (ce_durations ce) h1; command = parse_command args in
                 case cli_command ce command of
                   Some (run, success) \<Rightarrow>
                     map_option (\<lambda>((r, printed), h2).
                       (CommandRan command r (printed @ (if r = None \<and> success \<noteq> [] then [success @ [newline]] else [])), h2))
                       (run cfg args h1)
                 | None \<Rightarrow>
                     (if command \<in> {''run'', ''daemon'', ''run-service'', ''service''} then Some (BecomesDaemon cfg, h1)
                      else if command = []
                      then Some (if \<not> (is_systemd_service h1 \<or> \<not> attended) then HelpShown else BecomesDaemon cfg, h1)
                      else Some (UnknownCommand command, h1)))))"

section \<open>The lock\<close>

lemma lock_path_environ: "environ h1 = environ h \<Longrightarrow> lock_path h1 = lock_path h \<and> should_kill lk h1 = should_kill lk h"
  by (simp add: lock_path_def should_kill_def nobody_to_ask_def is_systemd_service_def getenv_def temp_dir_def)

lemma note_killing_asked: "\<not> should_kill lk h \<Longrightarrow> note_killing lk pid h = h"
  by (simp add: note_killing_def should_kill_def)

text \<open>A logger that runs no command and leaves the environment alone.\<close>

definition log_quiet :: "locking \<Rightarrow> bool" where
  "log_quiet lk \<longleftrightarrow> (\<forall>s h. ran (lk_log lk s h) = ran h \<and> environ (lk_log lk s h) = environ h)"

lemma note_killing_quiet: "log_quiet lk \<Longrightarrow> ran (note_killing lk pid h) = ran h \<and> environ (note_killing lk pid h) = environ h"
  by (simp add: log_quiet_def note_killing_def)

definition killed :: "string \<Rightarrow> cmd" where
  "killed pid = ([], [''kill'', ''-9'', pid])"

lemma exec_ran_environ:
  assumes "\<And>c h. environ (snd (sys c h)) = environ h"
  shows "ran (snd (exec sys argv h)) = ran h @ [([], argv)] \<and> environ (snd (exec sys argv h)) = environ h"
  using assms[of "([], argv)" h] by (cases "sys ([], argv) h") (simp add: exec_def exec_in_def)

lemma read_file_fields: "read_file p h = (r, h1) \<Longrightarrow> ran h1 = ran h \<and> environ h1 = environ h"
  by (auto simp: read_file_def Let_def split: if_splits option.splits node.splits)

lemma make_room_cases:
  assumes "make_room lk sys p h = (again, h1)" and "read_file p h = (Inr content, h2)"
  obtains (quiet) "again = False" "h1 = h2"
    | (stale) "h1 = pass_time 100000000 (snd (write_file p [] h2))"
    | (kill) "again" "should_kill lk h2"
        "h1 = pass_time 300000000 (snd (exec sys [''kill'', ''-9'', trim_space content] (note_killing lk (trim_space content) h2)))"
    | (spared) "again = False" "h1 = note_killing lk (trim_space content) h2"
proof -
  let ?t = "trim_space content"
  have eq: "make_room lk sys p h =
    (if ?t = [] then (False, h2)
     else if saturated_atoi ?t > 0 \<and> \<not> is_process_alive lk (saturated_atoi ?t)
     then (True, pass_time 100000000 (snd (write_file p [] h2)))
     else if should_kill lk h2 \<and> saturated_atoi ?t > 0
     then (True, pass_time 300000000 (snd (exec sys [''kill'', ''-9'', ?t] (note_killing lk ?t h2)))) else (False, note_killing lk ?t h2))"
    using assms(2) by (simp only: make_room_def prod.case sum.case Let_def)
  note res = assms(1)[unfolded eq]
  show ?thesis
  proof (cases "?t = []")
    case True
    show ?thesis by (rule that(1)) (use res True in simp_all)
  next
    case named: False
    show ?thesis
    proof (cases "saturated_atoi ?t > 0 \<and> \<not> is_process_alive lk (saturated_atoi ?t)")
      case True
      show ?thesis by (rule that(2)) (use res named True in simp)
    next
      case alive: False
      show ?thesis
      proof (cases "should_kill lk h2 \<and> saturated_atoi ?t > 0")
        case True
        show ?thesis by (rule that(3)) (use res named alive True in simp_all)
      next
        case False
        show ?thesis by (rule that(4)) (use res named alive False in simp_all)
      qed
    qed
  qed
qed

lemma make_room_kills:
  assumes "\<And>c h. environ (snd (sys c h)) = environ h" and "log_quiet lk" and "make_room lk sys p h = (again, h1)"
  shows "environ h1 = environ h \<and> (\<exists>ks. ran h1 = ran h @ map killed ks \<and> length ks \<le> 1 \<and> (ks \<noteq> [] \<longrightarrow> again \<and> should_kill lk h))"
proof -
  obtain r h2 where r: "read_file p h = (r, h2)" by fastforce
  have f: "ran h2 = ran h" "environ h2 = environ h" using read_file_fields[OF r] by auto
  have none: "environ h1 = environ h \<Longrightarrow> ran h1 = ran h \<Longrightarrow> ?thesis" by (auto intro: exI[of _ "[]"])
  show ?thesis
  proof (cases r)
    case (Inr content)
    let ?t = "trim_space content"
    show ?thesis
    using assms(3) r[unfolded Inr]
    proof (cases rule: make_room_cases)
      case kill
      then show ?thesis
        using f exec_ran_environ[OF assms(1), where argv="[''kill'', ''-9'', ?t]" and h="note_killing lk ?t h2"]
          note_killing_quiet[OF assms(2), of ?t h2] lock_path_environ[OF f(2)]
        by (auto simp: pass_time_def killed_def intro!: exI[of _ "[?t]"])
    qed (use none f note_killing_quiet[OF assms(2)] in \<open>simp_all add: pass_time_def write_file_def\<close>)
  qed (use assms(3) r f none in \<open>simp add: make_room_def\<close>)
qed

lemma lock_loop_kills:
  assumes "\<And>c h. environ (snd (sys c h)) = environ h" and "log_quiet lk" and "lock_loop lk sys p n h = (r, h1)"
  shows "\<exists>ks. ran h1 = ran h @ map killed ks \<and> length ks \<le> 2 - n \<and> (ks \<noteq> [] \<longrightarrow> should_kill lk h \<and> lk_flock lk n = WouldBlock) \<and>
    (r = Locked \<longrightarrow> (\<exists>m\<le>max n 2. lk_flock lk m = Locked))"
  using assms
proof (induction lk sys p n h rule: lock_loop.induct)
  case (1 lk sys p n h)
  show ?case
  proof (cases "lk_flock lk n = WouldBlock \<and> n < 2")
    case True
    obtain again h2 where m: "make_room lk sys p h = (again, h2)" by fastforce
    obtain ks where k: "environ h2 = environ h" "ran h2 = ran h @ map killed ks" "length ks \<le> 1" "ks \<noteq> [] \<Longrightarrow> again \<and> should_kill lk h"
      using make_room_kills[OF 1(2,3) m] by blast
    show ?thesis
    proof (cases again)
      case False
      then have "r = WouldBlock" "h1 = h2" "ks = []" using 1(4) True m k(4) by (auto simp: lock_loop.simps[of lk sys p n h])
      then show ?thesis using k True by (auto intro: exI[of _ "[]"])
    next
      case again: True
      then have "lock_loop lk sys p (Suc n) h2 = (r, h1)" using 1(4) True m by (simp add: lock_loop.simps[of lk sys p n h])
      then obtain ks' where k': "ran h1 = ran h2 @ map killed ks'" "length ks' \<le> 2 - Suc n" "ks' \<noteq> [] \<Longrightarrow> should_kill lk h2"
          "r = Locked \<Longrightarrow> \<exists>m\<le>2. lk_flock lk m = Locked"
        using 1(1)[OF _ _ m[symmetric, unfolded Eq_TrueI[OF again]] refl 1(2,3)] True \<open>lock_loop lk sys p (Suc n) h2 = (r, h1)\<close> by (auto simp: max_def)
      have "max n 2 = 2" using True by simp
      then show ?thesis
        using k k' True lock_path_environ[OF k(1)] by (intro exI[of _ "ks @ ks'"]) auto
    qed
  next
    case False
    then have "r = lk_flock lk n" "h1 = h"
      using 1(4) by (auto simp: lock_loop.simps[of lk sys p n h] split: flock_answer.splits if_splits)
    then show ?thesis by (auto intro!: exI[of _ "[]"] exI[of _ n])
  qed
qed

end
