(* ===== verification/Daemon.thy ===== *)
theory Daemon
  imports Runtime Cli
begin

text \<open>
  The rest of \<open>main\<close> in \<open>cmd/agent/main.go\<close>: what the process does once it is to become the daemon. It sends the
  log to its file, takes the lock, builds the runtime over the files of the run before, and serves sessions. The
  sessions are given by how they end, and what they log is left out; a signal ends the list. The writer of
  the log file, a package that stamps and rotates, is the parameter \<open>de_log\<close>: what it makes of a line. The
  same lines on standard output are not modelled.
\<close>

datatype process_end =
    Finished launch
  | LockHeld go_error
  | Served agent "int option list"

text \<open>The log goes to the file when its directory is there.\<close>

definition make_log_dir :: "host \<Rightarrow> bool \<times> host" where
  "make_log_dir h = (case mkdir_all (path_dir (agent_log_path h)) h of (r, h1) \<Rightarrow> (r = None, h1))"

record daemon_env =
  de_locking :: locking
  de_pid :: int
  de_codec :: codec
  de_receipts :: receipt_codec
  de_random :: "8 word list option"
  de_log :: "path \<Rightarrow> string \<Rightarrow> host \<Rightarrow> host"

text \<open>A \<open>Duration\<close> as \<open>%s\<close> prints it: the largest unit below a second, else hours, minutes and seconds.\<close>

definition decimal :: "int \<Rightarrow> nat \<Rightarrow> string" where
  "decimal v places =
     (let whole = v div 10 ^ places; part = v mod 10 ^ places; ds = itoa part
      in itoa whole @
         (if part = 0 then [] else CHR ''.'' # trim_right_by (\<lambda>c. c = CHR ''0'') (replicate (places - length ds) CHR ''0'' @ ds)))"

definition duration_text :: "int \<Rightarrow> string" where
  "duration_text d =
     (let u = \<bar>d\<bar>; minutes = u div 60000000000;
          body = (if u = 0 then ''0s''
                  else if u < 1000 then decimal u 0 @ ''ns''
                  else if u < 1000000 then decimal u 3 @ [CHR 0xC2, CHR 0xB5, CHR ''s'']
                  else if u < 1000000000 then decimal u 6 @ ''ms''
                  else (if minutes \<ge> 60 then itoa (minutes div 60) @ ''h'' else []) @
                       (if minutes > 0 then itoa (minutes mod 60) @ ''m'' else []) @ decimal (u mod 60000000000) 9 @ ''s'')
      in if d < 0 then CHR ''-'' # body else body)"

definition startup_line :: "config \<Rightarrow> string" where
  "startup_line cfg =
     ''agent startup: server_id='' @ cf_server cfg @ '' ws_url='' @ cf_ws_url cfg @ '' env_path='' @ cf_env_path cfg @
     '' profile='' @ cf_traffic cfg @ '' heartbeat='' @ duration_text (cf_heartbeat cfg) @ '' self_heal='' @ duration_text (cf_self_heal cfg) @
     '' reconnect_base='' @ duration_text (cf_base_delay cfg) @ '' reconnect_max='' @ duration_text (cf_max_delay cfg) @
     '' jitter_pct='' @ itoa (cf_jitter cfg)"

text \<open>What a logger was given goes to the file, when the log goes there.\<close>

definition write_log :: "daemon_env \<Rightarrow> path \<Rightarrow> bool \<Rightarrow> logger \<Rightarrow> host \<Rightarrow> host" where
  "write_log de p to_file lg h = (if to_file then fold (de_log de p) (sunk lg) h else h)"

definition logging_lock :: "daemon_env \<Rightarrow> path \<Rightarrow> bool \<Rightarrow> config \<Rightarrow> locking" where
  "logging_lock de p to_file cfg =
     (de_locking de)\<lparr>lk_log := (\<lambda>line. write_log de p to_file (log_info line (logger_for_config cfg)))\<rparr>"

text \<open>
  \<open>Fatal\<close> logs at error and leaves. The lines \<open>NewRuntime\<close> logs are written when it is done; they concern the outbox,
  which is loaded before.
\<close>

definition serve :: "daemon_env \<Rightarrow> sys \<Rightarrow> config \<Rightarrow> session_end list \<Rightarrow> host \<Rightarrow> process_end \<times> host" where
  "serve de sys cfg ss h =
     (let p = agent_log_path h; (to_file, h0) = make_log_dir h; lg = logger_for_config cfg in
      case acquire_single_instance_lock (logging_lock de p to_file cfg) sys (de_pid de) h0 of
        (Some e, h1) \<Rightarrow>
          (LockHeld (Wrapf ''agent is already running: '' e []),
           write_log de p to_file (log_error (''agent is already running: '' @ error_text e) lg) h1)
      | (None, h1) \<Rightarrow>
          (let h2 = write_log de p to_file (log_debug (startup_line cfg) lg) h1;
               (ag, lg1) = new_runtime (de_codec de) (de_receipts de) (de_random de) cfg h2;
               h3 = write_log de p to_file lg1 (ag_host ag)
           in (Served (ag\<lparr>ag_host := h3\<rparr>) (runtime_run cfg ss), h3)))"

definition main_program ::
  "daemon_env \<Rightarrow> cli_env \<Rightarrow> bool \<Rightarrow> string list \<Rightarrow> session_end list \<Rightarrow> host \<Rightarrow> (process_end \<times> host) option" where
  "main_program de ce attended args ss h =
     (case launch_agent ce attended args h of
        None \<Rightarrow> None
      | Some (BecomesDaemon cfg, h1) \<Rightarrow> Some (serve de (ce_sys ce) cfg ss h1)
      | Some (l, h1) \<Rightarrow> Some (Finished l, h1))"

section \<open>One outbox, one daemon\<close>

text \<open>What no step of a daemon that may not kill changes: the environment, the directory, and every file but the lock.\<close>

definition only_lock_changed :: "key \<Rightarrow> host \<Rightarrow> host \<Rightarrow> bool" where
  "only_lock_changed k h h1 \<longleftrightarrow> environ h1 = environ h \<and> cwd h1 = cwd h \<and> (\<forall>q. q \<noteq> k \<longrightarrow> file_at h1 q = file_at h q)"

lemma only_lock_trans: "only_lock_changed k h h1 \<Longrightarrow> only_lock_changed k h1 h2 \<Longrightarrow> only_lock_changed k h h2"
  by (simp add: only_lock_changed_def)

lemma only_lock_loc: "only_lock_changed k h h1 \<Longrightarrow> loc h1 p = loc h p"
  unfolding only_lock_changed_def by (blast intro: loc_cong)

lemma only_lock_read: "read_file p h = (r, h1) \<Longrightarrow> only_lock_changed k h h1"
proof -
  assume "read_file p h = (r, h1)"
  then have "h1 = pop_fault h" using read_file_host by (metis snd_conv)
  then show ?thesis by (simp add: only_lock_changed_def file_at_def pop_fault_def node_at_def)
qed

lemma only_lock_write: "write_with f p s h = (r, h1) \<Longrightarrow> only_lock_changed (loc h p) h h1"
  unfolding only_lock_changed_def by (drule write_with_frame) simp

lemma only_lock_mkdir: "mkdir_all p h = (r, h1) \<Longrightarrow> only_lock_changed k h h1"
  unfolding only_lock_changed_def by (drule mkdir_all_NoneD) simp

lemma only_lock_wait: "only_lock_changed k h (pass_time d h)"
  by (simp add: only_lock_changed_def pass_time_def file_at_def node_at_def)

lemma only_lock_should_kill: "only_lock_changed k h h1 \<Longrightarrow> should_kill lk h1 = should_kill lk h \<and> lock_path h1 = lock_path h"
  using lock_path_environ[of h1 h lk] by (simp add: only_lock_changed_def)

lemma make_room_only_lock:
  assumes "make_room lk sys p h = (again, h1)" and "\<not> should_kill lk h"
  shows "only_lock_changed (loc h p) h h1"
proof -
  obtain r h2 where r: "read_file p h = (r, h2)" by fastforce
  note read = only_lock_read[OF r, of "loc h p"]
  show ?thesis
  proof (cases r)
    case (Inl e)
    then show ?thesis using assms(1) r read by (simp add: make_room_def)
  next
    case (Inr content)
    show ?thesis using assms(1) r[unfolded Inr]
    proof (cases rule: make_room_cases)
      case quiet
      then show ?thesis using read by simp
    next
      case stale
      obtain w h3 where w: "write_file p [] h2 = (w, h3)" by fastforce
      have "only_lock_changed (loc h p) h2 h3"
        using only_lock_write[OF w[unfolded write_file_def]] only_lock_loc[OF read] by simp
      then show ?thesis using stale w read only_lock_wait only_lock_trans by (metis snd_conv)
    next
      case kill
      then show ?thesis using assms(2) only_lock_should_kill[OF read] by blast
    next
      case spared
      have "\<not> should_kill lk h2" using assms(2) only_lock_should_kill[OF read] by simp
      then show ?thesis using read spared note_killing_asked by simp
    qed
  qed
qed

lemma lock_loop_busy:
  assumes "\<And>n. lk_flock lk n = WouldBlock" and "\<not> should_kill lk h" and "lock_loop lk sys p n h = (r, h1)"
  shows "r = WouldBlock \<and> only_lock_changed (loc h p) h h1"
  using assms
proof (induction lk sys p n h rule: lock_loop.induct)
  case (1 lk sys p n h)
  note unfolded = 1(4)[unfolded lock_loop.simps[of lk sys p n h] 1(2) flock_answer.case]
  show ?case
  proof (cases "n < 2")
    case True
    obtain again h2 where m: "make_room lk sys p h = (again, h2)" by fastforce
    note room = make_room_only_lock[OF m 1(3)]
    show ?thesis
    proof (cases again)
      case again: True
      then have next_try: "lock_loop lk sys p (Suc n) h2 = (r, h1)" using unfolded True m by simp
      have "r = WouldBlock \<and> only_lock_changed (loc h2 p) h2 h1"
        using 1(1)[OF _ True m[symmetric, unfolded Eq_TrueI[OF again]] refl 1(2)] 1(2,3) next_try only_lock_should_kill[OF room] by simp
      then show ?thesis using room only_lock_trans only_lock_loc[OF room, of p] by metis
    next
      case False
      then show ?thesis using unfolded True m room by simp
    qed
  next
    case False
    then show ?thesis using unfolded by (simp add: only_lock_changed_def)
  qed
qed

lemma make_log_dir_only_lock: "make_log_dir h = (r, h1) \<Longrightarrow> only_lock_changed k h h1"
  using only_lock_mkdir by (auto simp: make_log_dir_def split: prod.splits)

lemma acquire_busy:
  assumes "\<And>n. lk_flock lk n = WouldBlock" and "\<not> should_kill lk h"
  shows "\<exists>e g. acquire_single_instance_lock lk sys pid h = (Some e, g) \<and> only_lock_changed (loc h (lock_path h)) h g"
proof -
  let ?k = "loc h (lock_path h)"
  obtain r1 h1 where m: "mkdir_all (path_dir (lock_path h)) h = (r1, h1)" by fastforce
  obtain r2 h2 where a: "append_file (lock_path h) [] h1 = (r2, h2)" by fastforce
  have s1: "only_lock_changed ?k h h1" by (rule only_lock_mkdir[OF m])
  have s2: "only_lock_changed ?k h h2"
    using s1 only_lock_write[OF a[unfolded append_file_def]] only_lock_loc[OF s1, of "lock_path h"] only_lock_trans by metis
  obtain r3 h3 where l: "lock_loop lk sys (lock_path h) 0 h2 = (r3, h3)" by fastforce
  have "\<not> should_kill lk h2" using only_lock_should_kill[OF s2] assms(2) by simp
  then have s3: "r3 = WouldBlock" "only_lock_changed ?k h h3"
    using lock_loop_busy[OF assms(1) _ l] s2 only_lock_loc[OF s2, of "lock_path h"] only_lock_trans by metis+
  show ?thesis
    using s1 s2 s3 by (cases r1; cases r2) (simp_all add: acquire_single_instance_lock_def Let_def m a l)
qed

lemma level_top: "level_value l \<le> 3"
  by (cases l) simp_all

text \<open>A writer of the log file changes files of the directory of the log only.\<close>

definition log_confined :: "(path \<Rightarrow> string \<Rightarrow> host \<Rightarrow> host) \<Rightarrow> path \<Rightarrow> key \<Rightarrow> bool" where
  "log_confined writer p dir \<longleftrightarrow> (\<forall>line h q. \<not> prefix dir q \<longrightarrow> file_at (writer p line h) q = file_at h q)"

text \<open>
  C14: Two daemons do not serve from one outbox. While another process holds the lock, and this one may not kill it (it
  is no service, and the person at the terminal did not say yes), it ends without an agent. It leaves the refusal in
  the log, when the directory of the log is there, and changes no other file but the lock file: neither the
  outbox nor the inbox was written. The package that writes the log changes files of the log's directory only.
\<close>

theorem second_daemon_touches_nothing:
  assumes "\<And>n. lk_flock (de_locking de) n = WouldBlock" and "\<not> should_kill (de_locking de) h"
    and "log_confined (de_log de) (agent_log_path h) (butlast (loc h (agent_log_path h)))"
  shows "\<exists>e g. fst (serve de sys cfg ss h) = LockHeld (Wrapf ''agent is already running: '' e []) \<and>
    snd (serve de sys cfg ss h) =
      (if fst (mkdir_all (path_dir (agent_log_path h)) h) = None
       then de_log de (agent_log_path h) (''[error] agent is already running: '' @ error_text e) g else g) \<and>
    (\<forall>q. q \<noteq> loc h (lock_path h) \<longrightarrow> file_at g q = file_at h q) \<and>
    (\<forall>q. q \<noteq> loc h (lock_path h) \<and> \<not> prefix (butlast (loc h (agent_log_path h))) q \<longrightarrow>
       file_at (snd (serve de sys cfg ss h)) q = file_at h q)"
proof -
  let ?k = "loc h (lock_path h)" and ?p = "agent_log_path h"
  obtain to_file h0 where d: "make_log_dir h = (to_file, h0)" by fastforce
  have f: "to_file \<longleftrightarrow> fst (mkdir_all (path_dir ?p) h) = None" using d by (auto simp: make_log_dir_def split: prod.splits)
  let ?lk = "logging_lock de ?p to_file cfg"
  note log_dir = make_log_dir_only_lock[OF d, of ?k]
  have same: "lk_flock ?lk = lk_flock (de_locking de)" "should_kill ?lk h' = should_kill (de_locking de) h'" for h'
    by (simp_all add: logging_lock_def should_kill_def nobody_to_ask_def)
  have p: "lock_path h0 = lock_path h" "\<not> should_kill ?lk h0"
    using only_lock_should_kill[OF log_dir] assms(2) same(2) by simp_all
  obtain e g where a: "acquire_single_instance_lock ?lk sys (de_pid de) h0 = (Some e, g)" "only_lock_changed (loc h0 (lock_path h0)) h0 g"
    using acquire_busy[of ?lk h0 sys "de_pid de"] assms(1) same(1) p(2) by auto
  have g: "only_lock_changed ?k h g" using only_lock_trans[OF log_dir] a(2) p(1) only_lock_loc[OF log_dir] by simp
  have "sunk (log_error (''agent is already running: '' @ error_text e) (logger_for_config cfg)) =
      [''[error] agent is already running: '' @ error_text e]"
    by (simp add: log_error_def log_write_def enabled_def less_eq_level_def logger_for_config_def new_logger_def level_top)
  then have s: "serve de sys cfg ss h = (LockHeld (Wrapf ''agent is already running: '' e []),
      if to_file then de_log de ?p (''[error] agent is already running: '' @ error_text e) g else g)"
    by (simp add: serve_def d a(1) write_log_def Let_def)
  have "file_at (snd (serve de sys cfg ss h)) q = file_at h q" if "q \<noteq> ?k" "\<not> prefix (butlast (loc h ?p)) q" for q
    using that g assms(3) s by (simp add: only_lock_changed_def log_confined_def)
  then show ?thesis using s f g by (intro exI[of _ e] exI[of _ g]) (simp add: only_lock_changed_def)
qed

text \<open>A machine whose lock is held while the outbox has a file, a person who says no, and a log that is appended to.\<close>

definition demo_locking :: locking where
  "demo_locking = \<lparr>lk_flock = (\<lambda>_. WouldBlock), lk_alive = (\<lambda>_. True), lk_terminal = True, lk_typed = ''n'', lk_log = (\<lambda>_ h. h)\<rparr>"

definition demo_daemon :: daemon_env where
  "demo_daemon = \<lparr>de_locking = demo_locking, de_pid = 8, de_codec = demo_codec, de_receipts = demo_receipt_codec, de_random = None,
     de_log = (\<lambda>p line h. snd (append_file p (line @ [newline]) h))\<rparr>"

lemma append_confined: "log_confined (\<lambda>p line h. snd (append_file p (line @ [newline]) h)) p (butlast k)"
  if "\<And>h. loc h p = k"
proof -
  have "file_at (snd (append_file p s h)) q = file_at h q" if "\<not> prefix (butlast k) q" for s h q
  proof -
    obtain r h1 where a: "append_file p s h = (r, h1)" by fastforce
    have "q \<noteq> loc h p" using \<open>\<And>h. loc h p = k\<close> that by (auto simp: prefix_def) (metis append_butlast_last_id append_Nil2 butlast.simps(1))
    then show ?thesis using write_with_frame[OF a[unfolded append_file_def]] a by simp
  qed
  then show ?thesis by (simp add: log_confined_def)
qed

theorem second_daemon_touches_nothing_witness:
  "(\<exists>e. fst (serve demo_daemon (\<lambda>c h. (\<lparr>p_out = [], p_all = [], p_err = None\<rparr>, h)) demo_settings []
       (demo_disk\<lparr>environ := [(''TUG_AGENT_LOCK_PATH'', ''/l''), (''TUG_DATA_DIR'', ''/d'')]\<rparr>)) = LockHeld e) \<and>
   file_at (snd (serve demo_daemon (\<lambda>c h. (\<lparr>p_out = [], p_all = [], p_err = None\<rparr>, h)) demo_settings []
       (demo_disk\<lparr>environ := [(''TUG_AGENT_LOCK_PATH'', ''/l''), (''TUG_DATA_DIR'', ''/d'')]\<rparr>))) [''q.json''] = Some ''m2''"
proof -
  let ?h = "demo_disk\<lparr>environ := [(''TUG_AGENT_LOCK_PATH'', ''/l''), (''TUG_DATA_DIR'', ''/d'')]\<rparr>"
  have e: "lock_path ?h = ''/l''" "\<not> is_systemd_service ?h"
    by (simp_all add: lock_path_def is_systemd_service_def demo_disk_def bare_host_def getenv_def trim_space_def trim_by_def trim_right_by_def is_space_def)
  have f: "lk_flock (de_locking demo_daemon) n = WouldBlock" for n by (simp add: demo_daemon_def demo_locking_def)
  have n: "to_lower (trim_space ''n'') = ''n''" by code_simp
  have k: "\<not> should_kill (de_locking demo_daemon) ?h"
    using e n by (simp add: should_kill_def nobody_to_ask_def demo_daemon_def demo_locking_def)
  have log: "loc h (agent_log_path ?h) = [''d'', ''logs'', ''agent.log'']" for h
  proof -
    have "data_dir ?h = ''/d''" by (simp add: data_dir_def getenv_def)
    moreover have "path_join [''/d'', ''logs'', ''agent.log''] = ''/d/logs/agent.log''" by code_simp
    moreover have "clean_comps ''/d/logs/agent.log'' = [''d'', ''logs'', ''agent.log'']" by code_simp
    ultimately show ?thesis by (simp add: agent_log_path_def loc_rooted rooted_iff)
  qed
  have c: "log_confined (de_log demo_daemon) (agent_log_path ?h) (butlast (loc ?h (agent_log_path ?h)))"
    using append_confined[OF log] by (simp add: demo_daemon_def log)
  have q: "[''q.json''] \<noteq> loc ?h (lock_path ?h)" unfolding e by (simp add: loc_def model_defs)
  have "file_at ?h [''q.json''] = Some ''m2''" by (simp add: file_at_def node_at_def demo_disk_def)
  then show ?thesis using second_daemon_touches_nothing[OF f k c] q by (fastforce simp: log)
qed

end
