(* ===== verification/Spec2Isabelle.thy ===== *)
theory Spec2Isabelle
  imports Daemon
begin

text \<open>
  A verification development of the Tug agent, the daemon that connects a server to the Tug dashboard and
  carries out its commands. Paths below are those of the repository.

  \<^bold>\<open>The program.\<close> \<open>cmd/agent\<close> is the command line: it pairs the machine, shows its state, updates the binary,
  and becomes the daemon. The daemon (\<open>internal/agent\<close>) holds one websocket session after the other with the
  control plane. What it tells the control plane is of two kinds: facts, which are numbered, appended to a log on
  disk by the outbox (\<open>internal/outbox\<close>) and kept until they are acknowledged, and signals, which are written to
  the socket and may be lost. What the control plane tells the agent are commands; a tracked one leaves a receipt in
  the command inbox, so that a second delivery is answered and not carried out. The handlers of the commands work on
  the sandbox of project directories (\<open>internal/sandbox\<close>), on docker (\<open>internal/docker\<close>), on the edge proxy
  (\<open>internal/router\<close>), on the security settings of the host (\<open>internal/security\<close>), on terminals and
  deployments (\<open>internal/agent\<close>), and take over the projects of other panels (\<open>internal/importer\<close>).

  \<^bold>\<open>The model.\<close> The definitions are functions that compute, but for two step relations, of deliveries that overlap
  (\<open>cstep\<close> in \<open>Dispatch\<close>) and of the reader of a pipe (\<open>pump_step\<close> in \<open>Compose\<close>), and the predicate
  \<open>carried_out\<close>, which compares two tables of handlers. The state of the machine is the record \<open>host\<close>: a tree
  of files, the environment, the working directory, the clock in nanoseconds, the list of processes that were started,
  and a script of faults, one entry of which each file operation consumes; so a theorem that does not constrain
  \<open>faults\<close> covers every pattern of failing and torn writes. The state of the agent is the record \<open>agent\<close>: its
  queue, its inbox, the container states last reported, the progress of acknowledgements, the connection and the host.
  An operation that fails returns a sum with the \<open>go_error\<close> of the code on the left, or an optional error beside
  its state. A process that cannot be started is told from one that ended badly by its error (\<open>start_error\<close>). Strings are byte strings. Numbers that count facts are 64 bit words; durations are integers, wrapped to
  64 bits where the code multiplies or adds them (\<open>wrap64\<close>).

  \<^bold>\<open>Theories, and the code they model.\<close>
  \<^item> \<open>Prelude\<close>: the collections of hints, the names of the basic types, and the locale \<open>machine\<close> of step functions
    with an invariant, from which the runs of five components inherit theirs.
  \<^item> \<open>Go_Strings\<close>, \<open>Go_Path\<close>, \<open>Host\<close>: what the code uses of \<open>strings\<close>, \<open>strconv\<close>, \<open>path/filepath\<close>,
    \<open>errors\<close>, \<open>os\<close> and \<open>os/exec\<close>. \<open>Protocol\<close>: the messages of \<open>tug.sh/pkg/protocol\<close> as far as
    the agent reads or writes their fields; its constants and predicates are the parameter \<open>proto\<close>.
  \<^item> \<open>Sandbox\<close> (\<open>internal/sandbox\<close>): \<open>ResolvePath\<close> and the file manager. The locale \<open>confined_resolver\<close> says
    what the rest of the agent relies on. The resolver is shown equal to a walk through the path that refuses what
    ends outside; writes, deletes and reads are shown confined, and a written file reads back.
  \<^item> \<open>Outbox\<close>, \<open>Outbox_Disk\<close> (\<open>internal/outbox/queue.go\<close>): every operation of the queue. \<open>promise\<close> is the
    abstract stream of numbered facts; the first theory shows that the queue in memory refines it whatever the disk
    does, the second that its files do after every run of successful operations, and what a torn write costs.
  \<^item> \<open>Inbox\<close> (\<open>command_inbox.go\<close>): the receipts, their bound and their file. Go ranges over a map in any order;
    that order is the parameter \<open>visit\<close>.
  \<^item> \<open>Reconnect\<close> (\<open>errors.go\<close>, \<open>Run\<close> and \<open>jitteredBackoff\<close> of \<open>runtime.go\<close>): the three markers of errors as
    interpretations of one locale, the schedule of waits, and the bounds of a wait.
  \<^item> \<open>Logging\<close> (\<open>internal/logging\<close>, \<open>internal/shell\<close>), \<open>Config\<close> (\<open>internal/config\<close>), \<open>Machine\<close>
    (\<open>internal/system\<close> and the facts in \<open>handshake.go\<close>), \<open>Docker\<close> (\<open>internal/docker\<close> without the next two),
    \<open>Compose\<close> (\<open>compose.go\<close>, \<open>StreamEvents\<close>; what the reader of a long line does is the step relation
    \<open>pump_step\<close>), \<open>Migration\<close> (\<open>migration.go\<close>), \<open>Router\<close>
    (\<open>internal/router\<close>), \<open>Lifecycle\<close> (\<open>internal/lifecycle\<close>), \<open>Security\<close> (\<open>internal/security\<close>).
  \<^item> \<open>Transport\<close>, \<open>Events\<close>, \<open>Dispatch\<close>, \<open>Session\<close> (\<open>transport.go\<close>, \<open>handshake.go\<close>, \<open>events.go\<close>,
    \<open>command_dispatch.go\<close>, \<open>session.go\<close>): envelopes, the flush loop, acknowledgements, container deltas, the
    frame of a command, and the session as a machine whose events are the frames and the ticks of its workers. The
    handlers are an argument here; the locale \<open>receipt_store\<close> says what the dispatch relies on of the inbox.
  \<^item> \<open>Pairing\<close> (\<open>internal/pairing\<close>, \<open>cmd/agent/init.go\<close>, the settings file of \<open>main.go\<close>), \<open>Deploy\<close>
    (\<open>deploy.go\<close>), \<open>Terminal\<close> (\<open>terminal.go\<close>), \<open>Import_Text\<close> and \<open>Importer\<close> (\<open>internal/importer\<close>).
  \<^item> \<open>Handlers\<close> (\<open>commands.go\<close> and the six files of handlers beside it): the table and every handler in it.
    \<open>Answers\<close>: the table meets what \<open>Session\<close> and \<open>Dispatch\<close> ask of handlers, so the promise of the outbox
    holds of the whole agent.
  \<^item> \<open>Runtime\<close> (\<open>NewRuntime\<close> and the rest of \<open>runtime.go\<close> and \<open>session.go\<close>, \<open>conformance/conformance.go\<close>),
    \<open>Cli\<close> and \<open>Daemon\<close> (\<open>cmd/agent/main.go\<close>): how the parts are put together from the configuration and the
    files, what the command line does, how a daemon keeps others out, and what it writes to its log at the start.

  \<^bold>\<open>What is shown.\<close> The properties follow the chain a fact takes. A fact that was enqueued keeps its number and content
  until an acknowledgement reaches it (C1, C2, C3), through every interleaving of frames and ticks of a session (C4)
  and with the handlers of the code (C8); it is sent in order (C6, C11), and a daemon started again over the same files
  goes on from the same promise and the same receipts (C13), while a second one is kept from them and leaves
  its refusal in the log (C14). Over deliveries handled one after another a command is carried out exactly once or,
  where a receipt answers it, not at all (C15); two deliveries side by side can both carry it out (C37). The other groups are about one component each: confinement to the sandbox
  and round trips of files, settings, keys, hardening and environments; bounds of the configuration and of the
  backoff; a listing that is what docker prints; an update that installs only what it tested; a migration that removes only what it has moved; terminals
  that end with their session; readers that follow a process or a file to its end. The properties of kind \<open>error\<close> are
  about what the code does where it does not do what it means to: each states the behaviour, and a witness shows that
  it happens.

  \<^bold>\<open>Recursion and bounds.\<close> No definition takes fuel. Loops over input are structural, or recursions with a measure: the
  length of what is left to scan or to split, or the attempts at the lock that are left. The loop that reads a log backwards is a
  \<open>while_option\<close>, and it is shown to end. What the daemon repeats for ever is given by the list of its
  events, of the ends of its sessions or of the moments a ticker fires, over all of which the theorems quantify. Sizes are
  those of the code: 256 receipts, batches of the flush loop and of reports, 64 KiB and 1 MiB for a line of a scanner,
  8 KiB chunks of the log.

  \<^bold>\<open>Parameters.\<close> What is not in the repository is an argument of the definitions: the constants of the protocol; the JSON
  codecs (\<open>codec\<close>, \<open>receipt_codec\<close> and others), of which only that what they encode decodes again is assumed where it
  matters; what a started process does (\<open>sys\<close>); the answers of the control plane, of \<open>flock\<close>, of gopsutil, of the
  interface list and of the person at the terminal; random bytes; the order in which Go ranges over a map; the writer
  of the log file (\<open>de_log\<close>, \<open>lk_log\<close>), which stamps a line and rotates the file as the package \<open>log\<close> and lumberjack do, and of
  which only that it changes no file outside the log directory is assumed.

  \<^bold>\<open>Not modelled.\<close>
  \<^item> Goroutines as such: the mutexes, deadlines and contexts. Their effects are interleavings of whole steps; where two
    steps are not atomic together this is modelled as such (two deliveries of one command, the readers of terminals,
    the lines and ticks of a streamed process). Progress that a handler reports while it works is sent once the work
    is done, in the same order.
  \<^item> The websocket library: a connection is open or closed, and each write on it succeeds or fails. Ping and pong
    control frames beyond the success of a ping are left out.
  \<^item> Symbolic links, owners and modes of files. A resolver without links cannot see
    that a link below the sandbox leads out of it; the code does not look for one either.
  \<^item> Floating point: a percentage docker prints is kept as its text, those of gopsutil pass through as bit patterns, and the progress
    lines of a transfer (\<open>progressWriter\<close>), which print decimal figures, are not computed.
  \<^item> Case folding and white space beyond ASCII, and the decoding of UTF-8, in \<open>strings\<close> and \<open>fmt\<close>.
  \<^item> Log lines of sessions, handlers and workers, the mirror to the process wide logger, the copies of log lines on the
    standard output, and the texts of the prompt about the lock.
  \<^item> The first size of a terminal's window, whose error the code drops. \<open>%q\<close> escapes what is not printable in
    ASCII; runes beyond it and bytes that are not UTF-8 are passed through.
  \<^item> \<open>Stop\<close> of the conformance agent, which cancels a context and waits, and \<open>test-platform.go\<close>, a program of
    its own without logic.
\<close>

end
